(* ===== verification/Go_Prelude.thy ===== *)
theory Go_Prelude
  imports Main "HOL-Library.Word" "HOL-Library.List_Lexorder" "HOL-Library.Char_ord"
    "HOL-Library.Multiset"
begin

text \<open>
  Shared vocabulary of the development: Go's fixed-width integers, the three ways a Go call
  ends (a value, a returned error, a panic), Go strings as byte strings, and the generic list
  and map lemmas that several components use.
\<close>

unbundle bit_operations_syntax

named_theorems go_simps \<open>unfolding rules of the small helper definitions\<close>

section \<open>Machine integers\<close>

text \<open>
  \<open>uint\<close>, \<open>uint64\<close> and \<open>uint32\<close> are words (the supported platforms are 64 bit). A signed
  \<open>int\<close> or \<open>int64\<close> is an \<open>int\<close> in two's complement range; each addition on it is written
  with \<open>wrap64\<close>.
\<close>

type_synonym uint8 = "8 word"
type_synonym uint32 = "32 word"
type_synonym uint64 = "64 word"
type_synonym goint = int

definition wrap64 :: "int \<Rightarrow> goint" where
  "wrap64 x = (x + 2 ^ 63) mod 2 ^ 64 - 2 ^ 63"

definition int64_range :: "int \<Rightarrow> bool" where
  "int64_range x \<longleftrightarrow> - (2 ^ 63) \<le> x \<and> x < 2 ^ 63"

lemma wrap64_id [simp]: "int64_range x \<Longrightarrow> wrap64 x = x"
  by (simp add: wrap64_def int64_range_def)

lemma wrap64_range: "int64_range (wrap64 x)"
  by (simp add: wrap64_def int64_range_def)

lemma wrap64_nonneg: "0 \<le> x \<Longrightarrow> x < 2 ^ 63 \<Longrightarrow> wrap64 x = x"
  by (simp add: int64_range_def)

section \<open>How a call ends\<close>

text \<open>
  A Go function that returns \<open>(value, error)\<close> and may panic: \<open>Ok\<close> is a nil error, \<open>Err\<close> a
  non-nil one (with its message), \<open>Panic\<close> a run-time panic, which stops the process.
\<close>

datatype 'a outcome = Ok 'a | Err string | Panic

fun bind_outcome :: "'a outcome \<Rightarrow> ('a \<Rightarrow> 'b outcome) \<Rightarrow> 'b outcome" where
  "bind_outcome (Ok x) f = f x"
| "bind_outcome (Err e) f = Err e"
| "bind_outcome Panic f = Panic"

lemma bind_outcome_Ok_iff [simp]:
  "bind_outcome r f = Ok y \<longleftrightarrow> (\<exists>x. r = Ok x \<and> f x = Ok y)"
  by (cases r) auto

lemma bind_outcome_cong [fundef_cong]:
  "r = r' \<Longrightarrow> (\<And>x. r' = Ok x \<Longrightarrow> f x = g x) \<Longrightarrow> bind_outcome r f = bind_outcome r' g"
  by (cases r') auto

section \<open>Strings\<close>

text \<open>
  A Go string is a sequence of bytes; \<open>string\<close> is a list of 8-bit characters. \<open>string_bytes\<close> is
  the conversion \<open>[]byte(s)\<close>. The comparison \<open><\<close> of Go strings is the lexicographic order on
  bytes, the order that \<open>List_Lexorder\<close> with \<open>Char_ord\<close> puts on \<open>string\<close>.
\<close>

definition char_byte :: "char \<Rightarrow> uint8" where
  "char_byte c = of_char c"

definition string_bytes :: "string \<Rightarrow> uint8 list" where
  "string_bytes s = map char_byte s"

definition has_prefix :: "string \<Rightarrow> string \<Rightarrow> bool" where
  "has_prefix s p \<longleftrightarrow> take (length p) s = p"

text \<open>\<open>strings.ToLower\<close> on ASCII; bytes above 127 are kept (host names on the wire are ASCII).\<close>

definition lower_char :: "char \<Rightarrow> char" where
  "lower_char c = (let n = (of_char c :: nat) in if 65 \<le> n \<and> n \<le> 90 then char_of (n + 32) else c)"

definition to_lower :: "string \<Rightarrow> string" where
  "to_lower s = map lower_char s"

lemma lower_char_idem [simp]: "lower_char (lower_char c) = lower_char c"
  by (simp add: lower_char_def Let_def)

lemma to_lower_idem [simp]: "to_lower (to_lower s) = to_lower s"
  by (simp add: to_lower_def)

lemma to_lower_Nil [simp]: "to_lower [] = []"
  by (simp add: to_lower_def)

lemma to_lower_eq_Nil [simp]: "to_lower s = [] \<longleftrightarrow> s = []"
  by (simp add: to_lower_def)

section \<open>Slices\<close>

text \<open>A slice that may be nil: \<open>None\<close> is nil, \<open>Some []\<close> is empty but not nil.\<close>

type_synonym 'a slice = "'a list option"

definition elems :: "'a slice \<Rightarrow> 'a list" where
  "elems s = (case s of None \<Rightarrow> [] | Some xs \<Rightarrow> xs)"

lemma elems_simps [simp]: "elems None = []" "elems (Some xs) = xs"
  by (simp_all add: elems_def)

section \<open>Lists\<close>

text \<open>
  Two loops that the balancers share: scanning for a least element, keeping the first or the
  last one among equals.
\<close>

fun scan_least :: "('a \<Rightarrow> 'a \<Rightarrow> bool) \<Rightarrow> 'a \<Rightarrow> 'a list \<Rightarrow> 'a" where
  "scan_least better least [] = least"
| "scan_least better least (x # xs) =
     scan_least better (if better x least then x else least) xs"

lemma scan_least_in: "scan_least better a xs \<in> insert a (set xs)"
proof (induction xs arbitrary: a)
  case (Cons x xs)
  from Cons.IH [of "if better x a then x else a"] show ?case by (auto split: if_splits)
qed simp

lemma scan_least_less_min:
  fixes f :: "'a \<Rightarrow> 'b::linorder"
  assumes "\<And>x y. better x y \<longleftrightarrow> f x < f y"
  shows "\<forall>x \<in> insert a (set xs). f (scan_least better a xs) \<le> f x"
proof (induction xs arbitrary: a)
  case (Cons x xs)
  from Cons[of "if better x a then x else a"] show ?case
    by (auto simp: assms split: if_splits) 
qed simp

lemma scan_least_le_min:
  fixes f :: "'a \<Rightarrow> 'b::linorder"
  assumes "\<And>x y. better x y \<longleftrightarrow> f x \<le> f y"
  shows "\<forall>x \<in> insert a (set xs). f (scan_least better a xs) \<le> f x"
proof (induction xs arbitrary: a)
  case (Cons x xs)
  from Cons[of "if better x a then x else a"] show ?case
    by (auto simp: assms split: if_splits) 
qed simp

lemma Min_insert_absorb:
  assumes "finite A" and "a \<in> A" and "a \<le> b"
  shows "Min (insert b A) = Min A"
proof -
  have le: "Min A \<le> b" using assms by (meson Min_le order.trans)
  have ne: "A \<noteq> {}" using assms(2) by blast
  have "Min (insert b A) = min b (Min A)" by (rule Min_insert [OF assms(1) ne])
  also have "\<dots> = Min A" by (rule min_absorb2 [OF le])
  finally show ?thesis .
qed

lemma split_at_first:
  assumes "xs @ c # xs' = ys @ c # ys'" and "c \<notin> set xs" and "c \<notin> set ys"
  shows "xs = ys \<and> xs' = ys'"
  using assms
proof (induction xs arbitrary: ys)
  case Nil
  then show ?case by (cases ys) auto
next
  case (Cons x xs)
  then show ?case by (cases ys) auto
qed

lemma sort_key_perm_eq:
  assumes "mset xs = mset ys" and "inj_on f (set xs)"
  shows "sort_key f xs = sort_key f ys"
proof (rule properties_for_sort_key)
  show "mset (sort_key f ys) = mset xs" using assms(1) by simp
  show "sorted (map f (sort_key f ys))" by simp
  fix k assume "k \<in> set (sort_key f ys)"
  have "set xs = set ys" using assms(1) by (metis set_mset_mset)
  let ?P = "\<lambda>x. f k = f x"
  have k: "k \<in> set xs" using \<open>k \<in> set (sort_key f ys)\<close> \<open>set xs = set ys\<close> by simp
  have eq: "\<And>x. x \<in> set xs \<Longrightarrow> ?P x \<longleftrightarrow> x = k"
    using assms(2) k by (auto dest: inj_onD)
  have 1: "filter ?P zs = replicate (count (mset xs) k) k" if "mset zs = mset xs" for zs
  proof -
    have "set zs = set xs" using that by (metis set_mset_mset)
    then have "filter ?P zs = filter (\<lambda>x. k = x) zs" using eq by (intro filter_cong) auto
    then show ?thesis
      by (simp add: count_mset count_list_eq_length_filter replicate_length_filter flip: that)
  qed
  show "filter ?P (sort_key f ys) = filter ?P xs"
    using 1 [of xs] 1 [of "sort_key f ys"] assms(1) by simp
qed

end
