(* ===== verification/Core.thy ===== *)
theory Core
  imports Go_Prelude
begin

text \<open>
  Package \<open>core\<close> (src/src/core): targets, backends with their statistics, the context of one
  client request, and the traffic deltas that flow from the proxies to the counters.
\<close>

section \<open>Targets and backends\<close>

record Target =
  Host :: string
  Port :: string

definition Target_EqualTo :: "Target \<Rightarrow> Target \<Rightarrow> bool" where
  "Target_EqualTo t other \<longleftrightarrow> Host t = Host other \<and> Port t = Port other"

definition Address :: "Target \<Rightarrow> string" where
  "Address t = Host t @ '':'' @ Port t"

record BackendStats =
  Live :: bool
  Discovered :: bool
  TotalConnections :: goint
  ActiveConnections :: uint64
  RefusedConnections :: uint64
  RxBytes :: uint64
  TxBytes :: uint64
  RxSecond :: uint64
  TxSecond :: uint64

record Backend =
  Target :: Target
  Priority :: goint
  Weight :: goint
  MaxConnections :: goint
  Sni :: string
  Stats :: BackendStats

text \<open>The zero value of \<open>BackendStats\<close>, which a composite literal leaves in unnamed fields.\<close>

definition zero_stats :: BackendStats where
  "zero_stats = \<lparr>Live = False, Discovered = False, TotalConnections = 0, ActiveConnections = 0,
     RefusedConnections = 0, RxBytes = 0, TxBytes = 0, RxSecond = 0, TxSecond = 0\<rparr>"

definition Backend_EqualTo :: "Backend \<Rightarrow> Backend \<Rightarrow> bool" where
  "Backend_EqualTo b other = Target_EqualTo (Target b) (Target other)"

definition MergeFrom :: "Backend \<Rightarrow> Backend \<Rightarrow> Backend" where
  "MergeFrom b other = b\<lparr>Priority := Priority other, Weight := Weight other,
     MaxConnections := MaxConnections other, Sni := Sni other\<rparr>"

definition Backend_Address :: "Backend \<Rightarrow> string" where
  "Backend_Address b = Address (Target b)"

lemma Target_EqualTo_eq [simp]: "Target_EqualTo t u \<longleftrightarrow> t = u"
  by (cases t; cases u) (simp add: Target_EqualTo_def)

lemma Backend_EqualTo_eq [simp]: "Backend_EqualTo a b \<longleftrightarrow> Target a = Target b"
  by (simp add: Backend_EqualTo_def)

lemma MergeFrom_simps [simp]:
  "Target (MergeFrom b other) = Target b"
  "Stats (MergeFrom b other) = Stats b"
  "Priority (MergeFrom b other) = Priority other"
  "Weight (MergeFrom b other) = Weight other"
  "MaxConnections (MergeFrom b other) = MaxConnections other"
  "Sni (MergeFrom b other) = Sni other"
  by (simp_all add: MergeFrom_def)

text \<open>
  \<open>host:port\<close> strings identify targets as long as no port contains a colon: the last colon of
  the address then separates host and port.
\<close>

lemma Address_inj:
  assumes "Address t = Address u" and "CHR '':'' \<notin> set (Port t)" and "CHR '':'' \<notin> set (Port u)"
  shows "t = u"
proof -
  have "rev (Port t) @ CHR '':'' # rev (Host t) = rev (Port u) @ CHR '':'' # rev (Host u)"
    using arg_cong [OF assms(1), of rev] by (simp add: Address_def)
  then have "rev (Port t) = rev (Port u) \<and> rev (Host t) = rev (Host u)"
    using assms(2,3) by (auto dest: split_at_first)
  then show ?thesis by (cases t; cases u) simp
qed

section \<open>Request contexts\<close>

text \<open>
  The interface \<open>core.Context\<close>: the client's address (bytes of \<open>net.IP\<close> and port) and the
  host name that SNI sniffing found. \<open>TcpContext\<close> carries a connection and the host name,
  \<open>UdpContext\<close> only the client address, so its \<open>Sni()\<close> is empty.
\<close>

record Addr =
  addr_IP :: "uint8 list"
  addr_Port :: goint

datatype Context =
    TcpContext (Hostname: string) (Conn_RemoteAddr: Addr)
  | UdpContext (ClientAddr: Addr)

fun Context_Ip :: "Context \<Rightarrow> uint8 list" where
  "Context_Ip (TcpContext h a) = addr_IP a"
| "Context_Ip (UdpContext a) = addr_IP a"

fun Context_Port :: "Context \<Rightarrow> goint" where
  "Context_Port (TcpContext h a) = addr_Port a"
| "Context_Port (UdpContext a) = addr_Port a"

fun Context_Sni :: "Context \<Rightarrow> string" where
  "Context_Sni (TcpContext h a) = h"
| "Context_Sni (UdpContext a) = []"

section \<open>Traffic deltas\<close>

record ReadWriteCount =
  CountRead :: uint64
  CountWrite :: uint64
  rwc_Target :: Target

definition zero_target :: Target where
  "zero_target = \<lparr>Host = [], Port = []\<rparr>"

definition IsZero :: "ReadWriteCount \<Rightarrow> bool" where
  "IsZero c \<longleftrightarrow> CountRead c = 0 \<and> CountWrite c = 0"

end
