(* ===== verification/Config.thy ===== *)
theory Config
  imports Go_Prelude
begin

text \<open>
  Package \<open>config\<close> (src/src/config/config.go): the records the configuration file decodes into.
  Field names carry a prefix for their record, since several records share names. A pointer
  field is an \<open>option\<close>; nil is \<open>None\<close>. A slice is a \<open>slice\<close>, so that nil and empty, which
  \<open>reflect.DeepEqual\<close> tells apart, differ. A Go map is a partial function. Durations are strings here,
  as in the source: they are parsed where they are used.
\<close>

record LoggingConfig =
  log_Level :: string
  log_Output :: string
  log_Format :: string

record ApiBasicAuthConfig =
  auth_Login :: string
  auth_Password :: string

record ApiTlsConfig =
  atls_CertPath :: string
  atls_KeyPath :: string

record ApiConfig =
  api_Enabled :: bool
  api_Bind :: string
  api_BasicAuth :: "ApiBasicAuthConfig option"
  api_Tls :: "ApiTlsConfig option"
  api_Cors :: bool

record MetricsConfig =
  metrics_Enabled :: bool
  metrics_Bind :: string

record ConnectionOptions =
  co_MaxConnections :: "goint option"
  co_ClientIdleTimeout :: "string option"
  co_BackendIdleTimeout :: "string option"
  co_BackendConnectionTimeout :: "string option"
  co_ClientTcpKeepalive :: "bool option"
  co_ClientTcpKeepalivePeriod :: "string option"
  co_BackendTcpKeepalive :: "bool option"
  co_BackendTcpKeepalivePeriod :: "string option"
  co_Sources :: "string option"

record AcmeConfig =
  acme_Challenge :: string
  acme_HttpBind :: string
  acme_CacheDir :: string

record ProfilerConfig =
  prof_Enabled :: bool
  prof_Bind :: string

record ProxyProtocol =
  pp_Version :: string

record SniConfig =
  sni_HostnameMatchingStrategy :: string
  sni_UnexpectedHostnameStrategy :: string
  sni_ReadTimeout :: string

record tlsCommon =
  tls_Ciphers :: "string slice"
  tls_MinVersion :: string
  tls_MaxVersion :: string
  tls_SessionTickets :: bool

record Tls =
  tls_AcmeHosts :: "string slice"
  tls_CertPath :: string
  tls_KeyPath :: string
  tls_common :: tlsCommon

record BackendsTls =
  btls_IgnoreVerify :: bool
  btls_RootCaCertPath :: "string option"
  btls_CertPath :: "string option"
  btls_KeyPath :: "string option"
  btls_common :: tlsCommon

record Udp =
  udp_MaxRequests :: uint64
  udp_MaxResponses :: uint64
  udp_Transparent :: bool

record AccessConfig =
  acc_Default :: string
  acc_Rules :: "string slice"

section \<open>Discovery and healthcheck\<close>

text \<open>
  The records of \<open>DiscoveryConfig\<close> and \<open>HealthcheckConfig\<close> that depend on \<open>Kind\<close> are embedded
  pointers. Reading a promoted field of a nil one panics, so each of them is an \<open>option\<close>.
\<close>

record SrvDiscoveryConfig =
  SrvLookupServer :: string
  SrvLookupPattern :: string
  SrvDnsProtocol :: string

record JsonDiscoveryConfig =
  JsonEndpoint :: string
  JsonHostPattern :: string
  JsonPortPattern :: string
  JsonWeightPattern :: string
  JsonPriorityPattern :: string
  JsonSniPattern :: string
  JsonMaxConnectionsPattern :: string

record PlaintextDiscoveryConfig =
  PlaintextEndpoint :: string
  PlaintextRegexpPattern :: string

record DockerDiscoveryConfig =
  DockerEndpoint :: string
  DockerContainerLabel :: string
  DockerContainerPrivatePort :: goint
  DockerContainerHostEnvVar :: string
  DockerTlsEnabled :: bool
  DockerTlsCertPath :: string
  DockerTlsKeyPath :: string
  DockerTlsCacertPath :: string

record ConsulDiscoveryConfig =
  ConsulHost :: string
  ConsulServiceName :: string
  ConsulServiceTag :: string
  ConsulServicePassingOnly :: bool
  ConsulDatacenter :: string
  ConsulAuthUsername :: string
  ConsulAuthPassword :: string
  ConsulTlsEnabled :: bool
  ConsulTlsCertPath :: string
  ConsulTlsKeyPath :: string
  ConsulTlsCacertPath :: string
  ConsulAclToken :: string

record LXDDiscoveryConfig =
  LXDServerAddress :: string
  LXDServerRemoteName :: string
  LXDServerRemotePassword :: string
  LXDConfigDirectory :: string
  LXDGenerateClientCerts :: bool
  LXDAcceptServerCert :: bool
  LXDContainerLabelKey :: string
  LXDContainerLabelValue :: string
  LXDContainerPort :: goint
  LXDContainerPortKey :: string
  LXDContainerInterface :: string
  LXDContainerInterfaceKey :: string
  LXDContainerSNIKey :: string
  LXDContainerAddressType :: string

record DiscoveryConfig =
  disc_Kind :: string
  disc_Failpolicy :: string
  disc_Interval :: string
  disc_Timeout :: string
  disc_Static :: "string slice option"
  disc_Srv :: "SrvDiscoveryConfig option"
  disc_Docker :: "DockerDiscoveryConfig option"
  disc_Json :: "JsonDiscoveryConfig option"
  disc_Exec :: "string slice option"
  disc_Plaintext :: "PlaintextDiscoveryConfig option"
  disc_Consul :: "ConsulDiscoveryConfig option"
  disc_LXD :: "LXDDiscoveryConfig option"

record ProbeHealthcheckConfig =
  ProbeProtocol :: string
  ProbeStrategy :: string
  ProbeSend :: string
  ProbeRecv :: string
  ProbeRecvLen :: goint

record ExecHealthcheckConfig =
  ExecCommand :: string
  ExecExpectedPositiveOutput :: string
  ExecExpectedNegativeOutput :: string

record HealthcheckConfig =
  hc_Kind :: string
  hc_Interval :: string
  hc_Passes :: goint
  hc_Fails :: goint
  hc_Timeout :: string
  hc_ProxyProtocol :: "ProxyProtocol option"
  hc_InitialStatus :: "string option"
  hc_Exec :: "ExecHealthcheckConfig option"
  hc_Probe :: "ProbeHealthcheckConfig option"

section \<open>Servers and the whole file\<close>

record Server =
  srv_Options :: ConnectionOptions
  srv_Bind :: string
  srv_Binds :: "string slice"
  srv_BindIPs :: "string slice"
  srv_BindPorts :: "goint slice"
  srv_MatchPort :: bool
  srv_BindNameTemplate :: string
  srv_Protocol :: string
  srv_Balance :: string
  srv_Sni :: "SniConfig option"
  srv_Tls :: "Tls option"
  srv_BackendsTls :: "BackendsTls option"
  srv_Udp :: "Udp option"
  srv_Access :: "AccessConfig option"
  srv_ProxyProtocol :: "ProxyProtocol option"
  srv_Discovery :: "DiscoveryConfig option"
  srv_Healthcheck :: "HealthcheckConfig option"

record Config =
  cfg_Logging :: LoggingConfig
  cfg_Api :: ApiConfig
  cfg_Metrics :: MetricsConfig
  cfg_Defaults :: ConnectionOptions
  cfg_Acme :: "AcmeConfig option"
  cfg_Profiler :: "ProfilerConfig option"
  cfg_Servers :: "string \<rightharpoonup> Server"

end
