(* ===== verification/Balance.thy ===== *)
theory Balance
  imports Core Config
begin

text \<open>
  Package \<open>balance\<close> (src/src/balance): the six base balancers, the two middlewares that wrap
  them, and the registry that builds the stack from the configuration. Every \<open>Elect\<close> returns a
  pointer and an error: \<open>Ok (Some b)\<close> is a backend, \<open>Ok None\<close> a nil pointer with a nil error.
  \<open>math/rand\<close> is a parameter: \<open>rnd n\<close> is what \<open>rand.Intn(n)\<close> returns in this election.
\<close>

type_synonym elect_ret = "Backend option outcome"

definition empty_msg :: string where
  "empty_msg = ''Can't elect backend, Backends empty''"

section \<open>Random numbers\<close>

text \<open>\<open>rand.Intn\<close> panics when its argument is not positive.\<close>

definition Intn :: "(goint \<Rightarrow> goint) \<Rightarrow> goint \<Rightarrow> goint outcome" where
  "Intn rnd n = (if n \<le> 0 then Panic else Ok (rnd n))"

text \<open>What the documentation of \<open>rand.Intn\<close> promises.\<close>

definition intn_range :: "(goint \<Rightarrow> goint) \<Rightarrow> bool" where
  "intn_range rnd \<longleftrightarrow> (\<forall>n>0. 0 \<le> rnd n \<and> rnd n < n)"

section \<open>FNV-1a, \<open>hash/fnv\<close>\<close>

definition fnv32a_write :: "uint8 list \<Rightarrow> uint32 \<Rightarrow> uint32" where
  "fnv32a_write bs h = fold (\<lambda>b h. (h XOR ucast b) * 16777619) bs h"

definition fnv32a_init :: uint32 where
  "fnv32a_init = 2166136261"

lemma fnv32a_write_append:
  "fnv32a_write (xs @ ys) h = fnv32a_write ys (fnv32a_write xs h)"
  by (simp add: fnv32a_write_def)

section \<open>Weight\<close>

text \<open>
  The first pass of \<open>WeightBalancer.Elect\<close>: the lowest priority seen so far, the group of
  backends that have it, and the sum of the group's weights.
\<close>

type_synonym weight_acc = "goint \<times> Backend list \<times> goint"

fun weight_step :: "Backend \<Rightarrow> weight_acc \<Rightarrow> weight_acc" where
  "weight_step b (minPriority, grp, sumw) =
     (if Priority b > minPriority then (minPriority, grp, sumw)
      else if Priority b < 0 then (minPriority, grp, sumw)
      else if Weight b < 0 then (minPriority, grp, sumw)
      else if Priority b < minPriority then (Priority b, [b], wrap64 (0 + Weight b))
      else (minPriority, grp @ [b], wrap64 (sumw + Weight b)))"

fun weight_pick :: "goint \<Rightarrow> goint \<Rightarrow> Backend list \<Rightarrow> elect_ret" where
  "weight_pick r pos [] = Err ''Can't elect backend''"
| "weight_pick r pos (b # bs) =
     (let pos = wrap64 (pos + Weight b)
      in if r \<ge> pos then weight_pick r pos bs else Ok (Some b))"

definition WeightBalancer_Elect :: "(goint \<Rightarrow> goint) \<Rightarrow> Context \<Rightarrow> Backend list \<Rightarrow> elect_ret" where
  "WeightBalancer_Elect rnd ctx bs =
     (if bs = [] then Err empty_msg
      else let (minPriority, grp, groupSumWeight) =
                 fold weight_step bs (Priority (hd bs), [], 0)
           in if length grp = 1 then Ok (Some (grp ! 0))
              else if groupSumWeight = 0 then
                bind_outcome (Intn rnd (int (length grp))) (\<lambda>i. Ok (Some (grp ! nat i)))
              else bind_outcome (Intn rnd groupSumWeight) (\<lambda>r. weight_pick r 0 grp))"

section \<open>Leastconn and leastbandwidth\<close>

definition LeastconnBalancer_Elect :: "Context \<Rightarrow> Backend list \<Rightarrow> elect_ret" where
  "LeastconnBalancer_Elect ctx bs =
     (case bs of [] \<Rightarrow> Err empty_msg
      | b # _ \<Rightarrow> Ok (Some (scan_least
          (\<lambda>x least. ActiveConnections (Stats x) \<le> ActiveConnections (Stats least)) b bs)))"

definition bandwidth :: "Backend \<Rightarrow> uint64" where
  "bandwidth b = TxSecond (Stats b) + RxSecond (Stats b)"

definition LeastbandwidthBalancer_Elect :: "Context \<Rightarrow> Backend list \<Rightarrow> elect_ret" where
  "LeastbandwidthBalancer_Elect ctx bs =
     (case bs of [] \<Rightarrow> Err empty_msg
      | b # _ \<Rightarrow> Ok (Some (scan_least (\<lambda>x least. bandwidth x < bandwidth least) b bs)))"

section \<open>Roundrobin\<close>

text \<open>\<open>sort.SliceStable\<close> by \<open>Target.String()\<close>, then the position kept in \<open>current\<close>.\<close>

definition sort_backends :: "Backend list \<Rightarrow> Backend list" where
  "sort_backends bs = sort_key Backend_Address bs"

definition RoundrobinBalancer_Elect ::
    "Context \<Rightarrow> Backend list \<Rightarrow> nat \<Rightarrow> elect_ret \<times> nat" where
  "RoundrobinBalancer_Elect ctx bs current =
     (if bs = [] then (Err empty_msg, current)
      else let bs = sort_backends bs;
               current = (if current \<ge> length bs then 0 else current)
           in (Ok (Some (bs ! current)), current + 1))"

section \<open>Iphash and iphash1\<close>

text \<open>
  \<open>hash.Sum32() % uint32(len(backends))\<close>: the length is converted to 32 bits first, and the
  remainder by zero panics.
\<close>

definition IphashBalancer_Elect :: "Context \<Rightarrow> Backend list \<Rightarrow> elect_ret" where
  "IphashBalancer_Elect ctx bs =
     (if bs = [] then Err empty_msg
      else let bs = sort_backends bs;
               h = fnv32a_write (Context_Ip ctx) fnv32a_init;
               n = (of_nat (length bs) :: uint32)
           in if n = 0 then Panic else Ok (Some (bs ! unat (h mod n))))"

definition iphash1_hash :: "uint8 list \<Rightarrow> Backend \<Rightarrow> uint32" where
  "iphash1_hash ip b = fnv32a_write (string_bytes (Backend_Address b)) (fnv32a_write ip fnv32a_init)"

fun iphash1_scan :: "uint8 list \<Rightarrow> uint32 \<Rightarrow> Backend option \<Rightarrow> Backend list \<Rightarrow> Backend option" where
  "iphash1_scan ip bestHash result [] = result"
| "iphash1_scan ip bestHash result (b # bs) =
     (let s32 = iphash1_hash ip b
      in if s32 > bestHash then iphash1_scan ip s32 (Some b) bs
         else iphash1_scan ip bestHash result bs)"

definition Iphash1Balancer_Elect :: "Context \<Rightarrow> Backend list \<Rightarrow> elect_ret" where
  "Iphash1Balancer_Elect ctx bs =
     (if bs = [] then Err empty_msg else Ok (iphash1_scan (Context_Ip ctx) 0 None bs))"

section \<open>Middlewares\<close>

text \<open>
  A middleware takes the \<open>Elect\<close> of its delegate. A balancer's own state (the round-robin
  position) is passed through; type \<open>'s\<close> is that state.
\<close>

type_synonym 's elector = "(goint \<Rightarrow> goint) \<Rightarrow> 's \<Rightarrow> Context \<Rightarrow> Backend list \<Rightarrow> elect_ret \<times> 's"

definition limit_reached :: "Backend \<Rightarrow> bool" where
  "limit_reached b \<longleftrightarrow>
     MaxConnections b > 0 \<and> ActiveConnections (Stats b) \<ge> word_of_int (MaxConnections b)"

definition MaxConnectionsMiddleware_Elect :: "'s elector \<Rightarrow> 's elector" where
  "MaxConnectionsMiddleware_Elect delegate rnd s ctx bs =
     (let eligible = filter (\<lambda>b. \<not> limit_reached b) bs
      in if eligible = [] then (Err ''all backends have reached max connections limit'', s)
         else delegate rnd s ctx eligible)"

text \<open>
  \<open>regexp.Compile\<close> is a parameter: \<open>re p\<close> is \<open>None\<close> when \<open>p\<close> does not compile, otherwise the
  \<open>MatchString\<close> of the compiled expression.
\<close>

type_synonym regexp = "string \<Rightarrow> (string \<Rightarrow> bool) option"

definition matchSni :: "regexp \<Rightarrow> SniConfig \<Rightarrow> string \<Rightarrow> string \<Rightarrow> bool outcome" where
  "matchSni re conf requestedSni backendSni =
     (if sni_HostnameMatchingStrategy conf = ''regexp'' then
        (if backendSni = [] \<and> requestedSni \<noteq> [] then Ok False
         else case re backendSni of
             None \<Rightarrow> Err ''error parsing regexp''
           | Some m \<Rightarrow> Ok (m requestedSni))
      else if sni_HostnameMatchingStrategy conf = ''exact'' then
        Ok (to_lower requestedSni = to_lower backendSni)
      else Err (''Unsupported sni matching mechanism: '' @ sni_HostnameMatchingStrategy conf))"

definition matchingBackends ::
    "regexp \<Rightarrow> SniConfig \<Rightarrow> string \<Rightarrow> Backend list \<Rightarrow> Backend list" where
  "matchingBackends re conf requestedSni bs =
     filter (\<lambda>b. matchSni re conf requestedSni (Sni b) = Ok True) bs"

definition SniMiddleware_Elect :: "regexp \<Rightarrow> SniConfig \<Rightarrow> 's elector \<Rightarrow> 's elector" where
  "SniMiddleware_Elect re conf delegate rnd s ctx bs =
     (let matched = matchingBackends re conf (Context_Sni ctx) bs
      in if length matched > 0 then delegate rnd s ctx matched
         else if sni_UnexpectedHostnameStrategy conf = ''reject'' then
           (Err (''No matching sni ['' @ Context_Sni ctx @
             ''] found, rejecting due to 'reject' unexpected hostname strategy''), s)
         else if sni_UnexpectedHostnameStrategy conf = ''any'' then delegate rnd s ctx bs
         else if Context_Sni ctx = [] then delegate rnd s ctx []
         else delegate rnd s ctx (matchingBackends re conf [] bs))"

section \<open>The registry\<close>

datatype balancer_kind =
  LeastconnBalancer | RoundrobinBalancer | WeightBalancer | IphashBalancer | Iphash1Balancer
  | LeastbandwidthBalancer

definition typeRegistry :: "string \<rightharpoonup> balancer_kind" where
  "typeRegistry = map_of
     [(''leastconn'', LeastconnBalancer), (''roundrobin'', RoundrobinBalancer),
      (''weight'', WeightBalancer), (''iphash'', IphashBalancer),
      (''iphash1'', Iphash1Balancer), (''leastbandwidth'', LeastbandwidthBalancer)]"

text \<open>The dynamic dispatch of the interface call; \<open>current\<close> is read by round-robin only.\<close>

fun Base_Elect :: "balancer_kind \<Rightarrow> nat elector" where
  "Base_Elect LeastconnBalancer rnd s ctx bs = (LeastconnBalancer_Elect ctx bs, s)"
| "Base_Elect RoundrobinBalancer rnd s ctx bs = RoundrobinBalancer_Elect ctx bs s"
| "Base_Elect WeightBalancer rnd s ctx bs = (WeightBalancer_Elect rnd ctx bs, s)"
| "Base_Elect IphashBalancer rnd s ctx bs = (IphashBalancer_Elect ctx bs, s)"
| "Base_Elect Iphash1Balancer rnd s ctx bs = (Iphash1Balancer_Elect ctx bs, s)"
| "Base_Elect LeastbandwidthBalancer rnd s ctx bs = (LeastbandwidthBalancer_Elect ctx bs, s)"

record Balancer =
  bal_kind :: balancer_kind
  bal_current :: nat
  bal_SniConf :: "SniConfig option"

text \<open>\<open>balance.New\<close>: an unknown name makes \<open>reflect.New\<close> panic on a nil type.\<close>

definition Balance_New :: "SniConfig option \<Rightarrow> string \<Rightarrow> Balancer outcome" where
  "Balance_New sniConf balance =
     (case typeRegistry balance of
        None \<Rightarrow> Panic
      | Some k \<Rightarrow> Ok \<lparr>bal_kind = k, bal_current = 0, bal_SniConf = sniConf\<rparr>)"

definition Stack_Elect :: "regexp \<Rightarrow> SniConfig option \<Rightarrow> balancer_kind \<Rightarrow> nat elector" where
  "Stack_Elect re sniConf k =
     (let limited = MaxConnectionsMiddleware_Elect (Base_Elect k)
      in case sniConf of None \<Rightarrow> limited | Some conf \<Rightarrow> SniMiddleware_Elect re conf limited)"

definition Balancer_Elect ::
    "regexp \<Rightarrow> (goint \<Rightarrow> goint) \<Rightarrow> Balancer \<Rightarrow> Context \<Rightarrow> Backend list \<Rightarrow> elect_ret \<times> Balancer" where
  "Balancer_Elect re rnd b ctx bs =
     (let (r, current) = Stack_Elect re (bal_SniConf b) (bal_kind b) rnd (bal_current b) ctx bs
      in (r, b\<lparr>bal_current := current\<rparr>))"

end
