(* ===== verification/Balance_Base.thy ===== *)
theory Balance_Base
  imports Balance
begin

text \<open>
  Correctness of the six base balancers: each loop against a closed description of what it
  computes, then the promise of the strategy (proportional weights, fair rotation, least load,
  stability under removal of backends).
\<close>

section \<open>Weight\<close>

definition weight_valid :: "Backend \<Rightarrow> bool" where
  "weight_valid b \<longleftrightarrow> 0 \<le> Priority b \<and> 0 \<le> Weight b"

definition total_weight :: "Backend list \<Rightarrow> int" where
  "total_weight bs = sum_list (map Weight bs)"

text \<open>The group that the first pass is meant to compute.\<close>

definition min_priority :: "Backend list \<Rightarrow> int" where
  "min_priority bs = Min (Priority ` set bs)"

definition priority_group :: "Backend list \<Rightarrow> Backend list" where
  "priority_group bs = filter (\<lambda>b. Priority b = min_priority bs) bs"

lemma total_weight_simps [simp]:
  "total_weight [] = 0"
  "total_weight (b # bs) = Weight b + total_weight bs"
  "total_weight (xs @ ys) = total_weight xs + total_weight ys"
  by (simp_all add: total_weight_def)

lemma total_weight_nonneg: "\<forall>b\<in>set bs. 0 \<le> Weight b \<Longrightarrow> 0 \<le> total_weight bs"
  by (induction bs) auto

lemma total_weight_filter_le:
  "\<forall>b\<in>set bs. 0 \<le> Weight b \<Longrightarrow> total_weight (filter P bs) \<le> total_weight bs"
  by (induction bs) auto

lemma total_weight_member:
  "\<forall>b\<in>set bs. 0 \<le> Weight b \<Longrightarrow> x \<in> set bs \<Longrightarrow> Weight x \<le> total_weight bs"
  by (induction bs) (use total_weight_nonneg in force)+

lemma weight_fold_subset:
  "set (fst (snd (fold weight_step bs (m, g, s)))) \<subseteq> set g \<union> set bs"
proof (induction bs arbitrary: m g s)
  case (Cons b bs)
  obtain m' g' s' where eq: "weight_step b (m, g, s) = (m', g', s')" by (metis prod_cases3)
  then have "set g' \<subseteq> insert b (set g)" by (auto split: if_splits)
  with Cons.IH [of m' g' s'] show ?case unfolding fold_Cons comp_def eq by auto
qed simp

lemma weight_fold:
  assumes "\<forall>b\<in>set bs. weight_valid b" and "\<forall>b\<in>set g. weight_valid b"
    and "total_weight g + total_weight bs < 2 ^ 63"
  shows "fold weight_step bs (m, g, total_weight g) =
    (let m' = Min (insert m (Priority ` set bs));
         g' = (if m' < m then [] else g) @ filter (\<lambda>b. Priority b = m') bs
     in (m', g', total_weight g'))"
  using assms
proof (induction bs arbitrary: m g)
  case Nil
  then show ?case by simp
next
  case (Cons b bs)
  have nn: "0 \<le> total_weight bs" "0 \<le> total_weight g" "0 \<le> Weight b" "0 \<le> Priority b"
    using Cons.prems by (auto intro!: total_weight_nonneg simp: weight_valid_def)
  have w: "wrap64 (total_weight g + Weight b) = total_weight (g @ [b])"
    "wrap64 (0 + Weight b) = total_weight [b]"
    using Cons.prems(3) nn by (simp_all add: wrap64_nonneg)
  consider "Priority b > m" | "Priority b < m" | "Priority b = m" by linarith
  then show ?case
  proof cases
    case 1
    have le: "Min (insert m (Priority ` set bs)) \<le> m" by simp
    have "Min (insert m (Priority ` set (b # bs))) = Min (insert m (Priority ` set bs))"
      using Min_insert_absorb [of "insert m (Priority ` set bs)" m "Priority b"] 1
      by (simp add: insert_commute)
    then show ?thesis using 1 Cons.IH [of g m] Cons.prems nn
      by (auto simp: Let_def)
  next
    case 2
    define M where "M = Min (insert (Priority b) (Priority ` set bs))"
    have M: "Min (insert m (Priority ` set (b # bs))) = M" and le: "M \<le> Priority b"
      unfolding M_def using 2
        Min_insert_absorb [of "insert (Priority b) (Priority ` set bs)" "Priority b" m] by auto
    have "fold weight_step (b # bs) (m, g, total_weight g) =
        fold weight_step bs (Priority b, [b], total_weight [b])"
      using 2 nn w by simp
    also have "\<dots> = (let g' = (if M < Priority b then [] else [b]) @ filter (\<lambda>b. Priority b = M) bs
     in (M, g', total_weight g'))"
      using Cons.IH [of "[b]" "Priority b"] Cons.prems nn by (simp add: M_def Let_def)
    also have "\<dots> = (let g' = (if M < m then [] else g) @ filter (\<lambda>b. Priority b = M) (b # bs)
     in (M, g', total_weight g'))"
      using 2 le by (auto simp: Let_def)
    finally show ?thesis unfolding M Let_def .
  next
    case 3
    define M where "M = Min (insert m (Priority ` set bs))"
    have M: "Min (insert m (Priority ` set (b # bs))) = M" and le: "M \<le> m"
      unfolding M_def using 3 by auto
    have "fold weight_step (b # bs) (m, g, total_weight g) =
        fold weight_step bs (m, g @ [b], total_weight (g @ [b]))"
      using 3 nn w by simp
    also have "\<dots> = (let g' = (if M < m then [] else g @ [b]) @ filter (\<lambda>b. Priority b = M) bs
     in (M, g', total_weight g'))"
      using Cons.IH [of "g @ [b]" m] Cons.prems nn by (simp add: M_def Let_def)
    also have "\<dots> = (let g' = (if M < m then [] else g) @ filter (\<lambda>b. Priority b = M) (b # bs)
     in (M, g', total_weight g'))"
      using 3 le by (auto simp: Let_def)
    finally show ?thesis unfolding M Let_def .
  qed
qed

lemma weight_fold_init:
  assumes "bs \<noteq> []" and "\<forall>b\<in>set bs. weight_valid b" and "total_weight bs < 2 ^ 63"
  shows "fold weight_step bs (Priority (hd bs), [], 0) =
    (min_priority bs, priority_group bs, total_weight (priority_group bs))"
proof -
  have "insert (Priority (hd bs)) (Priority ` set bs) = Priority ` set bs"
    using assms(1) by auto
  then show ?thesis
    using weight_fold [of bs "[]" "Priority (hd bs)"] assms
    by (simp add: min_priority_def priority_group_def)
qed

lemma priority_group_nonempty: "bs \<noteq> [] \<Longrightarrow> priority_group bs \<noteq> []"
proof -
  assume "bs \<noteq> []"
  then have "min_priority bs \<in> Priority ` set bs" by (simp add: min_priority_def)
  then show ?thesis by (auto simp: priority_group_def filter_empty_conv)
qed

lemma priority_group_valid:
  "\<forall>b\<in>set bs. weight_valid b \<Longrightarrow> \<forall>b\<in>set (priority_group bs). 0 \<le> Weight b"
  by (auto simp: priority_group_def weight_valid_def)

lemma weight_pick_mem: "weight_pick r pos bs = Ok (Some b) \<Longrightarrow> b \<in> set bs"
  by (induction bs arbitrary: pos) (auto simp: Let_def split: if_splits)

text \<open>A number drawn below the remaining weight always selects a backend of positive weight.\<close>

lemma weight_pick_some:
  assumes "\<forall>b\<in>set bs. 0 \<le> Weight b" and "0 \<le> pos" and "pos + total_weight bs < 2 ^ 63"
    and "pos \<le> r" and "r < pos + total_weight bs"
  shows "\<exists>b\<in>set bs. weight_pick r pos bs = Ok (Some b) \<and> 0 < Weight b"
  using assms
proof (induction bs arbitrary: pos)
  case (Cons b bs)
  have "0 \<le> total_weight bs" using Cons.prems by (intro total_weight_nonneg) auto
  then have w: "wrap64 (pos + Weight b) = pos + Weight b"
    using Cons.prems by (intro wrap64_nonneg) auto
  show ?case
  proof (cases "r \<ge> pos + Weight b")
    case True
    then show ?thesis using Cons.IH [of "pos + Weight b"] Cons.prems w by (auto simp: Let_def)
  next
    case False
    then show ?thesis using Cons.prems w by (auto simp: Let_def)
  qed
qed simp

lemma weight_pick_count:
  assumes "\<forall>b\<in>set bs. 0 \<le> Weight b" and "0 \<le> pos" and "pos + total_weight bs < 2 ^ 63"
    and "distinct bs" and "x \<in> set bs"
  shows "card {r. pos \<le> r \<and> r < pos + total_weight bs \<and> weight_pick r pos bs = Ok (Some x)} =
    nat (Weight x)"
  using assms
proof (induction bs arbitrary: pos)
  case (Cons b bs)
  let ?p = "pos + Weight b"
  have nn: "0 \<le> total_weight bs" "0 \<le> Weight b"
    using Cons.prems by (auto intro: total_weight_nonneg)
  then have w: "wrap64 (pos + Weight b) = ?p" using Cons.prems by (intro wrap64_nonneg) auto
  let ?R = "{r. ?p \<le> r \<and> r < ?p + total_weight bs \<and> weight_pick r ?p bs = Ok (Some x)}"
  have split: "{r. pos \<le> r \<and> r < pos + total_weight (b # bs) \<and> weight_pick r pos (b # bs) = Ok (Some x)}
      = (if b = x then {pos..<?p} else {}) \<union> ?R"
    using nn w by (auto simp: Let_def)
  show ?case
  proof (cases "b = x")
    case True
    then have "x \<notin> set bs" using Cons.prems by auto
    then have "?R = {}" by (auto dest: weight_pick_mem)
    then show ?thesis unfolding split using True nn by (simp only: if_True Un_empty_right) simp
  next
    case False
    then show ?thesis unfolding split using Cons.IH [of ?p] Cons.prems nn by auto
  qed
qed simp

lemma weight_elect_mem:
  assumes "intn_range rnd" and "WeightBalancer_Elect rnd ctx bs = Ok (Some b)"
  shows "b \<in> set bs"
proof -
  obtain m g s where f: "fold weight_step bs (Priority (hd bs), [], 0) = (m, g, s)"
    by (metis prod_cases3)
  have sub: "set g \<subseteq> set bs" using weight_fold_subset [of bs "Priority (hd bs)" "[]" 0] f by simp
  have bs: "bs \<noteq> []" using assms(2) by (auto simp: WeightBalancer_Elect_def)
  consider "length g = 1" | "length g \<noteq> 1" "s = 0" | "length g \<noteq> 1" "s \<noteq> 0" by blast
  then have "b \<in> set g"
  proof cases
    case 1
    then show ?thesis using assms(2) bs f by (auto simp: WeightBalancer_Elect_def)
  next
    case 2
    then have "g \<noteq> [] \<and> b = g ! nat (rnd (int (length g)))"
      using assms(2) bs f by (auto simp: WeightBalancer_Elect_def Intn_def split: if_splits)
    moreover have "g \<noteq> [] \<Longrightarrow> nat (rnd (int (length g))) < length g"
      using assms(1) by (auto simp: intn_range_def)
        (metis length_greater_0_conv nat_less_iff of_nat_0_less_iff)
    ultimately show ?thesis by auto
  next
    case 3
    then show ?thesis using assms(2) bs f
      by (auto simp: WeightBalancer_Elect_def Intn_def split: if_splits dest: weight_pick_mem)
  qed
  then show ?thesis using sub by blast
qed

lemma weight_elect_ready:
  assumes "intn_range rnd" and "bs \<noteq> []" and "\<forall>b\<in>set bs. weight_valid b"
    and "total_weight bs < 2 ^ 63"
  shows "\<exists>b\<in>set (priority_group bs). WeightBalancer_Elect rnd ctx bs = Ok (Some b) \<and>
    (total_weight (priority_group bs) > 0 \<longrightarrow> Weight b > 0)"
proof -
  let ?g = "priority_group bs"
  note fold = weight_fold_init [OF assms(2-4)]
  have g: "?g \<noteq> []" using assms(2) by (rule priority_group_nonempty)
  have nn: "\<forall>b\<in>set ?g. 0 \<le> Weight b" using assms(3) by (rule priority_group_valid)
  have le: "total_weight ?g < 2 ^ 63"
  proof -
    have "total_weight ?g \<le> total_weight bs"
      unfolding priority_group_def using assms(3)
      by (intro total_weight_filter_le) (auto simp: weight_valid_def)
    then show ?thesis using assms(4) by simp
  qed
  consider "length ?g = 1" | "length ?g \<noteq> 1" "total_weight ?g = 0"
    | "length ?g \<noteq> 1" "total_weight ?g > 0"
    using total_weight_nonneg [OF nn] by fastforce
  then show ?thesis
  proof cases
    case 1
    then obtain x where "?g = [x]" by (auto simp: length_Suc_conv)
    then show ?thesis using assms(2) fold by (auto simp: WeightBalancer_Elect_def)
  next
    case 2
    have "nat (rnd (int (length ?g))) < length ?g"
      using assms(1) g by (auto simp: intn_range_def)
        (metis length_greater_0_conv nat_less_iff of_nat_0_less_iff)
    then show ?thesis using 2 assms(2) fold g by (auto simp: WeightBalancer_Elect_def Intn_def)
  next
    case 3
    have "\<exists>b\<in>set ?g. weight_pick (rnd (total_weight ?g)) 0 ?g = Ok (Some b) \<and> 0 < Weight b"
      using assms(1) 3 nn le by (intro weight_pick_some) (auto simp: intn_range_def)
    then show ?thesis using 3 assms(2) fold by (auto simp: WeightBalancer_Elect_def Intn_def)
  qed
qed

section \<open>Least loaded\<close>

lemma leastconn_spec:
  assumes "bs \<noteq> []"
  shows "\<exists>b\<in>set bs. LeastconnBalancer_Elect ctx bs = Ok (Some b) \<and>
    (\<forall>x\<in>set bs. ActiveConnections (Stats b) \<le> ActiveConnections (Stats x))"
proof -
  let ?le = "\<lambda>x least. ActiveConnections (Stats x) \<le> ActiveConnections (Stats least)"
  obtain b bs' where bs: "bs = b # bs'" using assms by (cases bs) auto
  show ?thesis
    using scan_least_in [of ?le b bs]
      scan_least_le_min [of ?le "\<lambda>x. ActiveConnections (Stats x)" b bs] bs
    by (auto simp: LeastconnBalancer_Elect_def)
qed

lemma leastbandwidth_spec:
  assumes "bs \<noteq> []"
  shows "\<exists>b\<in>set bs. LeastbandwidthBalancer_Elect ctx bs = Ok (Some b) \<and>
    (\<forall>x\<in>set bs. bandwidth b \<le> bandwidth x)"
proof -
  let ?less = "\<lambda>x least. bandwidth x < bandwidth least"
  obtain b bs' where bs: "bs = b # bs'" using assms by (cases bs) auto
  show ?thesis
    using scan_least_in [of ?less b bs] scan_least_less_min [of ?less bandwidth b bs] bs
    by (auto simp: LeastbandwidthBalancer_Elect_def)
qed

section \<open>Roundrobin\<close>

lemma sort_backends_props [simp]:
  "set (sort_backends bs) = set bs" "length (sort_backends bs) = length bs"
  "mset (sort_backends bs) = mset bs" "sort_backends bs = [] \<longleftrightarrow> bs = []"
  by (simp_all add: sort_backends_def) (metis length_0_conv length_sort)

lemma sort_backends_perm:
  "mset xs = mset ys \<Longrightarrow> inj_on Backend_Address (set xs) \<Longrightarrow> sort_backends xs = sort_backends ys"
  unfolding sort_backends_def by (rule sort_key_perm_eq)

text \<open>
  A run of elections, each on the backends in the order the scheduler's map iteration happened
  to give.
\<close>

fun rr_elections :: "(Context \<times> Backend list) list \<Rightarrow> nat \<Rightarrow> elect_ret list" where
  "rr_elections [] current = []"
| "rr_elections ((ctx, bs) # reqs) current =
     (let (r, current) = RoundrobinBalancer_Elect ctx bs current in r # rr_elections reqs current)"

lemma rr_elections_nth:
  assumes "bs \<noteq> []" and "inj_on Backend_Address (set bs)"
    and "\<forall>(ctx, bs')\<in>set reqs. mset bs' = mset bs" and "current \<le> length bs"
  shows "rr_elections reqs current =
    map (\<lambda>i. Ok (Some (sort_backends bs ! ((current + i) mod length bs)))) [0..<length reqs]"
  using assms(3,4)
proof (induction reqs arbitrary: current)
  case (Cons req reqs)
  obtain ctx bs' where req: "req = (ctx, bs')" by force
  let ?n = "length bs"
  let ?c = "if current = ?n then 0 else current"
  have bs': "mset bs' = mset bs" using Cons.prems(1) req by simp
  then have "length bs' = ?n" "bs' \<noteq> []" using assms(1) by (metis size_mset, auto)
  moreover have "sort_backends bs' = sort_backends bs"
    using sort_backends_perm [of bs bs'] bs' assms(2) by simp
  ultimately have step: "RoundrobinBalancer_Elect ctx bs' current =
      (Ok (Some (sort_backends bs ! ?c)), ?c + 1)"
    using Cons.prems(2) by (auto simp: RoundrobinBalancer_Elect_def Let_def)
  have c: "?c < ?n" "?c = current mod ?n" using Cons.prems(2) assms(1) by auto
  have IH: "rr_elections reqs (?c + 1) =
      map (\<lambda>i. Ok (Some (sort_backends bs ! ((?c + 1 + i) mod ?n)))) [0..<length reqs]"
    using Cons.prems(1) c by (intro Cons.IH) auto
  have "(?c + 1 + i) mod ?n = (current + Suc i) mod ?n" for i
    using mod_add_left_eq [of current ?n "Suc i"] c(2) by simp
  then have "rr_elections (req # reqs) current = Ok (Some (sort_backends bs ! (current mod ?n))) #
      map (\<lambda>i. Ok (Some (sort_backends bs ! ((current + Suc i) mod ?n)))) [0..<length reqs]"
    using req step IH c(2) by simp
  then show ?case by (simp add: upt_conv_Cons map_Suc_upt [symmetric] del: upt_Suc)
qed simp

lemma rr_full_round:
  assumes "bs \<noteq> []" and "inj_on Backend_Address (set bs)"
    and "\<forall>(ctx, bs')\<in>set reqs. mset bs' = mset bs" and "current \<le> length bs"
    and "length reqs = length bs"
  shows "mset (rr_elections reqs current) = mset (map (\<lambda>b. Ok (Some b)) bs)"
proof -
  let ?s = "sort_backends bs"
  have "map (\<lambda>i. ?s ! ((current + i) mod length bs)) [0..<length bs] = rotate current ?s"
    by (rule nth_equalityI) (auto simp: nth_rotate)
  moreover have "rr_elections reqs current =
      map (\<lambda>b. Ok (Some b)) (map (\<lambda>i. ?s ! ((current + i) mod length bs)) [0..<length bs])"
    using rr_elections_nth [OF assms(1-4)] assms(5) by simp
  ultimately have "rr_elections reqs current = map (\<lambda>b. Ok (Some b)) (rotate current ?s)"
    by simp
  moreover have "mset (rotate current ?s) = mset ?s"
    by (metis add.commute append_take_drop_id mset_append rotate_drop_take)
  ultimately show ?thesis by simp
qed

lemma roundrobin_mem:
  "fst (RoundrobinBalancer_Elect ctx bs current) = Ok (Some b) \<Longrightarrow> b \<in> set bs"
  by (auto simp: RoundrobinBalancer_Elect_def Let_def split: if_splits)
    (metis length_greater_0_conv nth_mem sort_backends_props(1,2), metis not_less nth_mem sort_backends_props(1,2))

lemma roundrobin_ready:
  "bs \<noteq> [] \<Longrightarrow> \<exists>b. fst (RoundrobinBalancer_Elect ctx bs current) = Ok (Some b)"
  by (simp add: RoundrobinBalancer_Elect_def Let_def)

section \<open>Iphash\<close>

lemma iphash_elect:
  assumes "bs \<noteq> []" and "length bs < 2 ^ 32"
  shows "IphashBalancer_Elect ctx bs = Ok (Some (sort_backends bs !
      (unat (fnv32a_write (Context_Ip ctx) fnv32a_init) mod length bs)))"
proof -
  let ?n = "of_nat (length bs) :: uint32"
  have u: "unat ?n = length bs" using assms(2) by (simp add: unat_of_nat take_bit_nat_eq_self)
  then have "?n \<noteq> 0" using assms(1) by (metis length_0_conv unat_0)
  then show ?thesis using assms(1) u by (simp add: IphashBalancer_Elect_def Let_def unat_mod)
qed

lemma iphash_mem: "IphashBalancer_Elect ctx bs = Ok (Some b) \<Longrightarrow> b \<in> set bs"
proof -
  assume h: "IphashBalancer_Elect ctx bs = Ok (Some b)"
  let ?n = "of_nat (length bs) :: uint32"
  let ?h = "fnv32a_write (Context_Ip ctx) fnv32a_init"
  have n: "?n \<noteq> 0" and b: "b = sort_backends bs ! unat (?h mod ?n)"
    using h by (auto simp: IphashBalancer_Elect_def Let_def split: if_splits)
  have "unat (?h mod ?n) < unat ?n" using n by (simp add: unat_mod unat_gt_0)
  also have "\<dots> \<le> length bs" by (simp add: unat_of_nat take_bit_nat_less_eq_self)
  finally show ?thesis using b by (metis nth_mem sort_backends_props(1,2))
qed

section \<open>Iphash1\<close>

lemma iphash1_scan_spec:
  "(iphash1_scan ip h r bs = r \<and> (\<forall>b\<in>set bs. iphash1_hash ip b \<le> h)) \<or>
   (\<exists>b\<in>set bs. iphash1_scan ip h r bs = Some b \<and> h < iphash1_hash ip b \<and>
     (\<forall>x\<in>set bs. iphash1_hash ip x \<le> iphash1_hash ip b))"
proof (induction bs arbitrary: h r)
  case (Cons b bs)
  show ?case
  proof (cases "iphash1_hash ip b > h")
    case True
    then show ?thesis using Cons.IH [of "iphash1_hash ip b" "Some b"]
      by (auto simp: Let_def)
  next
    case False
    then show ?thesis using Cons.IH [of h r] by (auto simp: Let_def)
  qed
qed simp

lemma iphash1_elect_cases:
  assumes "bs \<noteq> []"
  shows "(Iphash1Balancer_Elect ctx bs = Ok None \<and> (\<forall>b\<in>set bs. iphash1_hash (Context_Ip ctx) b = 0)) \<or>
   (\<exists>b\<in>set bs. Iphash1Balancer_Elect ctx bs = Ok (Some b) \<and> iphash1_hash (Context_Ip ctx) b \<noteq> 0 \<and>
     (\<forall>x\<in>set bs. iphash1_hash (Context_Ip ctx) x \<le> iphash1_hash (Context_Ip ctx) b))"
  using assms iphash1_scan_spec [of "Context_Ip ctx" 0 None bs]
  by (auto simp: Iphash1Balancer_Elect_def word_gt_0)

lemma iphash1_elect_max:
  assumes "Iphash1Balancer_Elect ctx bs = Ok (Some b)"
  shows "b \<in> set bs \<and> iphash1_hash (Context_Ip ctx) b \<noteq> 0 \<and>
    (\<forall>x\<in>set bs. iphash1_hash (Context_Ip ctx) x \<le> iphash1_hash (Context_Ip ctx) b)"
proof -
  have "bs \<noteq> []" using assms by (auto simp: Iphash1Balancer_Elect_def)
  from iphash1_elect_cases [OF this, of ctx] show ?thesis using assms by auto
qed

lemma iphash1_subset_stable:
  assumes "Iphash1Balancer_Elect ctx bs = Ok (Some b)"
    and "inj_on (iphash1_hash (Context_Ip ctx)) (set bs)"
    and "set bs' \<subseteq> set bs" and "b \<in> set bs'"
  shows "Iphash1Balancer_Elect ctx bs' = Ok (Some b)"
proof -
  let ?h = "iphash1_hash (Context_Ip ctx)"
  have b: "b \<in> set bs" "?h b \<noteq> 0" "\<And>x. x \<in> set bs \<Longrightarrow> ?h x \<le> ?h b"
    using iphash1_elect_max [OF assms(1)] by auto
  have "bs' \<noteq> []" using assms(4) by auto
  from iphash1_elect_cases [OF this, of ctx] b(2) assms(4)
  obtain c where c: "c \<in> set bs'" "Iphash1Balancer_Elect ctx bs' = Ok (Some c)" "?h b \<le> ?h c"
    by auto
  then have "?h c = ?h b" using b(3) assms(3) by (meson antisym subsetD)
  then have "c = b" using assms(2,3) c(1) b(1) by (meson inj_onD subsetD)
  then show ?thesis using c(2) by simp
qed

end
