(* ===== verification/Balance_Contract.thy ===== *)
theory Balance_Contract
  imports Balance_Base
begin

text \<open>
  The interface \<open>core.Balancer\<close> as a locale: what the scheduler may rely on, whichever balancer
  is configured. The laws of the two middlewares are proved once for an arbitrary delegate; the
  interpretations discharge the laws for the six base balancers and for the stack that
  \<open>balance.New\<close> builds.
\<close>

section \<open>The interface\<close>

locale balancer =
  fixes Elect :: "'s elector"
  assumes elect_empty: "\<exists>e. Elect rnd s ctx [] = (Err e, s)"
    and elect_mem: "intn_range rnd \<Longrightarrow> fst (Elect rnd s ctx bs) = Ok (Some b) \<Longrightarrow> b \<in> set bs"
begin

lemma maxconn_elected:
  assumes "intn_range rnd" and "fst (MaxConnectionsMiddleware_Elect Elect rnd s ctx bs) = Ok (Some b)"
  shows "b \<in> set bs \<and> \<not> limit_reached b"
  using assms elect_mem [of rnd s ctx "filter (\<lambda>b. \<not> limit_reached b) bs" b]
  by (auto simp: MaxConnectionsMiddleware_Elect_def Let_def split: if_splits)

lemma maxconn_empty:
  "(\<forall>b\<in>set bs. limit_reached b) \<Longrightarrow> \<exists>e. MaxConnectionsMiddleware_Elect Elect rnd s ctx bs = (Err e, s)"
  by (auto simp: MaxConnectionsMiddleware_Elect_def Let_def filter_empty_conv)

lemma maxconn_balancer: "balancer (MaxConnectionsMiddleware_Elect Elect)"
  by unfold_locales (use maxconn_empty [of "[]"] maxconn_elected in auto)

lemma sni_elected:
  assumes "intn_range rnd" and "fst (SniMiddleware_Elect re conf Elect rnd s ctx bs) = Ok (Some b)"
  shows "b \<in> set bs \<and> (matchSni re conf (Context_Sni ctx) (Sni b) = Ok True \<or>
    matchingBackends re conf (Context_Sni ctx) bs = [] \<and>
    sni_UnexpectedHostnameStrategy conf \<noteq> ''reject'' \<and>
    (sni_UnexpectedHostnameStrategy conf = ''any'' \<or>
     Context_Sni ctx \<noteq> [] \<and> matchSni re conf [] (Sni b) = Ok True))"
proof -
  let ?m = "matchingBackends re conf (Context_Sni ctx) bs"
  show ?thesis
  proof (cases "?m = []")
    case False
    then have "fst (Elect rnd s ctx ?m) = Ok (Some b)"
      using assms(2) by (simp add: SniMiddleware_Elect_def Let_def)
    from elect_mem [OF assms(1) this] show ?thesis by (auto simp: matchingBackends_def)
  next
    case True
    obtain e where e: "Elect rnd s ctx [] = (Err e, s)" using elect_empty by blast
    consider (any) "sni_UnexpectedHostnameStrategy conf = ''any''" "fst (Elect rnd s ctx bs) = Ok (Some b)"
      | (default) "sni_UnexpectedHostnameStrategy conf \<noteq> ''reject''" "Context_Sni ctx \<noteq> []"
        "fst (Elect rnd s ctx (matchingBackends re conf [] bs)) = Ok (Some b)"
      using assms(2) True e by (auto simp: SniMiddleware_Elect_def Let_def split: if_splits)
    then show ?thesis
    proof cases
      case any
      then show ?thesis using elect_mem [OF assms(1) any(2)] True by auto
    next
      case default
      then show ?thesis using elect_mem [OF assms(1) default(3)] True
        by (auto simp: matchingBackends_def)
    qed
  qed
qed

lemma sni_balancer: "balancer (SniMiddleware_Elect re conf Elect)"
proof
  fix rnd and s :: 's and ctx
  obtain e where "Elect rnd s ctx [] = (Err e, s)" using elect_empty by blast
  then show "\<exists>e. SniMiddleware_Elect re conf Elect rnd s ctx [] = (Err e, s)"
    by (auto simp: SniMiddleware_Elect_def matchingBackends_def Let_def)
qed (use sni_elected in blast)

end

text \<open>
  A balancer that does elect when it can: \<open>ready\<close> is what it needs of the candidates. Dropping
  candidates keeps them ready, so the middlewares keep the promise.
\<close>

locale available_balancer = balancer +
  fixes ready :: "Context \<Rightarrow> Backend list \<Rightarrow> bool"
  assumes elect_ready: "intn_range rnd \<Longrightarrow> ready ctx bs \<Longrightarrow> bs \<noteq> [] \<Longrightarrow>
      \<exists>b. fst (Elect rnd s ctx bs) = Ok (Some b)"
    and ready_filter: "ready ctx bs \<Longrightarrow> ready ctx (filter P bs)"
begin

lemma maxconn_available:
  assumes "intn_range rnd" and "ready ctx bs" and "x \<in> set bs" and "\<not> limit_reached x"
  shows "\<exists>b. fst (MaxConnectionsMiddleware_Elect Elect rnd s ctx bs) = Ok (Some b)"
proof -
  have "filter (\<lambda>b. \<not> limit_reached b) bs \<noteq> []" using assms(3,4) by (auto simp: filter_empty_conv)
  with elect_ready [OF assms(1) ready_filter [OF assms(2)] this] show ?thesis
    by (simp add: MaxConnectionsMiddleware_Elect_def Let_def)
qed

lemma sni_match_available:
  assumes "intn_range rnd" and "ready ctx bs" and "x \<in> set bs"
    and "matchSni re conf (Context_Sni ctx) (Sni x) = Ok True"
  shows "\<exists>b. fst (SniMiddleware_Elect re conf Elect rnd s ctx bs) = Ok (Some b)"
proof -
  have "matchingBackends re conf (Context_Sni ctx) bs \<noteq> []"
    using assms(3,4) by (auto simp: matchingBackends_def filter_empty_conv)
  with elect_ready [OF assms(1) ready_filter [OF assms(2)]] show ?thesis
    by (simp add: SniMiddleware_Elect_def matchingBackends_def Let_def)
qed

end

section \<open>The base balancers\<close>

fun base_ready :: "balancer_kind \<Rightarrow> Context \<Rightarrow> Backend list \<Rightarrow> bool" where
  "base_ready WeightBalancer ctx bs \<longleftrightarrow>
     (\<forall>b\<in>set bs. weight_valid b) \<and> total_weight bs < 2 ^ 63"
| "base_ready IphashBalancer ctx bs \<longleftrightarrow> length bs < 2 ^ 32"
| "base_ready Iphash1Balancer ctx bs \<longleftrightarrow> (\<forall>b\<in>set bs. iphash1_hash (Context_Ip ctx) b \<noteq> 0)"
| "base_ready k ctx bs \<longleftrightarrow> True"

lemma Base_Elect_empty: "\<exists>e. Base_Elect k rnd s ctx [] = (Err e, s)"
  by (cases k) (simp_all add: LeastconnBalancer_Elect_def RoundrobinBalancer_Elect_def
      WeightBalancer_Elect_def IphashBalancer_Elect_def Iphash1Balancer_Elect_def
      LeastbandwidthBalancer_Elect_def)

lemma Base_Elect_mem:
  assumes "intn_range rnd" and "fst (Base_Elect k rnd s ctx bs) = Ok (Some b)"
  shows "b \<in> set bs"
proof -
  have "bs \<noteq> []" using assms(2) Base_Elect_empty [of k rnd s ctx] by auto
  then show ?thesis
    using assms leastconn_spec [of bs ctx] leastbandwidth_spec [of bs ctx]
    by (cases k) (auto dest: weight_elect_mem roundrobin_mem iphash_mem iphash1_elect_max)
qed

lemma Base_Elect_ready:
  assumes "intn_range rnd" and "base_ready k ctx bs" and "bs \<noteq> []"
  shows "\<exists>b. fst (Base_Elect k rnd s ctx bs) = Ok (Some b)"
  using assms leastconn_spec [of bs ctx] leastbandwidth_spec [of bs ctx]
    weight_elect_ready [of rnd bs ctx] roundrobin_ready [of bs ctx s] iphash_elect [of bs ctx]
    iphash1_elect_cases [of bs ctx]
  by (cases k) auto

lemma base_ready_filter: "base_ready k ctx bs \<Longrightarrow> base_ready k ctx (filter P bs)"
proof (cases k)
  case WeightBalancer
  assume "base_ready k ctx bs"
  then show ?thesis using WeightBalancer total_weight_filter_le [of bs P]
    by (auto simp: weight_valid_def)
next
  case IphashBalancer
  assume "base_ready k ctx bs"
  then show ?thesis using IphashBalancer le_less_trans [OF length_filter_le [of P bs]] by auto
qed auto

interpretation base: available_balancer "Base_Elect k" "base_ready k" for k
  by unfold_locales
    (auto intro: Base_Elect_empty Base_Elect_ready base_ready_filter dest: Base_Elect_mem)

section \<open>The stack\<close>

interpretation limited: balancer "MaxConnectionsMiddleware_Elect (Base_Elect k)" for k
  by (rule base.maxconn_balancer)

lemma Stack_Elect_balancer: "balancer (Stack_Elect re sniConf k)"
  unfolding Stack_Elect_def Let_def
  using limited.balancer_axioms [of k] limited.sni_balancer [of re _ k] by (cases sniConf) simp_all

interpretation stack: balancer "Stack_Elect re sniConf k" for re sniConf k
  by (rule Stack_Elect_balancer)

text \<open>What SNI routing allows: the rule of the configured strategies.\<close>

definition sni_routed :: "regexp \<Rightarrow> SniConfig \<Rightarrow> Context \<Rightarrow> Backend list \<Rightarrow> Backend \<Rightarrow> bool" where
  "sni_routed re conf ctx bs b \<longleftrightarrow>
     matchSni re conf (Context_Sni ctx) (Sni b) = Ok True \<or>
     matchingBackends re conf (Context_Sni ctx) bs = [] \<and>
     sni_UnexpectedHostnameStrategy conf \<noteq> ''reject'' \<and>
     (sni_UnexpectedHostnameStrategy conf = ''any'' \<or>
      Context_Sni ctx \<noteq> [] \<and> matchSni re conf [] (Sni b) = Ok True)"

lemma stack_elected:
  assumes "intn_range rnd" and "fst (Stack_Elect re sniConf k rnd s ctx bs) = Ok (Some b)"
  shows "b \<in> set bs \<and> \<not> limit_reached b \<and>
    (\<forall>conf. sniConf = Some conf \<longrightarrow> sni_routed re conf ctx bs b)"
proof (cases sniConf)
  case None
  then show ?thesis using assms base.maxconn_elected by (auto simp: Stack_Elect_def)
next
  case (Some conf)
  let ?M = "MaxConnectionsMiddleware_Elect (Base_Elect k)"
  have e: "fst (SniMiddleware_Elect re conf ?M rnd s ctx bs) = Ok (Some b)"
    using assms(2) Some by (simp add: Stack_Elect_def)
  then obtain cs where "fst (?M rnd s ctx cs) = Ok (Some b)"
    by (auto simp: SniMiddleware_Elect_def Let_def split: if_splits)
  then have "\<not> limit_reached b" using base.maxconn_elected [OF assms(1)] by blast
  then show ?thesis using limited.sni_elected [OF assms(1) e] Some by (auto simp: sni_routed_def)
qed

lemma Balancer_Elect_eq:
  "fst (Balancer_Elect re rnd b ctx bs) =
   fst (Stack_Elect re (bal_SniConf b) (bal_kind b) rnd (bal_current b) ctx bs)"
  by (simp add: Balancer_Elect_def split: prod.split)

end
