(* ===== verification/Samples.thy ===== *)
theory Samples
  imports Core Config
begin

text \<open>
  Concrete targets, backends, contexts and configurations: the inputs on which the witnesses of
  the properties are evaluated.
\<close>

definition sample_target :: "string \<Rightarrow> Target" where
  "sample_target h = \<lparr>Host = h, Port = ''80''\<rparr>"

definition sample_backend :: "string \<Rightarrow> goint \<Rightarrow> goint \<Rightarrow> goint \<Rightarrow> uint64 \<Rightarrow> Backend" where
  "sample_backend h p w mx act = \<lparr>Target = sample_target h, Priority = p, Weight = w,
     MaxConnections = mx, Sni = [], Stats = zero_stats\<lparr>ActiveConnections := act\<rparr>\<rparr>"

lemma sample_backend_simps [simp]:
  "Target (sample_backend h p w mx act) = sample_target h"
  "Priority (sample_backend h p w mx act) = p"
  "Weight (sample_backend h p w mx act) = w"
  "MaxConnections (sample_backend h p w mx act) = mx"
  "Sni (sample_backend h p w mx act) = []"
  "ActiveConnections (Stats (sample_backend h p w mx act)) = act"
  "TxSecond (Stats (sample_backend h p w mx act)) = 0"
  "RxSecond (Stats (sample_backend h p w mx act)) = 0"
  "Discovered (Stats (sample_backend h p w mx act)) = False"
  "Live (Stats (sample_backend h p w mx act)) = False"
  by (simp_all add: sample_backend_def zero_stats_def)

lemma sample_target_simps [simp]:
  "Host (sample_target h) = h" "Port (sample_target h) = ''80''"
  "sample_target h = sample_target h' \<longleftrightarrow> h = h'"
  by (auto simp: sample_target_def)

lemma sample_backend_eq [simp]:
  "sample_backend h p w mx act = sample_backend h' p' w' mx' act' \<longleftrightarrow>
   h = h' \<and> p = p' \<and> w = w' \<and> mx = mx' \<and> act = act'"
  by (metis sample_backend_simps(1-4,6) sample_target_simps(1))

definition sample_context :: Context where
  "sample_context = TcpContext ''example.org'' \<lparr>addr_IP = [192, 168, 0, 7], addr_Port = 4711\<rparr>"

definition sample_healthcheck :: HealthcheckConfig where
  "sample_healthcheck = \<lparr>hc_Kind = ''none'', hc_Interval = ''0'', hc_Passes = 2, hc_Fails = 3,
     hc_Timeout = ''0'', hc_ProxyProtocol = None, hc_InitialStatus = None, hc_Exec = None,
     hc_Probe = None\<rparr>"

definition sample_ping_healthcheck :: HealthcheckConfig where
  "sample_ping_healthcheck = sample_healthcheck\<lparr>hc_Kind := ''ping'', hc_Interval := ''2s''\<rparr>"

definition sample_sni :: SniConfig where
  "sample_sni = \<lparr>sni_HostnameMatchingStrategy = ''exact'',
     sni_UnexpectedHostnameStrategy = ''default'', sni_ReadTimeout = ''2s''\<rparr>"

end
