(* ===== verification/Balance_Properties.thy ===== *)
theory Balance_Properties
  imports Balance_Contract Samples
begin

text \<open>
  The properties of the balancers, each with a concrete input on which its hypotheses hold.
\<close>

abbreviation host_a :: Backend where "host_a \<equiv> sample_backend ''10.0.0.1'' 0 1 0 2"
abbreviation host_b :: Backend where "host_b \<equiv> sample_backend ''10.0.0.2'' 0 3 0 1"
abbreviation host_c :: Backend where "host_c \<equiv> sample_backend ''10.0.0.3'' 1 5 0 0"

lemma intn_range_zero [simp]: "intn_range (\<lambda>n. 0)"
  by (simp add: intn_range_def)

lemma weight_elects_lowest:
  assumes "intn_range rnd" and "bs \<noteq> []" and "\<forall>b\<in>set bs. weight_valid b" and "total_weight bs < 2 ^ 63"
  shows "\<exists>b\<in>set bs. WeightBalancer_Elect rnd ctx bs = Ok (Some b) \<and>
    (\<forall>x\<in>set bs. Priority b \<le> Priority x) \<and>
    ((\<exists>x\<in>set bs. Priority x = Priority b \<and> 0 < Weight x) \<longrightarrow> 0 < Weight b)"
proof -
  let ?g = "priority_group bs"
  obtain b where b: "b \<in> set ?g" "WeightBalancer_Elect rnd ctx bs = Ok (Some b)"
    "total_weight ?g > 0 \<longrightarrow> Weight b > 0"
    using weight_elect_ready [OF assms] by blast
  have mem: "b \<in> set bs" "Priority b = min_priority bs" using b(1) by (auto simp: priority_group_def)
  have "total_weight ?g > 0" if "x \<in> set bs" "Priority x = Priority b" "0 < Weight x" for x
    using total_weight_member [OF priority_group_valid [OF assms(3)], of x] that mem(2)
    by (auto simp: priority_group_def)
  with b mem show ?thesis
    by (intro bexI [of _ b] conjI) (auto simp: min_priority_def)
qed

lemma weight_elect_group:
  assumes "\<forall>b\<in>set bs. weight_valid b" and "total_weight bs < 2 ^ 63"
    and "length (priority_group bs) > 1" and "0 < total_weight (priority_group bs)"
  shows "WeightBalancer_Elect (\<lambda>_. r) ctx bs = weight_pick r 0 (priority_group bs)"
proof -
  have "bs \<noteq> []" using assms(3) by (auto simp: priority_group_def)
  then show ?thesis using assms weight_fold_init [OF _ assms(1,2)]
    by (simp add: WeightBalancer_Elect_def Intn_def)
qed

lemma weight_elect_count:
  assumes "\<forall>b\<in>set bs. weight_valid b" and "total_weight bs < 2 ^ 63" and "distinct bs"
    and "x \<in> set (priority_group bs)" and "length (priority_group bs) > 1"
    and "0 < total_weight (priority_group bs)"
  shows "card {r. 0 \<le> r \<and> r < total_weight (priority_group bs) \<and>
    WeightBalancer_Elect (\<lambda>_. r) ctx bs = Ok (Some x)} = nat (Weight x)"
proof -
  have "total_weight (priority_group bs) < 2 ^ 63"
    using total_weight_filter_le [of bs] assms(1,2)
    by (fastforce simp: priority_group_def weight_valid_def intro: le_less_trans)
  moreover have "distinct (priority_group bs)" using assms(3) by (simp add: priority_group_def)
  ultimately show ?thesis
    using weight_pick_count [OF priority_group_valid [OF assms(1)], of 0 x] assms(4)
    by (simp add: weight_elect_group [OF assms(1,2,5,6)])
qed

lemma weight_step_skip:
  "m < 0 \<Longrightarrow> \<forall>x\<in>set bs. m < Priority x \<Longrightarrow> fold weight_step bs (m, g, s) = (m, g, s)"
  by (induction bs) auto

lemma weight_elect_panics:
  assumes "Priority b < 0" and "\<forall>x\<in>set bs. Priority b < Priority x"
  shows "WeightBalancer_Elect rnd ctx (b # bs) = Panic"
  using assms weight_step_skip [of "Priority b" bs "[]" 0]
  by (simp add: WeightBalancer_Elect_def Intn_def)

lemma iphash_same:
  assumes "mset bs = mset bs'" and "inj_on Backend_Address (set bs)"
    and "Context_Ip ctx = Context_Ip ctx'"
  shows "IphashBalancer_Elect ctx bs = IphashBalancer_Elect ctx' bs'"
proof -
  have "length bs = length bs'" "bs = [] \<longleftrightarrow> bs' = []"
    using assms(1) by (metis size_mset, metis mset_zero_iff)
  then show ?thesis using sort_backends_perm [OF assms(1,2)] assms(3)
    by (simp add: IphashBalancer_Elect_def)
qed

lemma iphash1_hash_zero: "iphash1_hash [213, 13, 122, 105] host_a = 0"
  by (simp add: iphash1_hash_def Backend_Address_def Address_def string_bytes_def char_byte_def
      fnv32a_write_def fnv32a_init_def)

lemma iphash1_hash_sample:
  "iphash1_hash [192, 168, 0, 7] host_a = 2809837010"
  "iphash1_hash [192, 168, 0, 7] host_b = 2799803237"
  by (simp_all add: iphash1_hash_def Backend_Address_def Address_def string_bytes_def char_byte_def
      fnv32a_write_def fnv32a_init_def)

lemma stack_elect_available:
  assumes "intn_range rnd" and "base_ready k ctx bs" and "x \<in> set bs" and "\<not> limit_reached x"
    and "\<forall>conf. sniConf = Some conf \<longrightarrow> matchSni re conf (Context_Sni ctx) (Sni x) = Ok True"
  shows "\<exists>b. fst (Stack_Elect re sniConf k rnd s ctx bs) = Ok (Some b)"
proof (cases sniConf)
  case None
  then show ?thesis using base.maxconn_available [OF assms(1-4)] by (simp add: Stack_Elect_def)
next
  case (Some conf)
  let ?bs = "matchingBackends re conf (Context_Sni ctx) bs"
  have x: "x \<in> set ?bs" using assms(3,5) Some by (simp add: matchingBackends_def)
  have "base_ready k ctx ?bs" unfolding matchingBackends_def by (rule base_ready_filter [OF assms(2)])
  from base.maxconn_available [OF assms(1) this x assms(4)] x show ?thesis
    using Some by (auto simp: Stack_Elect_def SniMiddleware_Elect_def Let_def)
qed

section \<open>Weight\<close>

text \<open>The weight balancer elects a backend of the lowest priority, never one of weight 0
  while the group has a positive weight, for every list of backends with valid settings.\<close>

theorem weight_elects_lowest_priority:
  assumes "intn_range rnd" and "bs \<noteq> []" and "\<forall>b\<in>set bs. weight_valid b" and "total_weight bs < 2 ^ 63"
  shows "\<exists>b\<in>set bs. WeightBalancer_Elect rnd ctx bs = Ok (Some b) \<and>
    (\<forall>x\<in>set bs. Priority b \<le> Priority x) \<and>
    ((\<exists>x\<in>set bs. Priority x = Priority b \<and> 0 < Weight x) \<longrightarrow> 0 < Weight b)"
  by (rule weight_elects_lowest [OF assms])

theorem weight_elects_lowest_priority_witness:
  "\<exists>b\<in>{host_a, host_c}. WeightBalancer_Elect (\<lambda>n. 0) sample_context [host_c, host_a] = Ok (Some b) \<and>
    (\<forall>x\<in>{host_a, host_c}. Priority b \<le> Priority x)"
  using weight_elects_lowest_priority [of "\<lambda>n. 0" "[host_c, host_a]" sample_context]
  by (auto simp: weight_valid_def total_weight_def)

text \<open>C35: The weight balancer is proportional: of the equally likely numbers that the random
  source can return, exactly \<open>Weight x\<close> elect the backend \<open>x\<close> of the lowest priority group.\<close>

theorem weight_proportional:
  assumes "\<forall>b\<in>set bs. weight_valid b" and "total_weight bs < 2 ^ 63" and "distinct bs"
    and "x \<in> set (priority_group bs)" and "length (priority_group bs) > 1"
    and "0 < total_weight (priority_group bs)"
  shows "card {r. 0 \<le> r \<and> r < total_weight (priority_group bs) \<and>
    WeightBalancer_Elect (\<lambda>_. r) ctx bs = Ok (Some x)} = nat (Weight x)"
  by (rule weight_elect_count [OF assms])

theorem weight_proportional_witness:
  "card {r. 0 \<le> r \<and> r < 4 \<and>
    WeightBalancer_Elect (\<lambda>_. r) sample_context [host_a, host_c, host_b] = Ok (Some host_b)} = 3"
  using weight_proportional [of "[host_a, host_c, host_b]" host_b sample_context]
  by (simp add: weight_valid_def total_weight_def priority_group_def min_priority_def)

text \<open>The weight balancer panics (\<open>rand.Intn(0)\<close>) when the first backend has a negative
  priority and no other backend has a lower valid one.\<close>

theorem weight_negative_priority_panics:
  assumes "Priority b < 0" and "\<forall>x\<in>set bs. Priority b < Priority x"
  shows "WeightBalancer_Elect rnd ctx (b # bs) = Panic"
  by (rule weight_elect_panics [OF assms])

theorem weight_negative_priority_panics_witness:
  "WeightBalancer_Elect (\<lambda>n. 0) sample_context [sample_backend ''10.0.0.1'' (-1) 1 0 0, host_b] = Panic"
  by (rule weight_negative_priority_panics) simp_all

section \<open>Round-robin, least load\<close>

text \<open>Round-robin serves the backends in the fixed order of their addresses, one after the
  other, however the map iteration of each election ordered the candidates.\<close>

theorem roundrobin_in_order:
  assumes "bs \<noteq> []" and "inj_on Backend_Address (set bs)"
    and "\<forall>(ctx, bs')\<in>set reqs. mset bs' = mset bs" and "current \<le> length bs"
  shows "rr_elections reqs current =
    map (\<lambda>i. Ok (Some (sort_backends bs ! ((current + i) mod length bs)))) [0..<length reqs]"
  by (rule rr_elections_nth [OF assms])

theorem roundrobin_in_order_witness:
  "rr_elections [(sample_context, [host_b, host_a]), (sample_context, [host_a, host_b]),
     (sample_context, [host_b, host_a])] 0 = [Ok (Some host_a), Ok (Some host_b), Ok (Some host_a)]"
  using roundrobin_in_order [of "[host_b, host_a]" "[(sample_context, [host_b, host_a]),
      (sample_context, [host_a, host_b]), (sample_context, [host_b, host_a])]" 0]
  by (simp add: Backend_Address_def Address_def sort_backends_def add_mset_commute upt_rec)

text \<open>Round-robin is fair: a full round of elections serves each backend exactly once.\<close>

theorem roundrobin_fair:
  assumes "bs \<noteq> []" and "inj_on Backend_Address (set bs)"
    and "\<forall>(ctx, bs')\<in>set reqs. mset bs' = mset bs" and "current \<le> length bs"
    and "length reqs = length bs"
  shows "mset (rr_elections reqs current) = mset (map (\<lambda>b. Ok (Some b)) bs)"
  by (rule rr_full_round [OF assms])

theorem roundrobin_fair_witness:
  "mset (rr_elections [(sample_context, [host_b, host_a]), (sample_context, [host_a, host_b])] 1) =
   {#Ok (Some host_a), Ok (Some host_b)#}"
  using roundrobin_fair [of "[host_a, host_b]" "[(sample_context, [host_b, host_a]),
      (sample_context, [host_a, host_b])]" 1]
  by (simp add: Backend_Address_def Address_def add_mset_commute)

text \<open>Leastconn elects a backend with the fewest open connections, leastbandwidth one with
  the least traffic per second.\<close>

theorem least_load_elected:
  assumes "bs \<noteq> []"
  shows "\<exists>b\<in>set bs. \<exists>c\<in>set bs.
    LeastconnBalancer_Elect ctx bs = Ok (Some b) \<and>
    LeastbandwidthBalancer_Elect ctx bs = Ok (Some c) \<and>
    (\<forall>x\<in>set bs. ActiveConnections (Stats b) \<le> ActiveConnections (Stats x)) \<and>
    (\<forall>x\<in>set bs. bandwidth c \<le> bandwidth x)"
  using leastconn_spec [OF assms] leastbandwidth_spec [OF assms] by blast

theorem least_load_elected_witness:
  "\<exists>b\<in>{host_a, host_b}. LeastconnBalancer_Elect sample_context [host_a, host_b] = Ok (Some b) \<and>
    ActiveConnections (Stats b) \<le> 1"
  using least_load_elected [of "[host_a, host_b]" sample_context] by auto

section \<open>The hashing balancers\<close>

text \<open>Iphash is sticky: two clients with the same address are sent to the same backend,
  whatever their ports, and however the candidates are ordered.\<close>

theorem iphash_sticky:
  assumes "mset bs = mset bs'" and "inj_on Backend_Address (set bs)"
    and "Context_Ip ctx = Context_Ip ctx'"
  shows "IphashBalancer_Elect ctx bs = IphashBalancer_Elect ctx' bs'"
  by (rule iphash_same [OF assms])

theorem iphash_sticky_witness:
  "IphashBalancer_Elect sample_context [host_a, host_b] =
   IphashBalancer_Elect (UdpContext \<lparr>addr_IP = [192, 168, 0, 7], addr_Port = 9\<rparr>) [host_b, host_a]"
  by (rule iphash_sticky)
    (simp_all add: add_mset_commute Backend_Address_def Address_def sample_context_def)

text \<open>Iphash1 is stable under removal: while the hashes of the backends differ, a client
  whose backend stays keeps it, whichever other backends go away.\<close>

theorem iphash1_stable:
  assumes "Iphash1Balancer_Elect ctx bs = Ok (Some b)"
    and "inj_on (iphash1_hash (Context_Ip ctx)) (set bs)"
    and "set bs' \<subseteq> set bs" and "b \<in> set bs'"
  shows "Iphash1Balancer_Elect ctx bs' = Ok (Some b)"
  by (rule iphash1_subset_stable [OF assms])

theorem iphash1_stable_witness:
  "Iphash1Balancer_Elect sample_context [host_a] = Ok (Some host_a)"
  by (rule iphash1_stable [of _ "[host_b, host_a]"])
    (simp_all add: Iphash1Balancer_Elect_def sample_context_def iphash1_hash_sample)

text \<open>Iphash1 returns a nil backend with a nil error when every hash is 0; there are clients
  for which this happens.\<close>

theorem iphash1_elects_nil:
  "Iphash1Balancer_Elect (UdpContext \<lparr>addr_IP = [213, 13, 122, 105], addr_Port = 9\<rparr>) [host_a] = Ok None"
  by (simp add: Iphash1Balancer_Elect_def iphash1_hash_zero)

section \<open>The stack that \<open>balance.New\<close> builds\<close>



text \<open>C6: The stack is available: when some candidate matches the requested host name and is
  below its limit, and the candidates are acceptable to the configured balancer, a backend is
  elected.\<close>

theorem stack_available:
  assumes "intn_range rnd" and "base_ready k ctx bs" and "x \<in> set bs" and "\<not> limit_reached x"
    and "\<forall>conf. sniConf = Some conf \<longrightarrow> matchSni re conf (Context_Sni ctx) (Sni x) = Ok True"
  shows "\<exists>b. fst (Stack_Elect re sniConf k rnd s ctx bs) = Ok (Some b)"
  by (rule stack_elect_available [OF assms])

theorem stack_available_witness:
  "\<exists>b. fst (Stack_Elect (\<lambda>_. None) None RoundrobinBalancer (\<lambda>n. 0) 0 sample_context [host_a, host_b]) = Ok (Some b)"
  by (rule stack_available [of _ _ _ _ host_b]) (simp_all add: limit_reached_def)

end
