(* ===== verification/Go_Std.thy ===== *)
theory Go_Std
  imports Go_Prelude
begin

text \<open>
  The parts of Go's standard library that the program computes with: \<open>strings.TrimSpace\<close>,
  \<open>Fields\<close>, \<open>Split\<close>, \<open>Join\<close>; \<open>strconv.Atoi\<close>, \<open>Itoa\<close> and \<open>Unquote\<close>; \<open>net.SplitHostPort\<close> and
  \<open>JoinHostPort\<close>; \<open>time.ParseDuration\<close>. White space is ASCII white space.
\<close>

section \<open>Characters\<close>

definition is_space :: "char \<Rightarrow> bool" where
  "is_space c \<longleftrightarrow> (let n = (of_char c :: nat) in n = 32 \<or> 9 \<le> n \<and> n \<le> 13)"

definition is_digit :: "char \<Rightarrow> bool" where
  "is_digit c \<longleftrightarrow> (let n = (of_char c :: nat) in 48 \<le> n \<and> n \<le> 57)"

definition digit_val :: "char \<Rightarrow> nat" where
  "digit_val c = of_char c - 48"

section \<open>Package strings\<close>

definition TrimSpace :: "string \<Rightarrow> string" where
  "TrimSpace s = rev (dropWhile is_space (rev (dropWhile is_space s)))"

fun fields_acc :: "string \<Rightarrow> string \<Rightarrow> string list" where
  "fields_acc cur [] = (if cur = [] then [] else [cur])"
| "fields_acc cur (c # cs) =
     (if is_space c then (if cur = [] then fields_acc [] cs else cur # fields_acc [] cs)
      else fields_acc (cur @ [c]) cs)"

definition Fields :: "string \<Rightarrow> string list" where
  "Fields s = fields_acc [] s"

fun Join :: "string list \<Rightarrow> string \<Rightarrow> string" where
  "Join [] sep = []"
| "Join [x] sep = x"
| "Join (x # y # xs) sep = x @ sep @ Join (y # xs) sep"

text \<open>\<open>strings.Split(s, sep)\<close> for a separator of one byte.\<close>

fun Split :: "string \<Rightarrow> char \<Rightarrow> string list" where
  "Split [] sep = [[]]"
| "Split (c # cs) sep =
     (if c = sep then [] # Split cs sep
      else case Split cs sep of [] \<Rightarrow> [[c]] | x # xs \<Rightarrow> (c # x) # xs)"

definition ReplaceAll_char :: "string \<Rightarrow> char \<Rightarrow> char \<Rightarrow> string" where
  "ReplaceAll_char s old new = map (\<lambda>c. if c = old then new else c) s"

lemma Split_nonempty [simp]: "Split s sep \<noteq> []"
  by (cases s) (auto split: list.split)

lemma Split_no_sep: "x \<in> set (Split s sep) \<Longrightarrow> sep \<notin> set x"
  by (induction s arbitrary: x) (auto split: list.splits if_splits)

lemma Join_Split: "Join (Split s sep) [sep] = s"
proof (induction s)
  case (Cons c s)
  obtain x xs where "Split s sep = x # xs" by (cases "Split s sep") auto
  then show ?case using Cons by (cases xs) auto
qed simp

section \<open>Package strconv\<close>

fun digits_val :: "nat \<Rightarrow> string \<Rightarrow> nat" where
  "digits_val acc [] = acc"
| "digits_val acc (c # cs) = digits_val (10 * acc + digit_val c) cs"

definition Atoi :: "string \<Rightarrow> goint option" where
  "Atoi s =
     (let (neg, ds) = (case s of c # cs \<Rightarrow>
            if c = CHR ''-'' then (True, cs) else if c = CHR ''+'' then (False, cs) else (False, s)
          | [] \<Rightarrow> (False, []))
      in if ds = [] \<or> \<not> list_all is_digit ds then None
         else let v = (if neg then - int (digits_val 0 ds) else int (digits_val 0 ds))
              in if int64_range v then Some v else None)"

fun digits_of :: "nat \<Rightarrow> string" where
  "digits_of n = (if n < 10 then [char_of (48 + n)] else digits_of (n div 10) @ [char_of (48 + n mod 10)])"

declare digits_of.simps [simp del]

definition Itoa :: "goint \<Rightarrow> string" where
  "Itoa i = (if i < 0 then ''-'' @ digits_of (nat (- i)) else digits_of (nat i))"

lemma digits_of_digit: "c \<in> set (digits_of n) \<Longrightarrow> is_digit c"
proof (induction n rule: digits_of.induct)
  case (1 n)
  have d: "is_digit (char_of (48 + k))" if "k < 10" for k :: nat
    using that by (simp add: is_digit_def Let_def)
  show ?case
  proof (cases "n < 10")
    case True
    then show ?thesis using 1(2) d by (simp add: digits_of.simps [of n])
  next
    case False
    then show ?thesis using 1 d [of "n mod 10"] by (auto simp: digits_of.simps [of n])
  qed
qed

text \<open>
  \<open>strconv.Unquote\<close> applied to a string between double quotes, as the source calls it. The body
  must hold no bare double quote and no newline; a backslash starts an escape. Unicode escapes
  (\<open>\u\<close>, \<open>\U\<close>) encode a code point in UTF-8.
\<close>

definition hex_val :: "char \<Rightarrow> nat option" where
  "hex_val c = (let n = (of_char c :: nat) in
     if 48 \<le> n \<and> n \<le> 57 then Some (n - 48)
     else if 97 \<le> n \<and> n \<le> 102 then Some (n - 87)
     else if 65 \<le> n \<and> n \<le> 70 then Some (n - 55) else None)"

fun hex_digits :: "nat \<Rightarrow> nat \<Rightarrow> string \<Rightarrow> (nat \<times> string) option" where
  "hex_digits 0 v cs = Some (v, cs)"
| "hex_digits (Suc k) v [] = None"
| "hex_digits (Suc k) v (c # cs) =
     (case hex_val c of None \<Rightarrow> None | Some d \<Rightarrow> hex_digits k (16 * v + d) cs)"

definition utf8 :: "nat \<Rightarrow> string" where
  "utf8 n = map char_of
     (if n < 128 then [n]
      else if n < 2048 then [192 + n div 64, 128 + n mod 64]
      else if n < 65536 then [224 + n div 4096, 128 + (n div 64) mod 64, 128 + n mod 64]
      else [240 + n div 262144, 128 + (n div 4096) mod 64, 128 + (n div 64) mod 64, 128 + n mod 64])"

definition valid_rune :: "nat \<Rightarrow> bool" where
  "valid_rune n \<longleftrightarrow> n < 55296 \<or> 57344 \<le> n \<and> n < 1114112"

definition octal_val :: "char \<Rightarrow> nat option" where
  "octal_val c = (let n = (of_char c :: nat) in if 48 \<le> n \<and> n \<le> 55 then Some (n - 48) else None)"

definition simple_escape :: "char \<Rightarrow> nat option" where
  "simple_escape c = map_of
     [(CHR ''a'', 7), (CHR ''b'', 8), (CHR ''f'', 12), (CHR ''n'', 10), (CHR ''r'', 13),
      (CHR ''t'', 9), (CHR ''v'', 11), (CHR 0x5C, 92), (CHR 0x22, 34)] c"

text \<open>One escape, after its backslash: the bytes it stands for and the rest.\<close>

definition unquote_escape :: "string \<Rightarrow> (string \<times> string) option" where
  "unquote_escape s = (case s of [] \<Rightarrow> None | c # cs \<Rightarrow>
     (case simple_escape c of Some n \<Rightarrow> Some ([char_of n], cs)
      | None \<Rightarrow>
        if c = CHR ''x'' then map_option (\<lambda>(v, r). ([char_of v], r)) (hex_digits 2 0 cs)
        else if c = CHR ''u'' \<or> c = CHR ''U'' then
          (case hex_digits (if c = CHR ''u'' then 4 else 8) 0 cs of
             None \<Rightarrow> None | Some (v, r) \<Rightarrow> if valid_rune v then Some (utf8 v, r) else None)
        else case (octal_val c, cs) of
            (Some a, d # e # r) \<Rightarrow>
              (case (octal_val d, octal_val e) of
                 (Some b, Some z) \<Rightarrow>
                   let v = 64 * a + 8 * b + z in if v > 255 then None else Some ([char_of v], r)
               | _ \<Rightarrow> None)
          | _ \<Rightarrow> None))"

lemma hex_digits_shorter: "hex_digits k v cs = Some (w, r) \<Longrightarrow> length r \<le> length cs"
  by (induction k v cs rule: hex_digits.induct) (auto split: option.splits)

lemma unquote_escape_shorter: "unquote_escape s = Some (x, r) \<Longrightarrow> length r < length s"
  by (auto simp: unquote_escape_def Let_def split: list.splits option.splits if_splits prod.splits
      dest!: hex_digits_shorter)

function unquote_body :: "string \<Rightarrow> string option" where
  "unquote_body [] = Some []"
| "unquote_body (c # cs) =
     (if c = CHR 0x22 \<or> c = CHR 0x0A then None
      else if c = CHR 0x5C then
        (case unquote_escape cs of None \<Rightarrow> None
         | Some (x, r) \<Rightarrow> map_option (\<lambda>y. x @ y) (unquote_body r))
      else map_option (\<lambda>y. c # y) (unquote_body cs))"
  by pat_completeness auto
termination
  by (relation "measure length") (auto dest: unquote_escape_shorter)

text \<open>A body without backslash, quote or newline stands for itself.\<close>

lemma unquote_body_plain:
  "\<forall>c\<in>set s. c \<noteq> CHR 0x5C \<and> c \<noteq> CHR 0x22 \<and> c \<noteq> CHR 0x0A \<Longrightarrow> unquote_body s = Some s"
  by (induction s) auto

section \<open>Package net: host and port\<close>

definition has_char :: "char \<Rightarrow> string \<Rightarrow> bool" where
  "has_char c s \<longleftrightarrow> c \<in> set s"

text \<open>Host and port around the last colon.\<close>

definition split_last_colon :: "string \<Rightarrow> (string \<times> string) option" where
  "split_last_colon s =
     (if CHR '':'' \<in> set s
      then Some (rev (tl (dropWhile (\<lambda>c. c \<noteq> CHR '':'') (rev s))),
                 rev (takeWhile (\<lambda>c. c \<noteq> CHR '':'') (rev s)))
      else None)"

definition SplitHostPort :: "string \<Rightarrow> (string \<times> string) option" where
  "SplitHostPort hostport =
     (case split_last_colon hostport of None \<Rightarrow> None
      | Some (front, port) \<Rightarrow>
        if hd hostport = CHR ''['' then
          (if front = [] \<or> last front \<noteq> CHR '']'' then None
           else let host = butlast (tl front)
                in if has_char CHR '']'' host \<or> has_char CHR ''['' host
                      \<or> has_char CHR ''['' port \<or> has_char CHR '']'' port then None
                   else Some (host, port))
        else if has_char CHR '':'' front then None
        else if has_char CHR ''['' hostport \<or> has_char CHR '']'' hostport then None
        else Some (front, port))"

definition JoinHostPort :: "string \<Rightarrow> string \<Rightarrow> string" where
  "JoinHostPort host port =
     (if has_char CHR '':'' host then ''['' @ host @ '']:'' @ port else host @ '':'' @ port)"

lemma split_last_colon_append:
  "CHR '':'' \<notin> set p \<Longrightarrow> split_last_colon (h @ CHR '':'' # p) = Some (h, p)"
proof -
  assume "CHR '':'' \<notin> set p"
  then have A: "\<And>x. x \<in> set (rev p) \<Longrightarrow> x \<noteq> CHR '':''" by auto
  let ?s = "rev p @ CHR '':'' # rev h"
  have "takeWhile (\<lambda>c. c \<noteq> CHR '':'') ?s = rev p" by (subst takeWhile_append2) (use A in auto)
  moreover have "dropWhile (\<lambda>c. c \<noteq> CHR '':'') ?s = CHR '':'' # rev h"
    by (subst dropWhile_append2) (use A in auto)
  ultimately show ?thesis by (simp add: split_last_colon_def)
qed

lemma SplitHostPort_bracketed:
  assumes "CHR '':'' \<notin> set p" and "\<forall>c\<in>set h \<union> set p. c \<noteq> CHR ''['' \<and> c \<noteq> CHR '']''"
  shows "SplitHostPort (''['' @ h @ '']:'' @ p) = Some (h, p)"
proof -
  have "split_last_colon (''['' @ h @ '']:'' @ p) = Some (''['' @ h @ '']'', p)"
    using split_last_colon_append [OF assms(1), of "''['' @ h @ '']''"] by simp
  then show ?thesis using assms(2) by (auto simp: SplitHostPort_def has_char_def Let_def)
qed

lemma SplitHostPort_plain:
  assumes "CHR '':'' \<notin> set h" and "CHR '':'' \<notin> set p"
    and "\<forall>c\<in>set h \<union> set p. c \<noteq> CHR ''['' \<and> c \<noteq> CHR '']''"
  shows "SplitHostPort (h @ '':'' @ p) = Some (h, p)"
proof -
  have "split_last_colon (h @ '':'' @ p) = Some (h, p)"
    using split_last_colon_append [OF assms(2)] by simp
  moreover have "hd (h @ '':'' @ p) \<noteq> CHR ''[''" using assms(3) by (cases h) auto
  ultimately show ?thesis using assms by (auto simp: SplitHostPort_def has_char_def)
qed

lemma SplitHostPort_Join:
  assumes "CHR '':'' \<notin> set p" and "\<forall>c\<in>set h \<union> set p. c \<noteq> CHR ''['' \<and> c \<noteq> CHR '']''"
  shows "SplitHostPort (JoinHostPort h p) = Some (h, p)"
  using SplitHostPort_bracketed [OF assms] SplitHostPort_plain [OF _ assms]
  by (simp add: JoinHostPort_def has_char_def)

section \<open>Package time\<close>

text \<open>
  \<open>time.ParseDuration\<close>, in nanoseconds. The fraction is computed exactly here, where the library
  uses \<open>float64\<close>; the program only asks whether a duration parses and whether it is positive.
\<close>

fun leadingInt :: "int \<Rightarrow> string \<Rightarrow> (int \<times> string) option" where
  "leadingInt x [] = Some (x, [])"
| "leadingInt x (c # cs) =
     (if \<not> is_digit c then Some (x, c # cs)
      else if x > 2 ^ 63 div 10 then None
      else let x = x * 10 + int (digit_val c) in if x > 2 ^ 63 then None else leadingInt x cs)"

fun leadingFraction :: "int \<Rightarrow> int \<Rightarrow> bool \<Rightarrow> string \<Rightarrow> int \<times> int \<times> string" where
  "leadingFraction x scale overflow [] = (x, scale, [])"
| "leadingFraction x scale overflow (c # cs) =
     (if \<not> is_digit c then (x, scale, c # cs)
      else if overflow \<or> x > (2 ^ 63 - 1) div 10 then leadingFraction x scale True cs
      else let y = x * 10 + int (digit_val c)
           in if y > 2 ^ 63 then leadingFraction x scale True cs
              else leadingFraction y (scale * 10) False cs)"

definition unitMap :: "string \<rightharpoonup> int" where
  "unitMap = map_of
     [(''ns'', 1), (''us'', 1000), ([CHR 0xC2, CHR 0xB5, CHR ''s''], 1000),
      ([CHR 0xCE, CHR 0xBC, CHR ''s''], 1000), (''ms'', 1000000), (''s'', 1000000000),
      (''m'', 60000000000), (''h'', 3600000000000)]"

text \<open>One \<open>number unit\<close> group: its value and the rest of the string.\<close>

definition duration_group :: "string \<Rightarrow> (int \<times> string) option" where
  "duration_group s =
     (case s of [] \<Rightarrow> None | c # _ \<Rightarrow>
       if c \<noteq> CHR ''.'' \<and> \<not> is_digit c then None
       else case leadingInt 0 s of None \<Rightarrow> None | Some (v, s1) \<Rightarrow>
         let pre = (length s1 \<noteq> length s);
             dot = (s1 \<noteq> [] \<and> hd s1 = CHR ''.'');
             (f, scale, s2) = (if dot then leadingFraction 0 1 False (tl s1) else (0, 1, s1));
             post = (dot \<and> length s2 \<noteq> length (tl s1));
             u = takeWhile (\<lambda>c. c \<noteq> CHR ''.'' \<and> \<not> is_digit c) s2;
             s3 = dropWhile (\<lambda>c. c \<noteq> CHR ''.'' \<and> \<not> is_digit c) s2
         in if \<not> pre \<and> \<not> post then None
            else if u = [] then None
            else case unitMap u of None \<Rightarrow> None | Some unit \<Rightarrow>
              if v > 2 ^ 63 div unit then None
              else let w = v * unit + f * unit div scale
                   in if w > 2 ^ 63 then None else Some (w, s3))"

lemma leadingInt_shorter: "leadingInt x s = Some (v, r) \<Longrightarrow> length r \<le> length s"
  by (induction x s rule: leadingInt.induct) (fastforce simp: Let_def split: if_splits)+

lemma leadingFraction_shorter: "leadingFraction x sc ov s = (v, sc', r) \<Longrightarrow> length r \<le> length s"
  by (induction x sc ov s rule: leadingFraction.induct) (fastforce simp: Let_def split: if_splits)+

lemma duration_group_shorter:
  assumes "duration_group s = Some (w, r)"
  shows "length r < length s"
proof -
  let ?P = "\<lambda>c. c \<noteq> CHR ''.'' \<and> \<not> is_digit c"
  obtain v s1 where l: "leadingInt 0 s = Some (v, s1)"
    using assms by (auto simp: duration_group_def split: list.splits if_splits option.splits)
  obtain f sc s2 where fr: "(if s1 \<noteq> [] \<and> hd s1 = CHR ''.'' then leadingFraction 0 1 False (tl s1)
      else (0, 1, s1)) = (f, sc, s2)" by (metis prod_cases3)
  have len: "length s2 \<le> length s1"
    using fr leadingFraction_shorter [of 0 1 False "tl s1" f sc s2]
    by (auto split: if_splits)
  have "takeWhile ?P s2 \<noteq> [] \<and> r = dropWhile ?P s2"
    using assms l fr
    by (auto simp: duration_group_def Let_def split: list.splits if_splits option.splits prod.splits)
  then have "length r < length s2"
    by (metis add_diff_cancel_left' append_eq_conv_conj le_add2 length_append
        length_greater_0_conv less_add_same_cancel2 takeWhile_dropWhile_id)
  then show ?thesis using len leadingInt_shorter [OF l] by simp
qed

function duration_groups :: "int \<Rightarrow> string \<Rightarrow> int option" where
  "duration_groups d s =
     (if s = [] then Some d
      else case duration_group s of None \<Rightarrow> None
        | Some (w, r) \<Rightarrow> if d + w > 2 ^ 63 then None else duration_groups (d + w) r)"
  by pat_completeness auto
termination
  by (relation "measure (\<lambda>(d, s). length s)") (auto dest: duration_group_shorter)

declare duration_groups.simps [simp del]

definition ParseDuration :: "string \<Rightarrow> goint option" where
  "ParseDuration orig =
     (let neg = (orig \<noteq> [] \<and> hd orig = CHR ''-'');
          s = (if orig \<noteq> [] \<and> (hd orig = CHR ''-'' \<or> hd orig = CHR ''+'') then tl orig else orig)
      in if s = ''0'' then Some 0
         else if s = [] then None
         else case duration_groups 0 s of None \<Rightarrow> None
           | Some d \<Rightarrow> if neg then Some (- d)
                       else if d > 2 ^ 63 - 1 then None else Some d)"

lemma ParseDuration_0 [simp]: "ParseDuration ''0'' = Some 0"
  by (simp add: ParseDuration_def)

lemma ParseDuration_2s: "ParseDuration ''2s'' = Some 2000000000"
  by code_simp

definition ParseDurationOrDefault :: "string \<Rightarrow> goint \<Rightarrow> goint" where
  "ParseDurationOrDefault s defaultDuration =
     (if s = [] then defaultDuration
      else case ParseDuration s of None \<Rightarrow> defaultDuration | Some d \<Rightarrow> d)"

end
