(* ===== verification/Healthcheck.thy ===== *)
theory Healthcheck
  imports Core Config Go_Std
begin

text \<open>
  Package \<open>healthcheck\<close> (src/src/healthcheck): the worker that turns single check results into
  confirmed status changes, the set of workers that follows the discovered targets, and the
  three checks, whose network and process I/O is passed in as data.
\<close>

datatype HealthCheckStatus = Initial | Unhealthy | Healthy

record CheckResult =
  cr_Target :: Target
  cr_Status :: HealthCheckStatus

section \<open>The worker\<close>

record Worker =
  wk_target :: Target
  wk_cfg :: HealthcheckConfig
  wk_LastResult :: CheckResult
  wk_passes :: goint
  wk_fails :: goint

text \<open>
  \<open>process\<close>: the new worker state, and the result sent to the scheduler, if any.
\<close>

definition process :: "CheckResult \<Rightarrow> Worker \<Rightarrow> Worker \<times> CheckResult option" where
  "process checkResult w =
     (if cr_Status checkResult = cr_Status (wk_LastResult w) then (w, None)
      else
        let w = (case cr_Status checkResult of
              Unhealthy \<Rightarrow> w\<lparr>wk_passes := 0, wk_fails := wrap64 (wk_fails w + 1)\<rparr>
            | Healthy \<Rightarrow> w\<lparr>wk_fails := 0, wk_passes := wrap64 (wk_passes w + 1)\<rparr>
            | Initial \<Rightarrow> w)
        in if (wk_passes w = 0 \<and> wk_fails w \<ge> hc_Fails (wk_cfg w)) \<or>
              (wk_fails w = 0 \<and> wk_passes w \<ge> hc_Passes (wk_cfg w))
           then (w\<lparr>wk_LastResult := checkResult\<rparr>, Some checkResult)
           else (w, None))"

text \<open>The worker goroutine over the results of successive checks, and what it reports.\<close>

fun Worker_run :: "CheckResult list \<Rightarrow> Worker \<Rightarrow> Worker \<times> CheckResult list" where
  "Worker_run [] w = (w, [])"
| "Worker_run (r # rs) w =
     (let (w, out) = process r w; (w, outs) = Worker_run rs w
      in (w, (case out of None \<Rightarrow> outs | Some x \<Rightarrow> x # outs)))"

definition new_worker :: "HealthcheckConfig \<Rightarrow> Target \<Rightarrow> Worker" where
  "new_worker cfg t = \<lparr>wk_target = t, wk_cfg = cfg,
     wk_LastResult = \<lparr>cr_Target = zero_target, cr_Status = Initial\<rparr>, wk_passes = 0, wk_fails = 0\<rparr>"

text \<open>\<open>Worker.Start\<close> runs no goroutine for kind \<open>none\<close>.\<close>

definition Worker_starts :: "Worker \<Rightarrow> bool" where
  "Worker_starts w \<longleftrightarrow> hc_Kind (wk_cfg w) \<noteq> ''none''"

section \<open>The set of workers\<close>

record Healthcheck =
  hch_cfg :: HealthcheckConfig
  hch_workers :: "Worker list"
  hch_stopped :: bool

definition Healthcheck_New :: "HealthcheckConfig \<Rightarrow> Healthcheck" where
  "Healthcheck_New cfg = \<lparr>hch_cfg = cfg, hch_workers = [], hch_stopped = False\<rparr>"

fun find_worker :: "Target \<Rightarrow> Worker list \<Rightarrow> Worker option" where
  "find_worker t [] = None"
| "find_worker t (w # ws) = (if Target_EqualTo t (wk_target w) then Some w else find_worker t ws)"

text \<open>
  \<open>UpdateWorkers\<close>: the new worker list, the workers it starts and the workers it stops.
\<close>

definition UpdateWorkers ::
    "Target list \<Rightarrow> Healthcheck \<Rightarrow> Healthcheck \<times> Worker list \<times> Worker list" where
  "UpdateWorkers targets h =
     (let keep = (\<lambda>t. case find_worker t (hch_workers h) of
                    None \<Rightarrow> new_worker (hch_cfg h) t | Some w \<Rightarrow> w);
          result = map keep targets;
          started = map keep (filter (\<lambda>t. find_worker t (hch_workers h) = None) targets);
          stopped = filter (\<lambda>w. \<not> list_ex (\<lambda>t. Target_EqualTo (wk_target w) t) targets)
                      (hch_workers h)
      in (h\<lparr>hch_workers := result\<rparr>, started, stopped))"

text \<open>The stop branch of the goroutine: every worker is stopped and the list dropped.\<close>

definition Healthcheck_stop :: "Healthcheck \<Rightarrow> Healthcheck \<times> Worker list" where
  "Healthcheck_stop h = (h\<lparr>hch_workers := [], hch_stopped := True\<rparr>, hch_workers h)"

definition HasCheck :: "HealthcheckConfig \<Rightarrow> bool" where
  "HasCheck cfg \<longleftrightarrow> hc_Kind cfg \<noteq> ''none''"

definition InitialBackendHealthCheckStatus :: "HealthcheckConfig \<Rightarrow> HealthCheckStatus outcome" where
  "InitialBackendHealthCheckStatus cfg =
     (if \<not> HasCheck cfg then Ok Healthy
      else case hc_InitialStatus cfg of
          None \<Rightarrow> Ok Healthy
        | Some s \<Rightarrow> if s = ''unhealthy'' then Ok Unhealthy
                    else if s = ''healthy'' then Ok Healthy
                    else Panic)"

section \<open>The checks\<close>

text \<open>
  Each check delivers one result. \<open>ping\<close>: whether the dial succeeded, and whether writing a
  PROXY header of a given version did.
\<close>

definition ping :: "Target \<Rightarrow> HealthcheckConfig \<Rightarrow> bool \<Rightarrow> (string \<Rightarrow> bool) \<Rightarrow> CheckResult" where
  "ping t cfg dial_ok send_header_ok =
     \<lparr>cr_Target = t, cr_Status =
       (if \<not> dial_ok then Unhealthy
        else case hc_ProxyProtocol cfg of
            None \<Rightarrow> Healthy
          | Some pp \<Rightarrow>
              if pp_Version pp = ''1'' \<or> pp_Version pp = ''2'' then
                (if send_header_ok (pp_Version pp) then Healthy else Unhealthy)
              else Unhealthy)\<rparr>"

text \<open>\<open>exec\<close>: \<open>None\<close> when the command failed or timed out, otherwise its standard output.\<close>

definition exec_check :: "Target \<Rightarrow> HealthcheckConfig \<Rightarrow> string option \<Rightarrow> CheckResult outcome" where
  "exec_check t cfg output =
     (case hc_Exec cfg of
        None \<Rightarrow> Panic
      | Some e \<Rightarrow> Ok \<lparr>cr_Target = t, cr_Status =
          (case output of
             None \<Rightarrow> Unhealthy
           | Some out \<Rightarrow>
               if out = ExecExpectedPositiveOutput e then Healthy
               else if out = ExecExpectedNegativeOutput e then Unhealthy
               else Initial)\<rparr>)"

text \<open>
  What the network does during one \<open>probe\<close>: the dial, the PROXY header on a stream, the PROXY
  datagram prefix, the deadlines, the number of bytes \<open>Write\<close> accepted (\<open>None\<close> on error), and
  the bytes the backend sends before the read ends.
\<close>

record probe_io =
  io_dial_ok :: bool
  io_send_header_ok :: "string \<Rightarrow> bool"
  io_prepend :: "string \<Rightarrow> string option"
  io_write_deadline_ok :: bool
  io_write :: "string \<Rightarrow> nat option"
  io_read_deadline_ok :: bool
  io_received :: string

text \<open>The payload after the PROXY protocol step; \<open>None\<close> is an early return.\<close>

definition probe_payload :: "HealthcheckConfig \<Rightarrow> ProbeHealthcheckConfig \<Rightarrow> probe_io \<Rightarrow> string option" where
  "probe_payload cfg p io =
     (case hc_ProxyProtocol cfg of
        None \<Rightarrow> Some (ProbeSend p)
      | Some pp \<Rightarrow>
          if pp_Version pp = ''1'' \<or> pp_Version pp = ''2'' then
            (if ProbeProtocol p = ''tcp'' then
               (if io_send_header_ok io (pp_Version pp) then Some (ProbeSend p) else None)
             else if ProbeProtocol p = ''udp'' then
               (if pp_Version pp \<noteq> ''2'' then None else io_prepend io (ProbeSend p))
             else Some (ProbeSend p))
          else None)"

text \<open>
  \<open>make([]byte, recvLen)\<close> panics for a negative length; \<open>re\<close> is \<open>regexp.Compile\<close>, and
  \<open>MustCompile\<close> panics where it fails.
\<close>

definition probe_timeout :: "HealthcheckConfig \<Rightarrow> goint" where
  "probe_timeout cfg = (case ParseDuration (hc_Timeout cfg) of None \<Rightarrow> 0 | Some d \<Rightarrow> d)"

definition probe_match ::
    "(string \<Rightarrow> (string \<Rightarrow> bool) option) \<Rightarrow> ProbeHealthcheckConfig \<Rightarrow> string \<Rightarrow> HealthCheckStatus outcome" where
  "probe_match re p actual =
     (if ProbeStrategy p = ''starts_with'' then
        (if actual \<noteq> ProbeRecv p then Ok Unhealthy else Ok Healthy)
      else if ProbeStrategy p = ''regexp'' then
        (case re (ProbeRecv p) of
           None \<Rightarrow> Panic
         | Some m \<Rightarrow> if \<not> m actual then Ok Unhealthy else Ok Healthy)
      else Panic)"

text \<open>From the first write on, with the payload to send and the number of bytes to read.\<close>

definition probe_exchange ::
    "(string \<Rightarrow> (string \<Rightarrow> bool) option) \<Rightarrow> HealthcheckConfig \<Rightarrow> ProbeHealthcheckConfig \<Rightarrow> probe_io \<Rightarrow>
     string \<Rightarrow> goint \<Rightarrow> HealthCheckStatus outcome" where
  "probe_exchange re cfg p io send recvLen =
     (if probe_timeout cfg > 0 \<and> \<not> io_write_deadline_ok io then Ok Unhealthy
      else if io_write io send \<noteq> Some (length send) then Ok Unhealthy
      else if probe_timeout cfg > 0 \<and> \<not> io_read_deadline_ok io then Ok Unhealthy
      else if recvLen < 0 then Panic
      else if length (io_received io) < nat recvLen then Ok Unhealthy
      else probe_match re p (take (nat recvLen) (io_received io)))"

definition probe_status ::
    "(string \<Rightarrow> (string \<Rightarrow> bool) option) \<Rightarrow> HealthcheckConfig \<Rightarrow> probe_io \<Rightarrow> HealthCheckStatus outcome" where
  "probe_status re cfg io =
     (case hc_Probe cfg of
        None \<Rightarrow> Panic
      | Some p \<Rightarrow>
          if \<not> io_dial_ok io then Ok Unhealthy
          else (case probe_payload cfg p io of
              None \<Rightarrow> Ok Unhealthy
            | Some send \<Rightarrow>
                probe_exchange re cfg p io send
                  (if ProbeRecvLen p = 0 then int (length (ProbeRecv p)) else ProbeRecvLen p)))"

definition probe ::
    "(string \<Rightarrow> (string \<Rightarrow> bool) option) \<Rightarrow> Target \<Rightarrow> HealthcheckConfig \<Rightarrow> probe_io \<Rightarrow> CheckResult outcome" where
  "probe re t cfg io =
     bind_outcome (probe_status re cfg io) (\<lambda>s. Ok \<lparr>cr_Target = t, cr_Status = s\<rparr>)"

section \<open>Lemmas: the worker\<close>

text \<open>
  The invariant of a worker whose thresholds are positive (the manager makes them so): at most
  one counter is above zero, counters do not exceed their thresholds, and a confirmed status
  remembers how it was confirmed until a contrary result arrives.
\<close>

definition thresholds_ok :: "HealthcheckConfig \<Rightarrow> bool" where
  "thresholds_ok cfg \<longleftrightarrow> 0 < hc_Passes cfg \<and> hc_Passes cfg < 2 ^ 63 - 1 \<and>
     0 < hc_Fails cfg \<and> hc_Fails cfg < 2 ^ 63 - 1"

definition worker_inv :: "Worker \<Rightarrow> bool" where
  "worker_inv w \<longleftrightarrow> thresholds_ok (wk_cfg w) \<and>
     0 \<le> wk_passes w \<and> wk_passes w \<le> hc_Passes (wk_cfg w) \<and>
     0 \<le> wk_fails w \<and> wk_fails w \<le> hc_Fails (wk_cfg w) \<and>
     (wk_passes w = 0 \<or> wk_fails w = 0) \<and>
     (cr_Status (wk_LastResult w) \<noteq> Healthy \<longrightarrow> wk_passes w < hc_Passes (wk_cfg w)) \<and>
     (cr_Status (wk_LastResult w) \<noteq> Unhealthy \<longrightarrow> wk_fails w < hc_Fails (wk_cfg w))"

text \<open>Results of the checks that only say healthy or unhealthy (ping and probe).\<close>

definition decided :: "CheckResult \<Rightarrow> bool" where
  "decided r \<longleftrightarrow> cr_Status r = Healthy \<or> cr_Status r = Unhealthy"

definition failures :: "CheckResult list \<Rightarrow> nat" where
  "failures rs = length (filter (\<lambda>r. cr_Status r = Unhealthy) rs)"

lemma failures_simps [simp]:
  "failures [] = 0"
  "failures (r # rs) = (if cr_Status r = Unhealthy then Suc (failures rs) else failures rs)"
  by (simp_all add: failures_def)

text \<open>A confirmed healthy worker that has seen some failures since.\<close>

definition confirmed_healthy :: "nat \<Rightarrow> Worker \<Rightarrow> bool" where
  "confirmed_healthy k w \<longleftrightarrow> cr_Status (wk_LastResult w) = Healthy \<and> wk_fails w = int k \<and>
     (0 < k \<longrightarrow> wk_passes w = 0)"

lemma process_healthy_step:
  assumes "thresholds_ok (wk_cfg w)" and "confirmed_healthy k w" and "decided r"
    and "int (k + failures [r]) < hc_Fails (wk_cfg w)"
  shows "snd (process r w) = None \<and> confirmed_healthy (k + failures [r]) (fst (process r w)) \<and>
    wk_cfg (fst (process r w)) = wk_cfg w"
proof (cases "cr_Status r = Healthy")
  case True
  then show ?thesis using assms by (simp add: process_def confirmed_healthy_def)
next
  case False
  then have "cr_Status r = Unhealthy" using assms(3) by (simp add: decided_def)
  moreover have "wrap64 (int k + 1) = int k + 1"
    using assms by (intro wrap64_nonneg) (auto simp: thresholds_ok_def)
  ultimately show ?thesis using assms
    by (auto simp: process_def confirmed_healthy_def thresholds_ok_def)
qed

lemma Worker_run_healthy:
  assumes "thresholds_ok (wk_cfg w)" and "confirmed_healthy k w" and "\<forall>r\<in>set rs. decided r"
    and "int (k + failures rs) < hc_Fails (wk_cfg w)"
  shows "snd (Worker_run rs w) = [] \<and> confirmed_healthy (k + failures rs) (fst (Worker_run rs w)) \<and>
    wk_cfg (fst (Worker_run rs w)) = wk_cfg w"
  using assms
proof (induction rs arbitrary: w k)
  case (Cons r rs)
  obtain w' out where p: "process r w = (w', out)" by force
  have lt: "int (k + failures [r]) < hc_Fails (wk_cfg w)" using Cons.prems(4) by auto
  have step: "out = None" "confirmed_healthy (k + failures [r]) w'" "wk_cfg w' = wk_cfg w"
    using process_healthy_step [OF Cons.prems(1,2) _ lt] Cons.prems(3) p by auto
  have "int ((k + failures [r]) + failures rs) < hc_Fails (wk_cfg w')"
    using Cons.prems(4) step(3) by (auto split: if_splits)
  from Cons.IH [OF _ step(2) _ this] Cons.prems step show ?case
    using p by (auto split: prod.splits if_splits)
qed simp

lemma process_confirms_unhealthy:
  assumes "thresholds_ok (wk_cfg w)" and "confirmed_healthy k w" and "cr_Status r = Unhealthy"
    and "int (Suc k) = hc_Fails (wk_cfg w)"
  shows "snd (process r w) = Some r \<and> wk_LastResult (fst (process r w)) = r"
proof -
  have "wrap64 (int k + 1) = int k + 1"
    using assms by (intro wrap64_nonneg) (auto simp: thresholds_ok_def)
  then show ?thesis using assms by (auto simp: process_def confirmed_healthy_def)
qed

lemma Worker_run_append:
  "Worker_run (rs @ rs') w =
    (let (w1, o1) = Worker_run rs w; (w2, o2) = Worker_run rs' w1 in (w2, o1 @ o2))"
  by (induction rs arbitrary: w) (auto simp: Let_def split: prod.splits option.splits)

lemma process_inv:
  assumes "worker_inv w" and "decided r"
  shows "worker_inv (fst (process r w))"
proof -
  have w: "wrap64 (wk_fails w + 1) = wk_fails w + 1" "wrap64 (wk_passes w + 1) = wk_passes w + 1"
    using assms(1) by (auto intro!: wrap64_nonneg simp: worker_inv_def thresholds_ok_def)
  consider "cr_Status r = cr_Status (wk_LastResult w)"
    | "cr_Status r = Healthy" "cr_Status (wk_LastResult w) \<noteq> Healthy"
    | "cr_Status r = Unhealthy" "cr_Status (wk_LastResult w) \<noteq> Unhealthy"
    using assms(2)
    by (cases "cr_Status r"; cases "cr_Status (wk_LastResult w)") (auto simp: decided_def)
  then show ?thesis
  proof cases
    case 1
    then show ?thesis using assms(1) by (simp add: process_def)
  next
    case 2
    then show ?thesis using assms(1) w
      by (cases "cr_Status (wk_LastResult w)") (auto simp: process_def worker_inv_def thresholds_ok_def Let_def)
  next
    case 3
    then show ?thesis using assms(1) w
      by (cases "cr_Status (wk_LastResult w)") (auto simp: process_def worker_inv_def thresholds_ok_def Let_def)
  qed
qed

section \<open>Lemmas: the set of workers\<close>

lemma find_worker_Some: "find_worker t ws = Some w \<Longrightarrow> w \<in> set ws \<and> wk_target w = t"
  by (induction ws) (auto split: if_splits)

lemma find_worker_None: "find_worker t ws = None \<longleftrightarrow> t \<notin> wk_target ` set ws"
  by (induction ws) auto

lemma find_worker_distinct:
  "distinct (map wk_target ws) \<Longrightarrow> w \<in> set ws \<Longrightarrow> find_worker (wk_target w) ws = Some w"
  by (induction ws) (auto, metis image_eqI)

lemma UpdateWorkers_targets:
  assumes "UpdateWorkers targets h = (h', started, stopped)"
  shows "map wk_target (hch_workers h') = targets"
proof -
  have "wk_target (case find_worker t (hch_workers h) of None \<Rightarrow> new_worker (hch_cfg h) t | Some w \<Rightarrow> w) = t"
    for t by (auto simp: new_worker_def dest: find_worker_Some split: option.split)
  then show ?thesis using assms by (auto simp: UpdateWorkers_def Let_def o_def intro: map_idI)
qed

end
