(* ===== verification/Counters.thy ===== *)
theory Counters
  imports Core
begin

text \<open>
  Package \<open>stats/counters\<close> (src/src/stats/counters): the bandwidth counter of one server or
  backend, and the pool of counters that follows the targets of the scheduler. Each branch of a
  counter's \<open>select\<close> loop is one operation here.
\<close>

record BandwidthStats =
  RxTotal :: uint64
  TxTotal :: uint64
  bs_RxSecond :: uint64
  bs_TxSecond :: uint64
  bs_Target :: Target

definition zero_bandwidth :: BandwidthStats where
  "zero_bandwidth = \<lparr>RxTotal = 0, TxTotal = 0, bs_RxSecond = 0, bs_TxSecond = 0,
     bs_Target = zero_target\<rparr>"

section \<open>One counter\<close>

text \<open>\<open>bc_seconds\<close> is \<open>uint64(interval.Seconds())\<close>.\<close>

record BandwidthCounter =
  bc_Stats :: BandwidthStats
  RxTotalLast :: uint64
  TxTotalLast :: uint64
  bc_seconds :: uint64
  newTxRx :: bool

definition INTERVAL :: uint64 where
  "INTERVAL = 2"

definition NewBandwidthCounter :: "uint64 \<Rightarrow> BandwidthCounter" where
  "NewBandwidthCounter seconds = \<lparr>bc_Stats = zero_bandwidth, RxTotalLast = 0, TxTotalLast = 0,
     bc_seconds = seconds, newTxRx = False\<rparr>"

text \<open>The ticker branch: the new counter; its \<open>bc_Stats\<close> is what is sent on \<open>Out\<close>.\<close>

definition counter_tick :: "BandwidthCounter \<Rightarrow> BandwidthCounter outcome" where
  "counter_tick c =
     (if \<not> newTxRx c then
        Ok (c\<lparr>bc_Stats := (bc_Stats c)\<lparr>bs_RxSecond := 0, bs_TxSecond := 0\<rparr>\<rparr>)
      else
        let dRx = RxTotal (bc_Stats c) - RxTotalLast c;
            dTx = TxTotal (bc_Stats c) - TxTotalLast c
        in if bc_seconds c = 0 then Panic
           else Ok (c\<lparr>bc_Stats := (bc_Stats c)\<lparr>bs_RxSecond := dRx div bc_seconds c,
                                             bs_TxSecond := dTx div bc_seconds c\<rparr>,
                     RxTotalLast := RxTotal (bc_Stats c), TxTotalLast := TxTotal (bc_Stats c),
                     newTxRx := False\<rparr>))"

definition counter_traffic :: "ReadWriteCount \<Rightarrow> BandwidthCounter \<Rightarrow> BandwidthCounter" where
  "counter_traffic rwc c = c\<lparr>newTxRx := True,
     bc_Stats := (bc_Stats c)\<lparr>RxTotal := RxTotal (bc_Stats c) + CountRead rwc,
                              TxTotal := TxTotal (bc_Stats c) + CountWrite rwc\<rparr>\<rparr>"

section \<open>The pool of counters\<close>

type_synonym counters = "Target \<rightharpoonup> BandwidthCounter"

definition target_counter :: "Target \<Rightarrow> BandwidthCounter" where
  "target_counter t = (let c = NewBandwidthCounter INTERVAL
     in c\<lparr>bc_Stats := (bc_Stats c)\<lparr>bs_Target := t\<rparr>\<rparr>)"

text \<open>
  \<open>UpdateCounters\<close>: keep or create a counter for every target, stop and forget the others. The
  second result holds the keys of the counters that are stopped.
\<close>

fun keep_counters :: "Target list \<Rightarrow> counters \<Rightarrow> counters \<Rightarrow> counters" where
  "keep_counters [] old result = result"
| "keep_counters (t # ts) old result =
     keep_counters ts old
       (result(t \<mapsto> (case old t of None \<Rightarrow> target_counter t | Some c \<Rightarrow> c)))"

definition UpdateCounters :: "Target list \<Rightarrow> counters \<Rightarrow> counters \<times> Target set" where
  "UpdateCounters targets cs =
     (keep_counters targets cs Map.empty,
      {t \<in> dom cs. \<not> list_ex (\<lambda>u. Target_EqualTo t u) targets})"

definition route_traffic :: "ReadWriteCount \<Rightarrow> counters \<Rightarrow> counters" where
  "route_traffic rwc cs =
     (case cs (rwc_Target rwc) of
        None \<Rightarrow> cs
      | Some c \<Rightarrow> cs(rwc_Target rwc \<mapsto> counter_traffic rwc c))"

section \<open>Lemmas: one counter\<close>

text \<open>
  What a counter is for: the totals, and the bytes since the last tick. The specification drops
  the \<open>newTxRx\<close> flag, which only saves work.
\<close>

datatype counter_event = CTick | CTraffic ReadWriteCount

fun counter_step :: "counter_event \<Rightarrow> BandwidthCounter \<Rightarrow> BandwidthCounter outcome" where
  "counter_step CTick c = counter_tick c"
| "counter_step (CTraffic rwc) c = Ok (counter_traffic rwc c)"

fun counter_run :: "counter_event list \<Rightarrow> BandwidthCounter \<Rightarrow> BandwidthCounter outcome" where
  "counter_run [] c = Ok c"
| "counter_run (e # es) c = bind_outcome (counter_step e c) (counter_run es)"

fun traffic_of :: "counter_event list \<Rightarrow> ReadWriteCount list" where
  "traffic_of [] = []"
| "traffic_of (CTick # es) = traffic_of es"
| "traffic_of (CTraffic rwc # es) = rwc # traffic_of es"

text \<open>The deltas after the last tick.\<close>

fun since_tick :: "ReadWriteCount list \<Rightarrow> counter_event list \<Rightarrow> ReadWriteCount list" where
  "since_tick acc [] = acc"
| "since_tick acc (CTick # es) = since_tick [] es"
| "since_tick acc (CTraffic rwc # es) = since_tick (acc @ [rwc]) es"

definition counter_inv :: "ReadWriteCount list \<Rightarrow> BandwidthCounter \<Rightarrow> bool" where
  "counter_inv acc c \<longleftrightarrow>
     RxTotal (bc_Stats c) = RxTotalLast c + sum_list (map CountRead acc) \<and>
     TxTotal (bc_Stats c) = TxTotalLast c + sum_list (map CountWrite acc) \<and>
     (acc \<noteq> [] \<longleftrightarrow> newTxRx c)"

lemma counter_tick_rates:
  assumes "counter_inv acc c" and "bc_seconds c \<noteq> 0"
  shows "\<exists>c'. counter_tick c = Ok c' \<and> counter_inv [] c' \<and> bc_seconds c' = bc_seconds c \<and>
    RxTotal (bc_Stats c') = RxTotal (bc_Stats c) \<and> TxTotal (bc_Stats c') = TxTotal (bc_Stats c) \<and>
    bs_Target (bc_Stats c') = bs_Target (bc_Stats c) \<and>
    bs_RxSecond (bc_Stats c') = sum_list (map CountRead acc) div bc_seconds c \<and>
    bs_TxSecond (bc_Stats c') = sum_list (map CountWrite acc) div bc_seconds c"
proof (cases "newTxRx c")
  case True
  then show ?thesis using assms by (simp add: counter_tick_def counter_inv_def Let_def)
next
  case False
  then have "acc = []" using assms(1) by (auto simp: counter_inv_def)
  then show ?thesis using assms False by (simp add: counter_tick_def counter_inv_def)
qed

lemma counter_traffic_inv:
  "counter_inv acc c \<Longrightarrow> counter_inv (acc @ [rwc]) (counter_traffic rwc c)"
  by (simp add: counter_inv_def counter_traffic_def add.assoc)

lemma counter_run_spec:
  assumes "counter_inv acc c" and "bc_seconds c \<noteq> 0"
  shows "\<exists>c'. counter_run es c = Ok c' \<and> counter_inv (since_tick acc es) c' \<and>
    bc_seconds c' = bc_seconds c \<and>
    RxTotal (bc_Stats c') = RxTotal (bc_Stats c) + sum_list (map CountRead (traffic_of es)) \<and>
    TxTotal (bc_Stats c') = TxTotal (bc_Stats c) + sum_list (map CountWrite (traffic_of es))"
  using assms
proof (induction es arbitrary: acc c)
  case (Cons e es)
  show ?case
  proof (cases e)
    case CTick
    obtain c' where "counter_tick c = Ok c'" "counter_inv [] c'" "bc_seconds c' = bc_seconds c"
      "RxTotal (bc_Stats c') = RxTotal (bc_Stats c)" "TxTotal (bc_Stats c') = TxTotal (bc_Stats c)"
      using counter_tick_rates [OF Cons.prems] by blast
    then show ?thesis using Cons.IH [of "[]" c'] Cons.prems CTick by auto
  next
    case (CTraffic rwc)
    have "bc_seconds (counter_traffic rwc c) = bc_seconds c" by (simp add: counter_traffic_def)
    moreover have "RxTotal (bc_Stats (counter_traffic rwc c)) = RxTotal (bc_Stats c) + CountRead rwc"
      "TxTotal (bc_Stats (counter_traffic rwc c)) = TxTotal (bc_Stats c) + CountWrite rwc"
      by (simp_all add: counter_traffic_def)
    ultimately show ?thesis
      using Cons.IH [OF counter_traffic_inv [OF Cons.prems(1), of rwc]] Cons.prems(2) CTraffic
      by (auto simp: add.assoc)
  qed
qed simp

lemma NewBandwidthCounter_inv: "counter_inv [] (NewBandwidthCounter s)"
  by (simp add: counter_inv_def NewBandwidthCounter_def zero_bandwidth_def)

section \<open>Lemmas: the pool\<close>

lemma keep_counters_spec:
  "keep_counters ts old result t =
    (if t \<in> set ts then Some (case old t of None \<Rightarrow> target_counter t | Some c \<Rightarrow> c) else result t)"
  by (induction ts arbitrary: result) auto

lemma UpdateCounters_spec:
  assumes "UpdateCounters ts cs = (cs', stopped)"
  shows "cs' t = (if t \<in> set ts then Some (case cs t of None \<Rightarrow> target_counter t | Some c \<Rightarrow> c) else None)"
    and "stopped = dom cs - set ts"
  using assms by (auto simp: UpdateCounters_def keep_counters_spec list_ex_iff)

end
