(* ===== verification/Scheduler.thy ===== *)
theory Scheduler
  imports Balance_Contract Healthcheck Counters
begin

text \<open>
  Package \<open>server/scheduler\<close> (src/src/server/scheduler/scheduler.go): one goroutine owns the map of
  backends and serves, one at a time, discovery results, health check results, bandwidth
  statistics, connection operations and elections. Each branch of its \<open>select\<close> is a handler
  here; the messages it sends on are the handler's effects. Go iterates over maps in an
  unspecified order, so a handler that iterates takes the order as an argument, and the step
  relation admits every order.
\<close>

type_synonym backends = "Target \<rightharpoonup> Backend"

record Scheduler =
  sch_Balancer :: Balancer
  sch_hc_cfg :: HealthcheckConfig
  sch_backends :: backends
  sch_running :: bool

datatype OpAction =
  IncrementConnection | DecrementConnection | IncrementRefused | IncrementTx | IncrementRx

record Op =
  op_target :: Target
  op_op :: OpAction
  op_param :: "uint64 option"

datatype sched_effect =
    HealthcheckIn "Target list"
  | CountersIn "Target list"
  | StatsBackends "Backend list"
  | Traffic ReadWriteCount
  | ElectResponse Backend
  | ElectErr string
  | DiscoveryStop
  | HealthcheckStop

section \<open>Operations on the statistics of one backend\<close>

definition with_stats :: "(BackendStats \<Rightarrow> BackendStats) \<Rightarrow> Backend \<Rightarrow> Backend" where
  "with_stats f b = b\<lparr>Stats := f (Stats b)\<rparr>"

definition set_discovered :: "bool \<Rightarrow> Backend \<Rightarrow> Backend" where
  "set_discovered d = with_stats (\<lambda>s. s\<lparr>Discovered := d\<rparr>)"

lemma with_stats_simps [simp]:
  "Target (with_stats f b) = Target b"
  "Stats (with_stats f b) = f (Stats b)"
  "MaxConnections (with_stats f b) = MaxConnections b"
  "Priority (with_stats f b) = Priority b"
  "Weight (with_stats f b) = Weight b"
  "Sni (with_stats f b) = Sni b"
  by (simp_all add: with_stats_def)

section \<open>The handlers\<close>

definition HandleBackendStatsChange :: "Target \<Rightarrow> BandwidthStats \<Rightarrow> backends \<Rightarrow> backends" where
  "HandleBackendStatsChange target bs m =
     (case m target of
        None \<Rightarrow> m
      | Some b \<Rightarrow> m(target \<mapsto> with_stats (\<lambda>s. s\<lparr>RxBytes := RxTotal bs, TxBytes := TxTotal bs,
                                   RxSecond := bs_RxSecond bs, TxSecond := bs_TxSecond bs\<rparr>) b))"

definition HandleBackendLiveChange :: "Target \<Rightarrow> bool \<Rightarrow> backends \<Rightarrow> backends" where
  "HandleBackendLiveChange target live m =
     (case m target of
        None \<Rightarrow> m
      | Some b \<Rightarrow> m(target \<mapsto> with_stats (\<lambda>s. s\<lparr>Live := live\<rparr>) b))"

text \<open>
  \<open>HandleBackendsUpdate\<close> in its three loops: forget who was discovered, merge or add what was
  discovered now, drop what is neither discovered nor in use.
\<close>

definition mark_undiscovered :: "backends \<Rightarrow> backends" where
  "mark_undiscovered m = (\<lambda>t. map_option (set_discovered False) (m t))"

definition discover_one :: "HealthcheckConfig \<Rightarrow> Backend \<Rightarrow> backends \<Rightarrow> backends outcome" where
  "discover_one cfg b m =
     (case m (Target b) of
        Some oldB \<Rightarrow> Ok (m(Target b \<mapsto> set_discovered True (MergeFrom oldB b)))
      | None \<Rightarrow>
          bind_outcome (InitialBackendHealthCheckStatus cfg) (\<lambda>st.
            Ok (m(Target b \<mapsto>
              with_stats (\<lambda>s. s\<lparr>Live := (st = Healthy)\<rparr>) (set_discovered True b)))))"

fun discover_all :: "HealthcheckConfig \<Rightarrow> Backend list \<Rightarrow> backends \<Rightarrow> backends outcome" where
  "discover_all cfg [] m = Ok m"
| "discover_all cfg (b # bs) m = bind_outcome (discover_one cfg b m) (discover_all cfg bs)"

definition in_use :: "Backend \<Rightarrow> bool" where
  "in_use b \<longleftrightarrow> Discovered (Stats b) \<or> ActiveConnections (Stats b) > 0"

definition remove_unused :: "backends \<Rightarrow> backends" where
  "remove_unused m = (\<lambda>t. case m t of Some b \<Rightarrow> if in_use b then Some b else None | None \<Rightarrow> None)"

definition HandleBackendsUpdate ::
    "HealthcheckConfig \<Rightarrow> Backend list \<Rightarrow> backends \<Rightarrow> backends outcome" where
  "HandleBackendsUpdate cfg bs m =
     bind_outcome (discover_all cfg bs (mark_undiscovered m)) (\<lambda>m. Ok (remove_unused m))"

definition Backends_snapshot :: "Target list \<Rightarrow> backends \<Rightarrow> Backend list" where
  "Backends_snapshot order m = List.map_filter m order"

definition electable :: "Backend \<Rightarrow> bool" where
  "electable b \<longleftrightarrow> Live (Stats b) \<and> Discovered (Stats b)"

definition elect_candidates :: "Target list \<Rightarrow> backends \<Rightarrow> Backend list" where
  "elect_candidates order m = filter electable (List.map_filter m order)"

text \<open>Dereferencing the nil pointer that a balancer may return panics.\<close>

definition HandleBackendElect ::
    "regexp \<Rightarrow> (goint \<Rightarrow> goint) \<Rightarrow> Target list \<Rightarrow> Context \<Rightarrow> Scheduler \<Rightarrow>
     (Scheduler \<times> sched_effect list) outcome" where
  "HandleBackendElect re rnd order ctx s =
     (case Balancer_Elect re rnd (sch_Balancer s) ctx (elect_candidates order (sch_backends s)) of
        (Ok (Some b), bal) \<Rightarrow> Ok (s\<lparr>sch_Balancer := bal\<rparr>, [ElectResponse b])
      | (Ok None, bal) \<Rightarrow> Panic
      | (Err e, bal) \<Rightarrow> Ok (s\<lparr>sch_Balancer := bal\<rparr>, [ElectErr e])
      | (Panic, bal) \<Rightarrow> Panic)"

definition apply_op :: "OpAction \<Rightarrow> BackendStats \<Rightarrow> BackendStats" where
  "apply_op a s = (case a of
       IncrementRefused \<Rightarrow> s\<lparr>RefusedConnections := RefusedConnections s + 1\<rparr>
     | IncrementConnection \<Rightarrow> s\<lparr>ActiveConnections := ActiveConnections s + 1,
                                TotalConnections := wrap64 (TotalConnections s + 1)\<rparr>
     | DecrementConnection \<Rightarrow> s\<lparr>ActiveConnections := ActiveConnections s - 1\<rparr>
     | _ \<Rightarrow> s)"

definition HandleOp :: "Op \<Rightarrow> backends \<Rightarrow> (backends \<times> sched_effect list) outcome" where
  "HandleOp op m =
     (case op_op op of
        IncrementTx \<Rightarrow> (case op_param op of None \<Rightarrow> Panic
          | Some c \<Rightarrow> Ok (m, [Traffic \<lparr>CountRead = 0, CountWrite = c, rwc_Target = op_target op\<rparr>]))
      | IncrementRx \<Rightarrow> (case op_param op of None \<Rightarrow> Panic
          | Some c \<Rightarrow> Ok (m, [Traffic \<lparr>CountRead = c, CountWrite = 0, rwc_Target = op_target op\<rparr>]))
      | a \<Rightarrow> (case m (op_target op) of None \<Rightarrow> Ok (m, [])
          | Some b \<Rightarrow> Ok (m(op_target op \<mapsto> with_stats (apply_op a) b), [])))"

text \<open>The methods that other goroutines call; each sends one operation.\<close>

definition Scheduler_IncrementRefused :: "Backend \<Rightarrow> Op" where
  "Scheduler_IncrementRefused b = \<lparr>op_target = Target b, op_op = IncrementRefused, op_param = None\<rparr>"

definition Scheduler_IncrementConnection :: "Backend \<Rightarrow> Op" where
  "Scheduler_IncrementConnection b =
     \<lparr>op_target = Target b, op_op = IncrementConnection, op_param = None\<rparr>"

definition Scheduler_DecrementConnection :: "Backend \<Rightarrow> Op" where
  "Scheduler_DecrementConnection b =
     \<lparr>op_target = Target b, op_op = DecrementConnection, op_param = None\<rparr>"

definition Scheduler_IncrementRx :: "Backend \<Rightarrow> uint64 \<Rightarrow> Op" where
  "Scheduler_IncrementRx b c = \<lparr>op_target = Target b, op_op = IncrementRx, op_param = Some c\<rparr>"

definition Scheduler_IncrementTx :: "Backend \<Rightarrow> uint64 \<Rightarrow> Op" where
  "Scheduler_IncrementTx b c = \<lparr>op_target = Target b, op_op = IncrementTx, op_param = Some c\<rparr>"

section \<open>The goroutine\<close>

datatype sched_event =
    EvDiscovered "Backend list"
  | EvCheckResult CheckResult
  | EvPush
  | EvStats BandwidthStats
  | EvOp Op
  | EvElect Context
  | EvStop

definition Scheduler_start :: "Balancer \<Rightarrow> HealthcheckConfig \<Rightarrow> Scheduler" where
  "Scheduler_start bal cfg = \<lparr>sch_Balancer = bal, sch_hc_cfg = cfg, sch_backends = Map.empty,
     sch_running = True\<rparr>"

text \<open>
  One turn of the loop. \<open>order\<close> is the order of the map iteration of this turn: the keys of the
  map it iterates over, each once; \<open>order'\<close> is that of the second iteration, after an update.
\<close>

definition sched_handle ::
    "regexp \<Rightarrow> (goint \<Rightarrow> goint) \<Rightarrow> Target list \<Rightarrow> Target list \<Rightarrow> sched_event \<Rightarrow> Scheduler \<Rightarrow>
     (Scheduler \<times> sched_effect list) outcome" where
  "sched_handle re rnd order order' ev s =
     (case ev of
        EvStop \<Rightarrow> Ok (s\<lparr>sch_running := False\<rparr>, [DiscoveryStop, HealthcheckStop])
      | EvDiscovered bs \<Rightarrow>
          bind_outcome (HandleBackendsUpdate (sch_hc_cfg s) bs (sch_backends s))
            (\<lambda>m. Ok (s\<lparr>sch_backends := m\<rparr>, [HealthcheckIn order, CountersIn order']))
      | EvCheckResult r \<Rightarrow>
          Ok (s\<lparr>sch_backends := HandleBackendLiveChange (cr_Target r) (cr_Status r = Healthy)
                (sch_backends s)\<rparr>, [])
      | EvPush \<Rightarrow> Ok (s, [StatsBackends (Backends_snapshot order (sch_backends s))])
      | EvStats bs \<Rightarrow>
          Ok (s\<lparr>sch_backends := HandleBackendStatsChange (bs_Target bs) bs (sch_backends s)\<rparr>, [])
      | EvOp op \<Rightarrow>
          bind_outcome (HandleOp op (sch_backends s)) (\<lambda>(m, effs). Ok (s\<lparr>sch_backends := m\<rparr>, effs))
      | EvElect ctx \<Rightarrow> HandleBackendElect re rnd order ctx s)"

definition iteration_order :: "Target list \<Rightarrow> backends \<Rightarrow> bool" where
  "iteration_order order m \<longleftrightarrow> distinct order \<and> set order = dom m"

text \<open>The targets are sent after the update, so their order is one of the new map's.\<close>

inductive sched_step ::
    "regexp \<Rightarrow> Scheduler \<Rightarrow> sched_event \<Rightarrow> Scheduler \<Rightarrow> sched_effect list \<Rightarrow> bool" for re where
  step: "sch_running s \<Longrightarrow> intn_range rnd \<Longrightarrow> sched_handle re rnd order order' ev s = Ok (s', effs) \<Longrightarrow>
    iteration_order order (sch_backends s') \<Longrightarrow> iteration_order order' (sch_backends s') \<Longrightarrow> sched_step re s ev s' effs"

inductive_simps sched_step_iff: "sched_step re s ev s' effs"

inductive sched_run :: "regexp \<Rightarrow> Scheduler \<Rightarrow> sched_event list \<Rightarrow> Scheduler \<Rightarrow> bool" for re where
  run_start: "sched_run re s [] s"
| run_step: "sched_run re s evs s' \<Longrightarrow> sched_step re s' ev s'' effs \<Longrightarrow>
    sched_run re s (evs @ [ev]) s''"

end
