(* ===== verification/Scheduler_Correct.thy ===== *)
theory Scheduler_Correct
  imports Scheduler
begin

text \<open>
  Correctness of the scheduler: a closed description of the discovery update, the invariant of
  the map of backends, the accounting of open connections over whole runs, and what an election
  may return.
\<close>

section \<open>The discovery update\<close>

definition initial_live :: "HealthcheckConfig \<Rightarrow> bool" where
  "initial_live cfg \<longleftrightarrow> InitialBackendHealthCheckStatus cfg = Ok Healthy"

definition initial_status_valid :: "HealthcheckConfig \<Rightarrow> bool" where
  "initial_status_valid cfg \<longleftrightarrow> InitialBackendHealthCheckStatus cfg \<noteq> Panic"

lemma initial_status_cases:
  "initial_status_valid cfg \<Longrightarrow>
   \<exists>st. InitialBackendHealthCheckStatus cfg = Ok st \<and> (st = Healthy) = initial_live cfg"
  by (auto simp: initial_status_valid_def initial_live_def InitialBackendHealthCheckStatus_def
      split: option.splits if_splits)

text \<open>What becomes of a discovered backend, given what was tracked under its target.\<close>

definition merged :: "HealthcheckConfig \<Rightarrow> Backend option \<Rightarrow> Backend \<Rightarrow> Backend" where
  "merged cfg old b = (case old of
       Some oldB \<Rightarrow> set_discovered True (MergeFrom oldB b)
     | None \<Rightarrow> with_stats (\<lambda>s. s\<lparr>Discovered := True, Live := initial_live cfg\<rparr>) b)"

lemma merged_simps [simp]:
  "Target (merged cfg None b) = Target b"
  "Target (merged cfg (Some oldB) b) = Target oldB"
  "Discovered (Stats (merged cfg old b))"
  "ActiveConnections (Stats (merged cfg (Some oldB) b)) = ActiveConnections (Stats oldB)"
  "ActiveConnections (Stats (merged cfg None b)) = ActiveConnections (Stats b)"
  by (auto simp: merged_def set_discovered_def split: option.split)

lemma discover_one_eq:
  "initial_status_valid cfg \<Longrightarrow>
   discover_one cfg b m = Ok (m(Target b \<mapsto> merged cfg (m (Target b)) b))"
  using initial_status_cases [of cfg]
  by (auto simp: discover_one_def merged_def set_discovered_def with_stats_def split: option.split)

lemma discover_all_ok:
  assumes "initial_status_valid cfg"
  shows "\<exists>m'. discover_all cfg bs m = Ok m' \<and>
    (\<forall>t. t \<notin> Target ` set bs \<longrightarrow> m' t = m t) \<and>
    (distinct (map Target bs) \<longrightarrow> (\<forall>b\<in>set bs. m' (Target b) = Some (merged cfg (m (Target b)) b)))"
proof (induction bs arbitrary: m)
  case (Cons b bs)
  let ?m = "m(Target b \<mapsto> merged cfg (m (Target b)) b)"
  from Cons [of ?m] obtain m' where m': "discover_all cfg bs ?m = Ok m'"
    "\<forall>t. t \<notin> Target ` set bs \<longrightarrow> m' t = ?m t"
    "distinct (map Target bs) \<Longrightarrow> \<forall>c\<in>set bs. m' (Target c) = Some (merged cfg (?m (Target c)) c)"
    by blast
  have "discover_all cfg (b # bs) m = Ok m'"
    using m'(1) assms by (simp add: discover_one_eq)
  moreover have "\<forall>c\<in>set (b # bs). m' (Target c) = Some (merged cfg (m (Target c)) c)"
    if "distinct (map Target (b # bs))"
  proof
    fix c assume "c \<in> set (b # bs)"
    then show "m' (Target c) = Some (merged cfg (m (Target c)) c)"
    proof (cases "c = b")
      case True
      then show ?thesis using m'(2) that by auto
    next
      case False
      then have c: "c \<in> set bs" using \<open>c \<in> set (b # bs)\<close> by simp
      then have "Target c \<noteq> Target b" using that by (auto simp: rev_image_eqI)
      then show ?thesis using m'(3) that c by simp
    qed
  qed
  ultimately show ?case using m'(2) by auto
qed simp

text \<open>
  The discovery update, target by target: a discovered backend is merged or added, an
  undiscovered one stays while it has open connections, everything else goes.
\<close>

definition update_spec :: "HealthcheckConfig \<Rightarrow> Backend list \<Rightarrow> backends \<Rightarrow> backends" where
  "update_spec cfg bs m t =
     (case map_of (map (\<lambda>b. (Target b, b)) bs) t of
        Some b \<Rightarrow> Some (merged cfg (m t) b)
      | None \<Rightarrow> (case m t of
            Some old \<Rightarrow> if ActiveConnections (Stats old) > 0 then Some (set_discovered False old) else None
          | None \<Rightarrow> None))"

lemma merged_mark: "merged cfg (map_option (set_discovered False) old) b = merged cfg old b"
  by (cases old) (auto simp: merged_def set_discovered_def with_stats_def MergeFrom_def)

lemma map_of_targets:
  "map_of (map (\<lambda>b. (Target b, b)) bs) t = None \<longleftrightarrow> t \<notin> Target ` set bs"
  "map_of (map (\<lambda>b. (Target b, b)) bs) t = Some b \<Longrightarrow> b \<in> set bs \<and> Target b = t"
  by (auto simp: map_of_eq_None_iff image_image dest: map_of_SomeD)

lemma HandleBackendsUpdate_spec:
  assumes "initial_status_valid cfg" and "distinct (map Target bs)"
  shows "HandleBackendsUpdate cfg bs m = Ok (update_spec cfg bs m)"
proof -
  obtain m' where m': "discover_all cfg bs (mark_undiscovered m) = Ok m'"
    "\<And>t. t \<notin> Target ` set bs \<Longrightarrow> m' t = mark_undiscovered m t"
    "\<And>b. b \<in> set bs \<Longrightarrow> m' (Target b) = Some (merged cfg (mark_undiscovered m (Target b)) b)"
    using discover_all_ok [OF assms(1), of bs "mark_undiscovered m"] assms(2) by blast
  have "remove_unused m' t = update_spec cfg bs m t" for t
  proof (cases "map_of (map (\<lambda>b. (Target b, b)) bs) t")
    case None
    then have "m' t = map_option (set_discovered False) (m t)"
      using m'(2) by (simp add: map_of_targets(1) mark_undiscovered_def)
    then show ?thesis using None
      by (cases "m t") (simp_all add: remove_unused_def update_spec_def in_use_def set_discovered_def)
  next
    case (Some b)
    then have "m' t = Some (merged cfg (m t) b)"
      using m'(3) [of b] map_of_targets(2) [OF Some] by (auto simp: mark_undiscovered_def merged_mark)
    then show ?thesis using Some by (simp add: remove_unused_def update_spec_def in_use_def)
  qed
  then show ?thesis using m'(1) by (simp add: HandleBackendsUpdate_def fun_eq_iff)
qed

text \<open>The three loops on maps given as updates, for evaluating concrete runs.\<close>

lemma mark_undiscovered_simps [simp]:
  "mark_undiscovered Map.empty = Map.empty"
  "mark_undiscovered (m(t \<mapsto> b)) = (mark_undiscovered m)(t \<mapsto> set_discovered False b)"
  by (auto simp: mark_undiscovered_def)

lemma remove_unused_simps [simp]:
  "remove_unused Map.empty = Map.empty"
  "in_use b \<Longrightarrow> remove_unused (m(t \<mapsto> b)) = (remove_unused m)(t \<mapsto> b)"
  "\<not> in_use b \<Longrightarrow> remove_unused (m(t \<mapsto> b)) = (remove_unused m)(t := None)"
  by (auto simp: remove_unused_def)

section \<open>The invariant of the map\<close>

definition wf_backends :: "backends \<Rightarrow> bool" where
  "wf_backends m \<longleftrightarrow> finite (dom m) \<and> (\<forall>t b. m t = Some b \<longrightarrow> Target b = t)"

lemma wf_backends_upd:
  "wf_backends m \<Longrightarrow> Target b = t \<Longrightarrow> wf_backends (m(t \<mapsto> b))"
  by (auto simp: wf_backends_def)

lemma wf_mark: "wf_backends m \<Longrightarrow> wf_backends (mark_undiscovered m)"
  by (auto simp: wf_backends_def mark_undiscovered_def set_discovered_def dom_def)

lemma wf_remove: "wf_backends m \<Longrightarrow> wf_backends (remove_unused m)"
proof -
  assume "wf_backends m"
  moreover have "dom (remove_unused m) \<subseteq> dom m"
    by (auto simp: remove_unused_def split: option.splits if_splits)
  ultimately show ?thesis
    by (auto simp: wf_backends_def remove_unused_def finite_subset split: option.splits if_splits)
qed

lemma wf_discover_one: "discover_one cfg b m = Ok m' \<Longrightarrow> wf_backends m \<Longrightarrow> wf_backends m'"
  by (auto simp: discover_one_def set_discovered_def bind_outcome_Ok_iff wf_backends_def
      MergeFrom_def split: option.splits if_splits)

lemma wf_discover_all: "discover_all cfg bs m = Ok m' \<Longrightarrow> wf_backends m \<Longrightarrow> wf_backends m'"
  by (induction bs arbitrary: m) (auto dest: wf_discover_one)

lemma wf_HandleBackendsUpdate:
  "HandleBackendsUpdate cfg bs m = Ok m' \<Longrightarrow> wf_backends m \<Longrightarrow> wf_backends m'"
  by (auto simp: HandleBackendsUpdate_def intro!: wf_remove elim!: wf_discover_all intro: wf_mark)

lemma wf_HandleOp: "HandleOp op m = Ok (m', effs) \<Longrightarrow> wf_backends m \<Longrightarrow> wf_backends m'"
  by (auto simp: HandleOp_def intro!: wf_backends_upd split: OpAction.splits option.splits)
    (auto simp: wf_backends_def)

lemma wf_HandleBackendLiveChange:
  "wf_backends m \<Longrightarrow> wf_backends (HandleBackendLiveChange t l m)"
  by (auto simp: HandleBackendLiveChange_def wf_backends_def split: option.splits)

lemma wf_HandleBackendStatsChange:
  "wf_backends m \<Longrightarrow> wf_backends (HandleBackendStatsChange t bs m)"
  by (auto simp: HandleBackendStatsChange_def wf_backends_def split: option.splits)

lemma HandleBackendElect_backends:
  "HandleBackendElect re rnd order ctx s = Ok (s', effs) \<Longrightarrow>
   sch_backends s' = sch_backends s \<and> sch_hc_cfg s' = sch_hc_cfg s \<and> sch_running s' = sch_running s"
  by (auto simp: HandleBackendElect_def split: prod.splits outcome.splits option.splits)

lemma sched_handle_wf:
  assumes "sched_handle re rnd order order' ev s = Ok (s', effs)" and "wf_backends (sch_backends s)"
  shows "wf_backends (sch_backends s')"
  using assms
  by (cases ev)
    (auto simp: sched_handle_def intro: wf_HandleBackendsUpdate wf_HandleBackendLiveChange
      wf_HandleBackendStatsChange dest: wf_HandleOp HandleBackendElect_backends)

lemma sched_run_wf: "sched_run re s evs s' \<Longrightarrow> wf_backends (sch_backends s) \<Longrightarrow> wf_backends (sch_backends s')"
  by (induction rule: sched_run.induct) (auto simp: sched_step_iff dest: sched_handle_wf)

lemma wf_Scheduler_start [simp]: "wf_backends (sch_backends (Scheduler_start bal cfg))"
  by (simp add: wf_backends_def Scheduler_start_def)

section \<open>Elections\<close>

lemma elect_candidates_set:
  assumes "iteration_order order m"
  shows "b \<in> set (elect_candidates order m) \<longleftrightarrow> electable b \<and> b \<in> ran m"
proof -
  have "set (List.map_filter m order) = ran m"
  proof (intro set_eqI iffI)
    fix b assume "b \<in> set (List.map_filter m order)"
    then show "b \<in> ran m" by (auto simp: map_filter_def ran_def)
  next
    fix b assume "b \<in> ran m"
    then obtain t where t: "m t = Some b" by (auto simp: ran_def)
    then have "t \<in> set order" using assms by (auto simp: iteration_order_def)
    then show "b \<in> set (List.map_filter m order)"
      using t by (auto simp: map_filter_def intro!: rev_image_eqI [of t])
  qed
  then show ?thesis by (auto simp: elect_candidates_def)
qed

lemma HandleBackendElect_response:
  assumes "HandleBackendElect re rnd order ctx s = Ok (s', effs)" and "ElectResponse b \<in> set effs"
  shows "fst (Balancer_Elect re rnd (sch_Balancer s) ctx (elect_candidates order (sch_backends s))) = Ok (Some b)"
  using assms by (auto simp: HandleBackendElect_def split: prod.splits outcome.splits option.splits)

lemma HandleBackendElect_elected:
  assumes "HandleBackendElect re rnd order ctx s = Ok (s', effs)" and "ElectResponse b \<in> set effs"
    and "intn_range rnd" and "iteration_order order (sch_backends s)"
  shows "b \<in> ran (sch_backends s) \<and> electable b \<and> \<not> limit_reached b \<and>
    (\<forall>conf. bal_SniConf (sch_Balancer s) = Some conf \<longrightarrow>
       sni_routed re conf ctx (elect_candidates order (sch_backends s)) b)"
proof -
  have "fst (Stack_Elect re (bal_SniConf (sch_Balancer s)) (bal_kind (sch_Balancer s)) rnd
      (bal_current (sch_Balancer s)) ctx (elect_candidates order (sch_backends s))) = Ok (Some b)"
    using HandleBackendElect_response [OF assms(1,2)] by (simp add: Balancer_Elect_eq)
  from stack_elected [OF assms(3) this] show ?thesis
    using elect_candidates_set [OF assms(4)] by blast
qed

lemma sched_step_elected:
  assumes "sched_step re s (EvElect ctx) s' effs" and "ElectResponse b \<in> set effs"
  shows "\<exists>order. iteration_order order (sch_backends s) \<and> b \<in> ran (sch_backends s) \<and> electable b \<and>
    \<not> limit_reached b \<and> (\<forall>conf. bal_SniConf (sch_Balancer s) = Some conf \<longrightarrow>
       sni_routed re conf ctx (elect_candidates order (sch_backends s)) b)"
proof -
  obtain rnd order order' where h: "intn_range rnd"
    "sched_handle re rnd order order' (EvElect ctx) s = Ok (s', effs)"
    "iteration_order order (sch_backends s')"
    using assms(1) by (auto simp: sched_step_iff)
  then have e: "HandleBackendElect re rnd order ctx s = Ok (s', effs)" by (simp add: sched_handle_def)
  with h(3) have "iteration_order order (sch_backends s)" using HandleBackendElect_backends by metis
  with HandleBackendElect_elected [OF e assms(2) h(1)] show ?thesis by blast
qed

section \<open>The accounting of open connections\<close>

definition active :: "backends \<Rightarrow> Target \<Rightarrow> nat" where
  "active m t = (case m t of None \<Rightarrow> 0 | Some b \<Rightarrow> unat (ActiveConnections (Stats b)))"

lemma active_upd [simp]:
  "active (m(t \<mapsto> b)) = (active m)(t := unat (ActiveConnections (Stats b)))"
  by (auto simp: active_def)

lemma active_tracked: "m t = Some b \<Longrightarrow> active m t = unat (ActiveConnections (Stats b))"
  "m t = None \<Longrightarrow> active m t = 0"
  by (auto simp: active_def)

lemma active_mark [simp]: "active (mark_undiscovered m) = active m"
  by (auto simp: active_def mark_undiscovered_def set_discovered_def split: option.split)

lemma active_remove [simp]: "active (remove_unused m) = active m"
  by (rule ext)
    (auto simp: active_def remove_unused_def in_use_def word_gt_0 split: option.split)

lemma active_discover_one:
  assumes "discover_one cfg b m = Ok m'" and "ActiveConnections (Stats b) = 0"
  shows "active m' = active m"
  using assms
  by (auto simp: discover_one_def set_discovered_def active_tracked intro!: fun_upd_idem
      split: option.splits)

lemma active_discover_all:
  "discover_all cfg bs m = Ok m' \<Longrightarrow> \<forall>b\<in>set bs. ActiveConnections (Stats b) = 0 \<Longrightarrow> active m' = active m"
  by (induction bs arbitrary: m) (auto dest: active_discover_one)

lemma active_HandleBackendsUpdate:
  "HandleBackendsUpdate cfg bs m = Ok m' \<Longrightarrow> \<forall>b\<in>set bs. ActiveConnections (Stats b) = 0 \<Longrightarrow>
   active m' = active m"
  by (auto simp: HandleBackendsUpdate_def dest: active_discover_all)

lemma active_HandleBackendLiveChange [simp]: "active (HandleBackendLiveChange t l m) = active m"
  by (auto simp: active_def HandleBackendLiveChange_def split: option.split)

lemma active_HandleBackendStatsChange [simp]: "active (HandleBackendStatsChange t bs m) = active m"
  by (auto simp: active_def HandleBackendStatsChange_def split: option.split)

text \<open>What an operation adds to the open connections of a target, and the sum over a run.\<close>

definition op_delta :: "Target \<Rightarrow> sched_event \<Rightarrow> int" where
  "op_delta t ev = (case ev of
       EvOp op \<Rightarrow> (if op_target op = t then
           (case op_op op of IncrementConnection \<Rightarrow> 1 | DecrementConnection \<Rightarrow> -1 | _ \<Rightarrow> 0) else 0)
     | _ \<Rightarrow> 0)"

definition conn_balance :: "Target \<Rightarrow> sched_event list \<Rightarrow> int" where
  "conn_balance t evs = (\<Sum>ev\<leftarrow>evs. op_delta t ev)"

lemma conn_balance_simps [simp]:
  "conn_balance t [] = 0"
  "conn_balance t (evs @ [ev]) = conn_balance t evs + op_delta t ev"
  by (simp_all add: conn_balance_def)

text \<open>
  How the rest of the program uses the scheduler: discovery reports backends with zeroed
  counters, a connection is registered while its backend is tracked, and released once after
  it was registered.
\<close>

definition proper_event :: "backends \<Rightarrow> sched_event list \<Rightarrow> sched_event \<Rightarrow> bool" where
  "proper_event m evs ev = (case ev of
       EvDiscovered bs \<Rightarrow> (\<forall>b\<in>set bs. ActiveConnections (Stats b) = 0)
     | EvOp op \<Rightarrow> (case op_op op of
           IncrementConnection \<Rightarrow> m (op_target op) \<noteq> None \<and> conn_balance (op_target op) evs < 2 ^ 64 - 1
         | DecrementConnection \<Rightarrow> conn_balance (op_target op) evs > 0
         | _ \<Rightarrow> True)
     | _ \<Rightarrow> True)"

inductive proper_run :: "regexp \<Rightarrow> Scheduler \<Rightarrow> sched_event list \<Rightarrow> Scheduler \<Rightarrow> bool" for re s where
  proper_start: "proper_run re s [] s"
| proper_step: "proper_run re s evs s' \<Longrightarrow> proper_event (sch_backends s') evs ev \<Longrightarrow>
    sched_step re s' ev s'' effs \<Longrightarrow> proper_run re s (evs @ [ev]) s''"

lemma active_HandleOp_other:
  assumes "HandleOp op m = Ok (m', effs)"
    and "op_op op \<noteq> IncrementConnection" and "op_op op \<noteq> DecrementConnection"
  shows "active m' = active m"
  using assms
  by (auto simp: HandleOp_def apply_op_def active_tracked intro!: fun_upd_idem
      split: OpAction.splits option.splits)

lemma active_HandleOp:
  assumes "HandleOp op m = Ok (m', effs)" and "proper_event m evs (EvOp op)"
    and "\<And>u. int (active m u) = conn_balance u evs"
  shows "int (active m' t) = conn_balance t evs + op_delta t (EvOp op)"
proof (cases "op_op op")
  case IncrementConnection
  then obtain b where b: "m (op_target op) = Some b"
    "m' = m(op_target op \<mapsto> with_stats (apply_op IncrementConnection) b)"
    "conn_balance (op_target op) evs < 2 ^ 64 - 1"
    using assms(1,2) by (auto simp: proper_event_def HandleOp_def)
  have "int (unat (ActiveConnections (Stats b))) = conn_balance (op_target op) evs"
    using assms(3) [of "op_target op"] active_tracked(1) [of m "op_target op", OF b(1)] by metis
  then have "int (unat (ActiveConnections (Stats b))) < int 18446744073709551615"
    using b(3) by (simp only:) simp
  then have "unat (ActiveConnections (Stats b)) < 18446744073709551615"
    unfolding of_nat_less_iff .
  then have "unat (ActiveConnections (Stats b) + 1) = unat (ActiveConnections (Stats b)) + 1"
    by (simp add: unat_word_ariths)
  then show ?thesis using b IncrementConnection assms(3) [of t]
    by (auto simp: active_def op_delta_def apply_op_def)
next
  case DecrementConnection
  then have pos: "conn_balance (op_target op) evs > 0" using assms(2) by (simp add: proper_event_def)
  then obtain b where b: "m (op_target op) = Some b"
    using assms(3) [of "op_target op"] by (auto simp: active_def split: option.splits)
  then have m': "m' = m(op_target op \<mapsto> with_stats (apply_op DecrementConnection) b)"
    using assms(1) DecrementConnection by (simp add: HandleOp_def)
  have "ActiveConnections (Stats b) \<noteq> 0"
    using pos b assms(3) [of "op_target op"] by (auto simp: active_def)
  then have "unat (ActiveConnections (Stats b) - 1) = unat (ActiveConnections (Stats b)) - 1"
    and "unat (ActiveConnections (Stats b)) > 0"
    by (auto simp: unat_minus_one unat_gt_0)
  then show ?thesis using b m' DecrementConnection assms(3) [of t]
    by (auto simp: active_def op_delta_def apply_op_def)
qed (use active_HandleOp_other [OF assms(1)] assms(3) [of t] in \<open>simp_all add: op_delta_def\<close>)

lemma active_sched_step:
  assumes "sched_step re s ev s' effs" and "proper_event (sch_backends s) evs ev"
    and "\<And>u. int (active (sch_backends s) u) = conn_balance u evs"
  shows "int (active (sch_backends s') t) = conn_balance t evs + op_delta t ev"
proof -
  obtain rnd order order' where h: "sched_handle re rnd order order' ev s = Ok (s', effs)"
    using assms(1) by (auto simp: sched_step_iff)
  show ?thesis
  proof (cases ev)
    case (EvOp op)
    then obtain m' effs' where "HandleOp op (sch_backends s) = Ok (m', effs')" "sch_backends s' = m'"
      using h by (auto simp: sched_handle_def)
    then show ?thesis using active_HandleOp assms(2,3) EvOp by blast
  next
    case (EvDiscovered bs)
    then show ?thesis using h assms(2,3)
      by (auto simp: sched_handle_def proper_event_def op_delta_def dest!: active_HandleBackendsUpdate)
  next
    case (EvElect ctx)
    then show ?thesis using h assms(3)
      by (auto simp: sched_handle_def op_delta_def dest!: HandleBackendElect_backends)
  qed (use h assms(3) in \<open>auto simp: sched_handle_def op_delta_def\<close>)
qed

lemma active_proper_run:
  assumes "proper_run re (Scheduler_start bal cfg) evs s"
  shows "int (active (sch_backends s) t) = conn_balance t evs"
  using assms
proof (induction arbitrary: t rule: proper_run.induct)
  case proper_start
  then show ?case by (simp add: active_def Scheduler_start_def)
next
  case (proper_step evs s' ev s'' effs)
  then show ?case using active_sched_step [of re s' ev s'' effs evs t] by simp
qed

section \<open>The end of a run\<close>

lemma running_step:
  "sched_handle re rnd order order' ev s = Ok (s', effs) \<Longrightarrow> sch_running s \<Longrightarrow> sch_running s' \<longleftrightarrow> ev \<noteq> EvStop"
  by (cases ev) (auto simp: sched_handle_def bind_outcome_Ok_iff dest: HandleBackendElect_backends)

end
