(* ===== verification/Scheduler_Properties.thy ===== *)
theory Scheduler_Properties
  imports Scheduler_Correct Balance_Properties
begin

text \<open>
  The properties of the scheduler, with concrete runs of its goroutine.
\<close>

section \<open>Concrete runs\<close>

abbreviation host_1 :: Backend where "host_1 \<equiv> sample_backend ''10.0.0.1'' 1 1 1 0"
abbreviation target_1 :: Target where "target_1 \<equiv> sample_target ''10.0.0.1''"

definition sample_balancer :: Balancer where
  "sample_balancer = \<lparr>bal_kind = LeastconnBalancer, bal_current = 0, bal_SniConf = None\<rparr>"

text \<open>
  The scheduler that tracks one backend, live and discovered, with \<open>n\<close> open connections out of
  \<open>k\<close>, and the scheduler that tracks none.
\<close>

definition tracked_host :: "uint64 \<Rightarrow> goint \<Rightarrow> Backend" where
  "tracked_host n k = \<lparr>Target = target_1, Priority = 1, Weight = 1, MaxConnections = 1, Sni = [],
     Stats = \<lparr>Live = True, Discovered = True, TotalConnections = k, ActiveConnections = n,
       RefusedConnections = 0, RxBytes = 0, TxBytes = 0, RxSecond = 0, TxSecond = 0\<rparr>\<rparr>"

definition tracking :: "uint64 \<Rightarrow> goint \<Rightarrow> Scheduler" where
  "tracking n k = (Scheduler_start sample_balancer sample_healthcheck)\<lparr>sch_backends :=
     [target_1 \<mapsto> tracked_host n k]\<rparr>"

abbreviation idle :: Scheduler where
  "idle \<equiv> Scheduler_start sample_balancer sample_healthcheck"

lemma tracking_simps [simp]:
  "sch_backends (tracking n k) = [target_1 \<mapsto> tracked_host n k]" "sch_running (tracking n k)"
  by (simp_all add: tracking_def Scheduler_start_def)

lemma tracked_host_simps [simp]:
  "Target (tracked_host n k) = target_1" "MaxConnections (tracked_host n k) = 1"
  "ActiveConnections (Stats (tracked_host n k)) = n" "Live (Stats (tracked_host n k))"
  "Discovered (Stats (tracked_host n k))"
  by (simp_all add: tracked_host_def)

lemma iteration_orders [simp]:
  "iteration_order [] Map.empty" "iteration_order [t] [t \<mapsto> b]"
  by (simp_all add: iteration_order_def)

lemmas sched_eval = sched_handle_def HandleBackendsUpdate_def discover_one_def set_discovered_def
  InitialBackendHealthCheckStatus_def HasCheck_def sample_healthcheck_def in_use_def HandleOp_def
  apply_op_def Scheduler_IncrementConnection_def Scheduler_DecrementConnection_def
  Scheduler_start_def tracking_def tracked_host_def with_stats_def sample_backend_def zero_stats_def

lemma step_discover: "\<exists>effs. sched_step re idle (EvDiscovered [host_1]) (tracking 0 0) effs"
  by (intro exI, rule sched_step.step [of _ "\<lambda>n. 0" _ "[target_1]" "[target_1]"])
    (simp_all add: sched_eval wrap64_nonneg)

lemma step_forget: "\<exists>effs. sched_step re (tracking 0 k) (EvDiscovered []) idle effs"
  by (intro exI, rule sched_step.step [of _ "\<lambda>n. 0" _ "[]" "[]"])
    (simp_all add: sched_eval wrap64_nonneg)

lemma step_increment:
  "k < 2 ^ 63 - 1 \<Longrightarrow> 0 \<le> k \<Longrightarrow>
   sched_step re (tracking n k) (EvOp (Scheduler_IncrementConnection host_1)) (tracking (n + 1) (k + 1)) []"
  by (rule sched_step.step [of _ "\<lambda>n. 0" _ "[target_1]" "[target_1]"])
    (simp_all add: sched_eval wrap64_nonneg)

lemma step_increment_untracked:
  "sched_step re idle (EvOp (Scheduler_IncrementConnection host_1)) idle []"
  by (rule sched_step.step [of _ "\<lambda>n. 0" _ "[]" "[]"])
    (simp_all add: sched_eval)

lemma step_decrement:
  "sched_step re (tracking n k) (EvOp (Scheduler_DecrementConnection host_1)) (tracking (n - 1) k) []"
  by (rule sched_step.step [of _ "\<lambda>n. 0" _ "[target_1]" "[target_1]"])
    (simp_all add: sched_eval wrap64_nonneg)

text \<open>While no connection is open yet, an election returns the one backend.\<close>

lemma step_elect:
  "sched_step re (tracking 0 k) (EvElect sample_context) (tracking 0 k)
     [ElectResponse (tracked_host 0 k)]"
  by (rule sched_step.step [of _ "\<lambda>n. 0" _ "[target_1]" "[target_1]"])
    (simp_all add: tracking_def sched_handle_def HandleBackendElect_def elect_candidates_def
      map_filter_def electable_def Scheduler_start_def sample_balancer_def Balancer_Elect_def
      Stack_Elect_def MaxConnectionsMiddleware_Elect_def limit_reached_def LeastconnBalancer_Elect_def)

section \<open>Discovery\<close>

text \<open>C4: A discovery result updates the map target by target: a discovered backend is merged into
  the tracked one or added with the initial health status, a backend that is no longer
  discovered stays, undiscovered, while it has open connections, and everything else goes.\<close>

theorem discovery_update:
  assumes "initial_status_valid cfg" and "distinct (map Target bs)"
  shows "HandleBackendsUpdate cfg bs m = Ok (update_spec cfg bs m)"
  by (rule HandleBackendsUpdate_spec [OF assms])

theorem discovery_update_witness:
  "\<exists>m. HandleBackendsUpdate sample_healthcheck [] (sch_backends (tracking 1 1)) = Ok m \<and>
    map_option (Discovered \<circ> Stats) (m target_1) = Some False"
  using discovery_update [of sample_healthcheck "[]" "sch_backends (tracking 1 1)"]
  by (simp add: initial_status_valid_def update_spec_def set_discovered_def
      InitialBackendHealthCheckStatus_def HasCheck_def sample_healthcheck_def)

text \<open>The map of backends stays well formed in every run: finitely many backends, each filed
  under its own target.\<close>

theorem scheduler_map_invariant:
  assumes "sched_run re (Scheduler_start bal cfg) evs s"
  shows "wf_backends (sch_backends s)"
  by (rule sched_run_wf [OF assms wf_Scheduler_start])

theorem scheduler_map_invariant_witness: "wf_backends (sch_backends (tracking 0 0))"
  using scheduler_map_invariant [OF sched_run.run_step [OF sched_run.run_start]] step_discover
  by blast

section \<open>Accounting\<close>

text \<open>The counter of open connections is exact: as long as connections are registered on
  tracked backends and released once each, \<open>ActiveConnections\<close> is the number of connections
  registered and not yet released, across any discovery updates, health changes and elections;
  in particular a backend with open connections is never dropped from the map.\<close>

theorem active_connections_exact:
  assumes "proper_run re (Scheduler_start bal cfg) evs s"
  shows "int (active (sch_backends s) t) = conn_balance t evs \<and>
    (0 < conn_balance t evs \<longrightarrow> sch_backends s t \<noteq> None)"
  using active_proper_run [OF assms, of t] by (auto simp: active_def split: option.splits)

theorem active_connections_exact_witness:
  "active (sch_backends (tracking 1 1)) target_1 = 1"
proof -
  have "proper_run re idle ([] @ [EvDiscovered [host_1]]) (tracking 0 0)" for re
  proof -
    obtain effs where "sched_step re idle (EvDiscovered [host_1]) (tracking 0 0) effs"
      using step_discover by blast
    from proper_run.proper_step [OF proper_run.proper_start _ this] show ?thesis
      by (simp add: proper_event_def)
  qed
  then have "proper_run (\<lambda>_. None) idle (([] @ [EvDiscovered [host_1]]) @
      [EvOp (Scheduler_IncrementConnection host_1)]) (tracking (0 + 1) (0 + 1))"
    by (rule proper_run.proper_step [OF _ _ step_increment])
      (simp_all add: proper_event_def Scheduler_IncrementConnection_def op_delta_def
        conn_balance_def)
  from active_connections_exact [OF this, of target_1] show ?thesis
    by (simp add: op_delta_def Scheduler_IncrementConnection_def conn_balance_def)
qed

text \<open>C3: An elected backend is tracked, live, discovered, below its connection limit, and allowed
  by the SNI rules, in every step of the scheduler.\<close>

theorem elected_backend_eligible:
  assumes "sched_step re s (EvElect ctx) s' effs" and "ElectResponse b \<in> set effs"
  shows "\<exists>order. iteration_order order (sch_backends s) \<and> b \<in> ran (sch_backends s) \<and>
    Live (Stats b) \<and> Discovered (Stats b) \<and> \<not> limit_reached b \<and>
    (\<forall>conf. bal_SniConf (sch_Balancer s) = Some conf \<longrightarrow>
       sni_routed re conf ctx (elect_candidates order (sch_backends s)) b)"
  using sched_step_elected [OF assms] by (auto simp: electable_def)

theorem elected_backend_eligible_witness:
  "tracked_host 0 0 \<in> ran (sch_backends (tracking 0 0)) \<and> \<not> limit_reached (tracked_host 0 0)"
  using elected_backend_eligible [OF step_elect] by auto


text \<open>For the same reason the connection limit can be exceeded: two clients are both given the
  backend with \<open>max_connections = 1\<close> before either is registered.\<close>

theorem max_connections_exceeded:
  "\<exists>s1 s2 s3 s4 b1 b2 b. sched_step re (tracking 0 0) (EvElect sample_context) s1 [ElectResponse b1] \<and>
     sched_step re s1 (EvElect sample_context) s2 [ElectResponse b2] \<and>
     sched_step re s2 (EvOp (Scheduler_IncrementConnection b1)) s3 [] \<and>
     sched_step re s3 (EvOp (Scheduler_IncrementConnection b2)) s4 [] \<and>
     sch_backends s4 target_1 = Some b \<and> MaxConnections b = 1 \<and> ActiveConnections (Stats b) = 2"
proof -
  let ?b = "tracked_host 0 0"
  have inc: "Scheduler_IncrementConnection ?b = Scheduler_IncrementConnection host_1"
    by (simp add: Scheduler_IncrementConnection_def)
  have "sched_step re (tracking 0 0) (EvOp (Scheduler_IncrementConnection ?b)) (tracking 1 1) []"
    "sched_step re (tracking 1 1) (EvOp (Scheduler_IncrementConnection ?b)) (tracking 2 2) []"
    unfolding inc using step_increment [of 0 re 0] step_increment [of 1 re 1] by simp_all
  then show ?thesis using step_elect [of re 0]
    by (intro exI conjI) (assumption | simp)+
qed

end
