(* ===== verification/Exec_Timeout.thy ===== *)
theory Exec_Timeout
  imports Healthcheck
begin

text \<open>
  Running a command with a timeout (src/src/utils/exec.go) and the health check that does so
  (src/src/healthcheck/exec.go). The command is data: when it starts and would end by itself, what it
  prints, and when the last process that holds its standard output is gone. Times are nanoseconds from
  the moment the timer is armed.
\<close>

text \<open>\<open>ch_started\<close>: when \<open>cmd.Process\<close> is set; \<open>None\<close>: the command cannot be started.\<close>

record child =
  ch_started :: "int option"
  ch_ends :: int
  ch_exit_ok :: bool
  ch_output :: string
  ch_released :: int

text \<open>The timer's function kills the process only when there is one; one that has ended is not affected.\<close>

definition killed :: "int \<Rightarrow> child \<Rightarrow> bool" where
  "killed timeout ch \<longleftrightarrow> (case ch_started ch of None \<Rightarrow> False | Some s \<Rightarrow> s \<le> max 0 timeout \<and> max 0 timeout < ch_ends ch)"

text \<open>\<open>cmd.Output\<close> waits for the process and then until its standard output is closed.\<close>

definition returns_at :: "int \<Rightarrow> child \<Rightarrow> int" where
  "returns_at timeout ch =
     (case ch_started ch of None \<Rightarrow> 0
      | Some _ \<Rightarrow> max (if killed timeout ch then max 0 timeout else ch_ends ch) (ch_released ch))"

definition ExecTimeout :: "int \<Rightarrow> child \<Rightarrow> string outcome" where
  "ExecTimeout timeout ch =
     (if ch_started ch = None then Err ''start''
      else if killed timeout ch then Err ''signal: killed''
      else if \<not> ch_exit_ok ch then Err ''exit status''
      else Ok (ch_output ch))"

definition output_of :: "string outcome \<Rightarrow> string option" where
  "output_of r = (case r of Ok out \<Rightarrow> Some out | _ \<Rightarrow> None)"

text \<open>A timeout that does not parse is 0, as the error of \<open>ParseDuration\<close> is dropped.\<close>

definition exec_healthcheck :: "Target \<Rightarrow> HealthcheckConfig \<Rightarrow> child \<Rightarrow> (int \<times> CheckResult) outcome" where
  "exec_healthcheck t cfg ch =
     (let timeout = (case ParseDuration (hc_Timeout cfg) of None \<Rightarrow> 0 | Some d \<Rightarrow> d)
      in bind_outcome (exec_check t cfg (output_of (ExecTimeout timeout ch)))
           (\<lambda>r. Ok (returns_at timeout ch, r)))"

section \<open>Lemmas\<close>

lemma ExecTimeout_output:
  assumes "0 \<le> timeout" and "\<forall>s. ch_started ch = Some s \<longrightarrow> s \<le> timeout"
  shows "output_of (ExecTimeout timeout ch) =
    (if ch_started ch \<noteq> None \<and> ch_ends ch \<le> timeout \<and> ch_exit_ok ch then Some (ch_output ch) else None)"
proof (cases "ch_started ch")
  case (Some s)
  then have "killed timeout ch \<longleftrightarrow> \<not> ch_ends ch \<le> timeout" using assms by (auto simp: killed_def)
  then show ?thesis using Some by (simp add: ExecTimeout_def output_of_def)
qed (simp add: ExecTimeout_def output_of_def)

lemma returns_in_time:
  assumes "\<forall>s. ch_started ch = Some s \<longrightarrow> s \<le> timeout" and "ch_released ch \<le> timeout" and "0 \<le> timeout"
  shows "returns_at timeout ch \<le> timeout"
  using assms by (auto simp: returns_at_def killed_def split: option.splits)

end
