(* ===== verification/Healthcheck_Properties.thy ===== *)
theory Healthcheck_Properties
  imports Healthcheck Exec_Timeout Counters Samples
begin

text \<open>
  The properties of the health checks and of the bandwidth counters.
\<close>

section \<open>The worker\<close>

definition check_of :: "HealthCheckStatus \<Rightarrow> CheckResult" where
  "check_of st = \<lparr>cr_Target = sample_target ''10.0.0.1'', cr_Status = st\<rparr>"

text \<open>A worker of \<open>sample_ping_healthcheck\<close> (2 passes, 3 fails) that has confirmed its target.\<close>

definition sample_worker :: Worker where
  "sample_worker = (new_worker sample_ping_healthcheck (sample_target ''10.0.0.1''))\<lparr>
     wk_LastResult := check_of Healthy\<rparr>"

lemma sample_worker_facts:
  "thresholds_ok (wk_cfg sample_worker)" "confirmed_healthy 0 sample_worker"
  "hc_Fails (wk_cfg sample_worker) = 3" "worker_inv sample_worker"
  by (simp_all add: sample_worker_def new_worker_def sample_ping_healthcheck_def
      sample_healthcheck_def thresholds_ok_def confirmed_healthy_def check_of_def worker_inv_def)

lemma Worker_run_snoc_unhealthy:
  assumes "thresholds_ok (wk_cfg w)" and "confirmed_healthy 0 w" and "\<forall>r\<in>set rs. decided r"
    and "int (Suc (failures rs)) = hc_Fails (wk_cfg w)" and "cr_Status r = Unhealthy"
  shows "snd (Worker_run (rs @ [r]) w) = [r]"
proof -
  obtain w1 where w1: "Worker_run rs w = (w1, [])" "confirmed_healthy (failures rs) w1" "wk_cfg w1 = wk_cfg w"
    using Worker_run_healthy [OF assms(1-3)] assms(4) by (cases "Worker_run rs w") auto
  have "snd (process r w1) = Some r"
    using process_confirms_unhealthy [of w1 "failures rs" r] w1 assms by simp
  then show ?thesis using w1(1) by (cases "process r w1") (simp add: Worker_run_append)
qed

lemma process_out:
  "process r w = (w', None) \<Longrightarrow> wk_LastResult w' = wk_LastResult w"
  "process r w = (w', Some x) \<Longrightarrow> x = r \<and> wk_LastResult w' = r \<and> cr_Status r \<noteq> cr_Status (wk_LastResult w)"
  by (auto simp: process_def Let_def split: HealthCheckStatus.splits if_splits)

lemma Worker_run_alternates:
  "Worker_run rs w = (w', outs) \<Longrightarrow>
   successively (\<lambda>a b. cr_Status a \<noteq> cr_Status b) (wk_LastResult w # outs) \<and>
   last (wk_LastResult w # outs) = wk_LastResult w' \<and> set outs \<subseteq> set rs"
proof (induction rs arbitrary: w outs)
  case (Cons r rs)
  obtain w1 out where p: "process r w = (w1, out)" by fastforce
  obtain outs1 where r: "Worker_run rs w1 = (w', outs1)"
    and o: "outs = (case out of None \<Rightarrow> outs1 | Some x \<Rightarrow> x # outs1)"
    using Cons.prems p by (auto simp: Let_def split: prod.splits)
  show ?case
  proof (cases out)
    case None
    then show ?thesis using Cons.IH [OF r] process_out(1) p o by auto
  next
    case (Some x)
    then have "wk_LastResult w1 = x \<and> x = r \<and> cr_Status r \<noteq> cr_Status (wk_LastResult w)"
      using process_out(2) p by blast
    then show ?thesis using Cons.IH [OF r] o Some by auto
  qed
qed simp

lemma Worker_run_inv:
  "worker_inv w \<Longrightarrow> \<forall>r\<in>set rs. decided r \<Longrightarrow> worker_inv (fst (Worker_run rs w))"
proof (induction rs arbitrary: w)
  case (Cons r rs)
  obtain w1 out where p: "process r w = (w1, out)" by fastforce
  then have "worker_inv w1" using process_inv [of w r] Cons.prems by simp
  then show ?case using Cons.IH [of w1] Cons.prems p by (auto split: prod.splits)
qed simp

text \<open>The failure threshold counts all failures since the target was confirmed healthy: no
  result is reported before the threshold is reached and the failure that reaches it is, however
  many successful checks came between the failures (the configuration file calls the threshold
  consecutive).\<close>

theorem failures_accumulate:
  assumes "thresholds_ok (wk_cfg w)" and "confirmed_healthy 0 w" and "\<forall>r\<in>set rs. decided r"
    and "int (Suc (failures rs)) = hc_Fails (wk_cfg w)" and "cr_Status r = Unhealthy"
  shows "snd (Worker_run (rs @ [r]) w) = [r]"
  by (rule Worker_run_snoc_unhealthy [OF assms])

theorem failures_accumulate_witness:
  "snd (Worker_run ([check_of Unhealthy, check_of Healthy, check_of Unhealthy, check_of Healthy] @
     [check_of Unhealthy]) sample_worker) = [check_of Unhealthy]"
  by (rule failures_accumulate)
    (simp_all add: sample_worker_facts decided_def check_of_def)

text \<open>C39: A worker reports changes only: the statuses it sends to the scheduler alternate, each is
  the status of a check it ran, and the last one is the result it has confirmed.\<close>

theorem worker_reports_changes:
  assumes "Worker_run rs w = (w', outs)"
  shows "successively (\<lambda>a b. cr_Status a \<noteq> cr_Status b) (wk_LastResult w # outs) \<and>
    last (wk_LastResult w # outs) = wk_LastResult w' \<and> set outs \<subseteq> set rs"
  by (rule Worker_run_alternates [OF assms])

theorem worker_reports_changes_witness:
  "\<exists>w'. Worker_run [check_of Unhealthy, check_of Unhealthy, check_of Unhealthy] sample_worker =
     (w', [check_of Unhealthy]) \<and> wk_LastResult w' = check_of Unhealthy"
proof -
  obtain w' where run: "Worker_run [check_of Unhealthy, check_of Unhealthy, check_of Unhealthy] sample_worker =
      (w', [check_of Unhealthy])"
    by (simp add: sample_worker_def new_worker_def sample_ping_healthcheck_def sample_healthcheck_def
        check_of_def process_def wrap64_nonneg)
  with worker_reports_changes [OF run] show ?thesis by auto
qed

text \<open>The counters of a worker stay within the configured thresholds, at most one of them is
  running, and a status that is not confirmed has not reached its threshold, whatever the
  checks return.\<close>

theorem worker_invariant:
  assumes "worker_inv w" and "\<forall>r\<in>set rs. decided r"
  shows "worker_inv (fst (Worker_run rs w))"
  by (rule Worker_run_inv [OF assms])

theorem worker_invariant_witness:
  "worker_inv (fst (Worker_run [check_of Healthy, check_of Unhealthy] sample_worker))"
  by (rule worker_invariant) (simp_all add: sample_worker_facts decided_def check_of_def)

section \<open>The set of workers\<close>

lemma UpdateWorkers_exact:
  assumes "UpdateWorkers targets h = (h', started, stopped)" and "distinct (map wk_target (hch_workers h))"
  shows "map wk_target (hch_workers h') = targets \<and>
    (\<forall>w\<in>set (hch_workers h). (wk_target w \<in> set targets \<longrightarrow> w \<in> set (hch_workers h')) \<and>
       (w \<in> set stopped \<longleftrightarrow> wk_target w \<notin> set targets)) \<and>
    set started = new_worker (hch_cfg h) ` (set targets - wk_target ` set (hch_workers h))"
proof -
  let ?keep = "\<lambda>t. case find_worker t (hch_workers h) of None \<Rightarrow> new_worker (hch_cfg h) t | Some w \<Rightarrow> w"
  have u: "hch_workers h' = map ?keep targets"
    "started = map ?keep (filter (\<lambda>t. find_worker t (hch_workers h) = None) targets)"
    "stopped = filter (\<lambda>w. \<not> list_ex (\<lambda>t. Target_EqualTo (wk_target w) t) targets) (hch_workers h)"
    using assms(1) by (auto simp: UpdateWorkers_def Let_def)
  have kept: "w \<in> set (hch_workers h')" if "w \<in> set (hch_workers h)" "wk_target w \<in> set targets" for w
    using find_worker_distinct [OF assms(2) that(1)] that(2)
    by (auto simp: u(1) intro!: rev_image_eqI [of "wk_target w"])
  have "set started = new_worker (hch_cfg h) ` {t \<in> set targets. find_worker t (hch_workers h) = None}"
    by (auto simp: u(2) intro!: image_eqI)
  then have "set started = new_worker (hch_cfg h) ` (set targets - wk_target ` set (hch_workers h))"
    by (simp add: find_worker_None set_diff_eq)
  moreover have "w \<in> set stopped \<longleftrightarrow> wk_target w \<notin> set targets" if "w \<in> set (hch_workers h)" for w
    using that by (auto simp: u(3) list_ex_iff)
  ultimately show ?thesis using UpdateWorkers_targets [OF assms(1)] kept by blast
qed


text \<open>After an update there is one worker per target, in order; workers of targets that stay are
  kept with their counters, new targets get a fresh worker that is started, and exactly the
  workers of targets that went away are stopped.\<close>

theorem workers_follow_targets:
  assumes "UpdateWorkers targets h = (h', started, stopped)" and "distinct (map wk_target (hch_workers h))"
  shows "map wk_target (hch_workers h') = targets \<and>
    (\<forall>w\<in>set (hch_workers h). (wk_target w \<in> set targets \<longrightarrow> w \<in> set (hch_workers h')) \<and>
       (w \<in> set stopped \<longleftrightarrow> wk_target w \<notin> set targets)) \<and>
    set started = new_worker (hch_cfg h) ` (set targets - wk_target ` set (hch_workers h))"
  by (rule UpdateWorkers_exact [OF assms])

theorem workers_follow_targets_witness:
  "\<exists>h' started. UpdateWorkers [sample_target ''10.0.0.2''] \<lparr>hch_cfg = sample_ping_healthcheck,
      hch_workers = [sample_worker], hch_stopped = False\<rparr> = (h', started, [sample_worker]) \<and>
    set started = {new_worker sample_ping_healthcheck (sample_target ''10.0.0.2'')}"
proof -
  let ?h = "\<lparr>hch_cfg = sample_ping_healthcheck, hch_workers = [sample_worker], hch_stopped = False\<rparr>"
  have t: "wk_target sample_worker = sample_target ''10.0.0.1''"
    by (simp add: sample_worker_def new_worker_def)
  obtain h' started where u: "UpdateWorkers [sample_target ''10.0.0.2''] ?h = (h', started, [sample_worker])"
    by (simp add: UpdateWorkers_def t)
  from workers_follow_targets [OF this] show ?thesis using u by (auto simp: t)
qed

section \<open>The probe\<close>

text \<open>A probe of strategy \<open>starts_with\<close> without PROXY protocol reports healthy exactly when the
  dial, the deadlines and the write succeed and the backend answers with the expected bytes.\<close>

theorem probe_starts_with_healthy:
  assumes "hc_Probe cfg = Some p" and "hc_ProxyProtocol cfg = None"
    and "ProbeStrategy p = ''starts_with''" and "ProbeRecvLen p = 0"
  shows "probe_status re cfg io = Ok Healthy \<longleftrightarrow>
    io_dial_ok io \<and> (probe_timeout cfg > 0 \<longrightarrow> io_write_deadline_ok io \<and> io_read_deadline_ok io) \<and>
    io_write io (ProbeSend p) = Some (length (ProbeSend p)) \<and>
    take (length (ProbeRecv p)) (io_received io) = ProbeRecv p"
  using assms by (auto simp: probe_status_def probe_payload_def probe_exchange_def probe_match_def
      dest: arg_cong [of _ _ length])

definition sample_probe :: ProbeHealthcheckConfig where
  "sample_probe = \<lparr>ProbeProtocol = ''tcp'', ProbeStrategy = ''starts_with'', ProbeSend = ''ping'',
     ProbeRecv = ''pong'', ProbeRecvLen = 0\<rparr>"

definition sample_io :: "string \<Rightarrow> probe_io" where
  "sample_io answer = \<lparr>io_dial_ok = True, io_send_header_ok = (\<lambda>_. True), io_prepend = Some,
     io_write_deadline_ok = True, io_write = (\<lambda>s. Some (length s)), io_read_deadline_ok = True,
     io_received = answer\<rparr>"

theorem probe_starts_with_healthy_witness:
  "probe_status (\<lambda>_. None) (sample_healthcheck\<lparr>hc_Probe := Some sample_probe\<rparr>) (sample_io ''pong, 1'') = Ok Healthy \<and>
   probe_status (\<lambda>_. None) (sample_healthcheck\<lparr>hc_Probe := Some sample_probe\<rparr>) (sample_io ''pon'') \<noteq> Ok Healthy"
  by (simp add: probe_starts_with_healthy [of _ sample_probe] sample_probe_def sample_io_def sample_healthcheck_def)

text \<open>A negative number of bytes to read makes the probe panic as soon as it reaches the read,
  and with strategy \<open>starts_with\<close> a positive number other than the length of the expected answer
  makes it report unhealthy whatever the backend answers.\<close>

theorem probe_recv_len_misuse:
  assumes "hc_Probe cfg = Some p" and "hc_ProxyProtocol cfg = None" and "ProbeStrategy p = ''starts_with''"
    and "ProbeRecvLen p \<noteq> 0" and "ProbeRecvLen p \<noteq> int (length (ProbeRecv p))"
  shows "probe_status re cfg io \<noteq> Ok Healthy \<and>
    (ProbeRecvLen p < 0 \<and> io_dial_ok io \<and> io_write_deadline_ok io \<and> io_read_deadline_ok io \<and>
     io_write io (ProbeSend p) = Some (length (ProbeSend p)) \<longrightarrow> probe_status re cfg io = Panic)"
proof -
  have "length xs = nat n" if "\<not> length (io_received io) < nat n" "take (nat n) (io_received io) = xs" for n xs
    using that by auto
  then show ?thesis using assms
    by (fastforce simp: probe_status_def probe_payload_def probe_exchange_def probe_match_def split: if_splits)
qed

theorem probe_recv_len_misuse_witness:
  "probe_status (\<lambda>_. None) (sample_healthcheck\<lparr>hc_Probe := Some (sample_probe\<lparr>ProbeRecvLen := -1\<rparr>)\<rparr>)
     (sample_io ''pong'') = Panic"
  using probe_recv_len_misuse [of "sample_healthcheck\<lparr>hc_Probe := Some (sample_probe\<lparr>ProbeRecvLen := -1\<rparr>)\<rparr>"
      "sample_probe\<lparr>ProbeRecvLen := -1\<rparr>" "\<lambda>_. None" "sample_io ''pong''"]
  by (simp add: sample_probe_def sample_io_def sample_healthcheck_def)

text \<open>An exec check whose output is neither the expected positive nor the expected negative one
  is reported at once for a confirmed healthy target, without counting towards \<open>fails\<close>, and with a
  status that is not healthy.\<close>

theorem exec_unexpected_output:
  assumes "hc_Exec cfg = Some e" and "out \<noteq> ExecExpectedPositiveOutput e"
    and "out \<noteq> ExecExpectedNegativeOutput e" and "exec_check t cfg (Some out) = Ok r"
    and "cr_Status (wk_LastResult w) = Healthy" and "wk_fails w = 0" and "wk_passes w \<ge> hc_Passes (wk_cfg w)"
  shows "process r w = (w\<lparr>wk_LastResult := r\<rparr>, Some r) \<and> cr_Status r \<noteq> Healthy"
  using assms by (auto simp: exec_check_def process_def)

theorem exec_unexpected_output_witness:
  "snd (process (check_of Initial) (sample_worker\<lparr>wk_passes := 2\<rparr>)) = Some (check_of Initial)"
  using exec_unexpected_output [of "sample_healthcheck\<lparr>hc_Exec := Some \<lparr>ExecCommand = ''check'',
      ExecExpectedPositiveOutput = ''1'', ExecExpectedNegativeOutput = ''0''\<rparr>\<rparr>"
      "\<lparr>ExecCommand = ''check'', ExecExpectedPositiveOutput = ''1'', ExecExpectedNegativeOutput = ''0''\<rparr>"
      "''2''" "sample_target ''10.0.0.1''" "check_of Initial" "sample_worker\<lparr>wk_passes := 2\<rparr>"]
  by (simp add: exec_check_def check_of_def sample_worker_def new_worker_def sample_ping_healthcheck_def
      sample_healthcheck_def)

text \<open>An exec check is over when its timeout has passed, and reports healthy exactly when the command
  has ended by then, with exit status 0, after printing just what is expected of a healthy backend.
  This needs a command that has started by then and that leaves no process behind which keeps its
  standard output open.\<close>

theorem exec_check_verdict:
  assumes "hc_Exec cfg = Some e" and "ParseDuration (hc_Timeout cfg) = Some d" and "0 \<le> d"
    and "\<forall>s. ch_started ch = Some s \<longrightarrow> s \<le> d" and "ch_released ch \<le> d"
  shows "\<exists>at r. exec_healthcheck t cfg ch = Ok (at, r) \<and> at \<le> d \<and> cr_Target r = t \<and>
    (cr_Status r = Healthy \<longleftrightarrow> ch_started ch \<noteq> None \<and> ch_ends ch \<le> d \<and> ch_exit_ok ch \<and>
      ch_output ch = ExecExpectedPositiveOutput e)"
proof -
  have "output_of (ExecTimeout d ch) = (if ch_started ch \<noteq> None \<and> ch_ends ch \<le> d \<and> ch_exit_ok ch
      then Some (ch_output ch) else None)"
    by (rule ExecTimeout_output [OF assms(3,4)])
  then have "exec_healthcheck t cfg ch = Ok (returns_at d ch, \<lparr>cr_Target = t, cr_Status =
      (if ch_started ch \<noteq> None \<and> ch_ends ch \<le> d \<and> ch_exit_ok ch then
         if ch_output ch = ExecExpectedPositiveOutput e then Healthy
         else if ch_output ch = ExecExpectedNegativeOutput e then Unhealthy else Initial
       else Unhealthy)\<rparr>)"
    by (simp add: exec_healthcheck_def exec_check_def assms(1,2))
  moreover have "returns_at d ch \<le> d" by (rule returns_in_time [OF assms(4,5,3)])
  ultimately show ?thesis by (intro exI conjI) (assumption, auto)
qed

theorem exec_check_verdict_witness:
  "\<exists>at r. exec_healthcheck (sample_target ''10.0.0.1'') (sample_healthcheck\<lparr>hc_Timeout := ''1s'', hc_Exec := Some
       \<lparr>ExecCommand = ''check'', ExecExpectedPositiveOutput = ''1'', ExecExpectedNegativeOutput = ''0''\<rparr>\<rparr>)
     \<lparr>ch_started = Some 5, ch_ends = 2000000000, ch_exit_ok = True, ch_output = ''1'', ch_released = 1000000000\<rparr>
     = Ok (at, r) \<and> cr_Status r \<noteq> Healthy"
proof -
  have "ParseDuration ''1s'' = Some 1000000000" by code_simp
  then show ?thesis
    using exec_check_verdict [of "sample_healthcheck\<lparr>hc_Timeout := ''1s'', hc_Exec := Some
       \<lparr>ExecCommand = ''check'', ExecExpectedPositiveOutput = ''1'', ExecExpectedNegativeOutput = ''0''\<rparr>\<rparr>" _ 1000000000
      "\<lparr>ch_started = Some 5, ch_ends = 2000000000, ch_exit_ok = True, ch_output = ''1'', ch_released = 1000000000\<rparr>"
      "sample_target ''10.0.0.1''"]
    by auto
qed

section \<open>Bandwidth counters\<close>

lemma new_counter_spec:
  assumes "seconds \<noteq> 0"
  shows "\<exists>c c'. counter_run es (NewBandwidthCounter seconds) = Ok c \<and> counter_tick c = Ok c' \<and>
    RxTotal (bc_Stats c') = sum_list (map CountRead (traffic_of es)) \<and>
    TxTotal (bc_Stats c') = sum_list (map CountWrite (traffic_of es)) \<and>
    bs_RxSecond (bc_Stats c') = sum_list (map CountRead (since_tick [] es)) div seconds \<and>
    bs_TxSecond (bc_Stats c') = sum_list (map CountWrite (since_tick [] es)) div seconds"
proof -
  let ?c = "NewBandwidthCounter seconds"
  have c0: "bc_seconds ?c = seconds" "RxTotal (bc_Stats ?c) = 0" "TxTotal (bc_Stats ?c) = 0"
    by (simp_all add: NewBandwidthCounter_def zero_bandwidth_def)
  obtain c where c: "counter_run es ?c = Ok c" "counter_inv (since_tick [] es) c" "bc_seconds c = seconds"
    "RxTotal (bc_Stats c) = sum_list (map CountRead (traffic_of es))"
    "TxTotal (bc_Stats c) = sum_list (map CountWrite (traffic_of es))"
    using counter_run_spec [OF NewBandwidthCounter_inv, of seconds es] assms c0 by auto
  from counter_tick_rates [OF c(2)] assms c show ?thesis by auto
qed


text \<open>Over any sequence of traffic and ticks, a counter with a non-zero interval never fails, its
  totals are the sums of all deltas (modulo 2 to the 64), and a tick publishes the bytes since
  the previous tick divided by the interval.\<close>

theorem counter_totals_and_rates:
  assumes "seconds \<noteq> 0"
  shows "\<exists>c c'. counter_run es (NewBandwidthCounter seconds) = Ok c \<and> counter_tick c = Ok c' \<and>
    RxTotal (bc_Stats c') = sum_list (map CountRead (traffic_of es)) \<and>
    TxTotal (bc_Stats c') = sum_list (map CountWrite (traffic_of es)) \<and>
    bs_RxSecond (bc_Stats c') = sum_list (map CountRead (since_tick [] es)) div seconds \<and>
    bs_TxSecond (bc_Stats c') = sum_list (map CountWrite (since_tick [] es)) div seconds"
  by (rule new_counter_spec [OF assms])

theorem counter_totals_and_rates_witness:
  "\<exists>c c'. counter_run [CTraffic \<lparr>CountRead = 10, CountWrite = 0, rwc_Target = zero_target\<rparr>, CTick,
      CTraffic \<lparr>CountRead = 6, CountWrite = 0, rwc_Target = zero_target\<rparr>] (NewBandwidthCounter 2) = Ok c \<and>
    counter_tick c = Ok c' \<and> RxTotal (bc_Stats c') = 16 \<and> bs_RxSecond (bc_Stats c') = 3"
  using counter_totals_and_rates [of 2 "[CTraffic \<lparr>CountRead = 10, CountWrite = 0, rwc_Target = zero_target\<rparr>,
      CTick, CTraffic \<lparr>CountRead = 6, CountWrite = 0, rwc_Target = zero_target\<rparr>]"] by auto

text \<open>The pool of counters follows the targets: counters of targets that stay are kept with their
  totals, new targets start from zero, and exactly the counters of other targets are stopped.\<close>

theorem counters_follow_targets:
  assumes "UpdateCounters ts cs = (cs', stopped)"
  shows "cs' t = (if t \<in> set ts then Some (case cs t of None \<Rightarrow> target_counter t | Some c \<Rightarrow> c) else None) \<and>
    stopped = dom cs - set ts"
  using UpdateCounters_spec [OF assms] by blast

theorem counters_follow_targets_witness:
  "fst (UpdateCounters [zero_target] Map.empty) zero_target = Some (target_counter zero_target)"
  using counters_follow_targets [of "[zero_target]" Map.empty _ _ zero_target]
  by (cases "UpdateCounters [zero_target] Map.empty") auto

end
