(* ===== verification/Go_Net.thy ===== *)
theory Go_Net
  imports Go_Std
begin

text \<open>
  The part of package \<open>net\<close> that the access rules and the source pool use: parsing of IP
  addresses and CIDR blocks, comparison, masks and containment. A \<open>net.IP\<close> is its bytes, 4 or 16.
\<close>

type_synonym IP = "uint8 list"

record IPNet =
  net_IP :: IP
  net_Mask :: "uint8 list"

section \<open>Parsing\<close>

definition ipv4_octet :: "string \<Rightarrow> uint8 option" where
  "ipv4_octet f =
     (if f = [] \<or> \<not> list_all is_digit f \<or> (length f > 1 \<and> hd f = CHR ''0'') \<or> digits_val 0 f > 255
      then None else Some (of_nat (digits_val 0 f)))"

definition parse_ipv4 :: "string \<Rightarrow> IP option" where
  "parse_ipv4 s =
     (case map ipv4_octet (Split s CHR ''.'') of
        [Some a, Some b, Some c, Some d] \<Rightarrow> Some [a, b, c, d]
      | _ \<Rightarrow> None)"

definition is_hex :: "char \<Rightarrow> bool" where
  "is_hex c \<longleftrightarrow> hex_val c \<noteq> None"

definition hex_group :: "string \<Rightarrow> nat" where
  "hex_group g = fold (\<lambda>c n. 16 * n + (case hex_val c of None \<Rightarrow> 0 | Some d \<Rightarrow> d)) g 0"

text \<open>The loop of \<open>netip.parseIPv6\<close>: the position of the ellipsis, the bytes so far, the rest.\<close>

function v6_groups :: "nat option \<Rightarrow> IP \<Rightarrow> string \<Rightarrow> (IP \<times> nat option) option" where
  "v6_groups e ip s =
     (if length ip \<ge> 16 then (if s = [] then Some (ip, e) else None)
      else
        let g = takeWhile is_hex s; r = dropWhile is_hex s
        in if g = [] \<or> length g > 4 then None
           else if r \<noteq> [] \<and> hd r = CHR ''.'' then
             (if (e = None \<and> length ip \<noteq> 12) \<or> length ip > 12 then None
              else map_option (\<lambda>b. (ip @ b, e)) (parse_ipv4 s))
           else
             let ip' = ip @ [of_nat (hex_group g div 256), of_nat (hex_group g)]
             in (case r of
                   [] \<Rightarrow> Some (ip', e)
                 | c # r' \<Rightarrow>
                     if c \<noteq> CHR '':'' \<or> r' = [] then None
                     else if hd r' = CHR '':'' then
                       (if e \<noteq> None then None
                        else if tl r' = [] then Some (ip', Some (length ip'))
                        else v6_groups (Some (length ip')) ip' (tl r'))
                     else v6_groups e ip' r'))"
  by pat_completeness auto
termination
proof (relation "measure (\<lambda>(e, ip, s). 16 - length ip)", goal_cases)
  case (2 e ip s)
  then show ?case by auto
next
  case (3 e ip s)
  then show ?case by auto
qed simp

declare v6_groups.simps [simp del]

definition parse_ipv6 :: "string \<Rightarrow> IP option" where
  "parse_ipv6 s =
     (if CHR ''%'' \<in> set s then None
      else if s = ''::'' then Some (replicate 16 0)
      else case (if has_prefix s ''::'' then v6_groups (Some 0) [] (drop 2 s) else v6_groups None [] s) of
          None \<Rightarrow> None
        | Some (ip, e) \<Rightarrow>
            if length ip < 16 then
              (case e of None \<Rightarrow> None
               | Some k \<Rightarrow> Some (take k ip @ replicate (16 - length ip) 0 @ drop k ip))
            else if e \<noteq> None then None else Some ip)"

definition parse_addr :: "string \<Rightarrow> IP option" where
  "parse_addr s =
     (case find (\<lambda>c. c = CHR ''.'' \<or> c = CHR '':'' \<or> c = CHR ''%'') s of
        None \<Rightarrow> None
      | Some c \<Rightarrow> if c = CHR ''.'' then parse_ipv4 s
                  else if c = CHR '':'' then parse_ipv6 s else None)"

definition v4_prefix :: IP where
  "v4_prefix = [0, 0, 0, 0, 0, 0, 0, 0, 0, 0, 255, 255]"

definition To16 :: "IP \<Rightarrow> IP" where
  "To16 ip = (if length ip = 4 then v4_prefix @ ip else if length ip = 16 then ip else [])"

definition To4 :: "IP \<Rightarrow> IP option" where
  "To4 ip = (if length ip = 4 then Some ip
     else if length ip = 16 \<and> take 12 ip = v4_prefix then Some (drop 12 ip) else None)"

definition ParseIP :: "string \<Rightarrow> IP option" where
  "ParseIP s = map_option To16 (parse_addr s)"

section \<open>Masks\<close>

definition mask_byte :: "nat \<Rightarrow> uint8" where
  "mask_byte k = (if k \<ge> 8 then 255 else NOT (drop_bit k 255))"

definition CIDRMask :: "nat \<Rightarrow> nat \<Rightarrow> uint8 list" where
  "CIDRMask ones bits = map (\<lambda>i. mask_byte (ones - 8 * i)) [0..<bits div 8]"

definition IP_Mask :: "IP \<Rightarrow> uint8 list \<Rightarrow> IP option" where
  "IP_Mask ip msk =
     (let msk = (if length msk = 16 \<and> length ip = 4 \<and> take 12 msk = replicate 12 255
                  then drop 12 msk else msk);
          ip = (if length msk = 4 \<and> length ip = 16 \<and> take 12 ip = v4_prefix then drop 12 ip else ip)
      in if length ip \<noteq> length msk then None else Some (map2 (AND) ip msk))"

text \<open>\<open>dtoi\<close>: decimal digits, up to a bound.\<close>

definition parse_bits :: "string \<Rightarrow> nat option" where
  "parse_bits s = (if s = [] \<or> \<not> list_all is_digit s \<or> digits_val 0 s \<ge> 16777215 then None
     else Some (digits_val 0 s))"

definition ParseCIDR :: "string \<Rightarrow> (IP \<times> IPNet) option" where
  "ParseCIDR s =
     (if CHR ''/'' \<notin> set s then None
      else
        let addr = takeWhile (\<lambda>c. c \<noteq> CHR ''/'') s; msk = tl (dropWhile (\<lambda>c. c \<noteq> CHR ''/'') s)
        in case (parse_addr addr, parse_bits msk) of
             (Some ip, Some n) \<Rightarrow>
               if n > 8 * length ip then None
               else let m = CIDRMask n (8 * length ip)
                    in (case IP_Mask (To16 ip) m of None \<Rightarrow> None
                        | Some net \<Rightarrow> Some (To16 ip, \<lparr>net_IP = net, net_Mask = m\<rparr>))
           | _ \<Rightarrow> None)"

section \<open>Comparison and containment\<close>

definition IP_Equal :: "IP \<Rightarrow> IP \<Rightarrow> bool" where
  "IP_Equal ip x =
     (if length ip = length x then ip = x
      else if length ip = 4 \<and> length x = 16 then take 12 x = v4_prefix \<and> ip = drop 12 x
      else if length ip = 16 \<and> length x = 4 then take 12 ip = v4_prefix \<and> drop 12 ip = x
      else False)"

definition networkNumberAndMask :: "IPNet \<Rightarrow> (IP \<times> uint8 list) option" where
  "networkNumberAndMask n =
     (let ip = (case To4 (net_IP n) of Some x \<Rightarrow> x | None \<Rightarrow> net_IP n)
      in if length ip \<noteq> 4 \<and> length ip \<noteq> 16 then None
         else if length (net_Mask n) = 4 then (if length ip \<noteq> 4 then None else Some (ip, net_Mask n))
         else if length (net_Mask n) = 16 then
           Some (ip, if length ip = 4 then drop 12 (net_Mask n) else net_Mask n)
         else None)"

definition Contains :: "IPNet \<Rightarrow> IP \<Rightarrow> bool" where
  "Contains n ip =
     (let (nn, m) = (case networkNumberAndMask n of None \<Rightarrow> ([], []) | Some x \<Rightarrow> x);
          ip = (case To4 ip of Some x \<Rightarrow> x | None \<Rightarrow> ip)
      in length ip = length nn \<and>
         list_all2 (\<lambda>(a, k) b. a AND k = b AND k) (zip nn m) ip)"

section \<open>Lemmas: bits of an address\<close>

text \<open>Bit \<open>j\<close> of an address, from the most significant one on.\<close>

definition ip_bit :: "IP \<Rightarrow> nat \<Rightarrow> bool" where
  "ip_bit ip j = bit (ip ! (j div 8)) (7 - j mod 8)"

lemma bit_mask_byte: "bit (mask_byte k) i \<longleftrightarrow> i < 8 \<and> 8 \<le> i + k"
proof -
  define F :: uint8 where "F = mask 8"
  have F: "bit F n \<longleftrightarrow> n < 8" for n by (auto simp: F_def bit_mask_iff)
  have "mask_byte k = (if k \<ge> 8 then F else NOT (drop_bit k F))"
    by (simp add: mask_byte_def F_def mask_eq_exp_minus_1)
  then show ?thesis by (auto simp: bit_not_iff bit_drop_bit_eq F)
qed

lemma masked_eq_iff:
  "a AND mask_byte k = b AND mask_byte k \<longleftrightarrow> (\<forall>j < min k 8. bit a (7 - j) = bit b (7 - j))"
proof
  assume eq: "a AND mask_byte k = b AND mask_byte k"
  show "\<forall>j < min k 8. bit a (7 - j) = bit b (7 - j)"
  proof (intro allI impI)
    fix j assume "j < min k 8"
    moreover have "bit (a AND mask_byte k) (7 - j) = bit (b AND mask_byte k) (7 - j)" using eq by simp
    ultimately show "bit a (7 - j) = bit b (7 - j)" by (auto simp: bit_and_iff bit_mask_byte)
  qed
next
  assume h: "\<forall>j < min k 8. bit a (7 - j) = bit b (7 - j)"
  show "a AND mask_byte k = b AND mask_byte k"
  proof (rule bit_word_eqI)
    fix i assume "i < LENGTH(8)"
    then have i: "i < 8" by simp
    have "bit a i = bit b i" if "8 \<le> i + k"
    proof -
      have "7 - i < min k 8" using that i by arith
      from h [rule_format, OF this] i show ?thesis by simp
    qed
    then show "bit (a AND mask_byte k) i = bit (b AND mask_byte k) i"
      by (auto simp: bit_and_iff bit_mask_byte)
  qed
qed

text \<open>An address masked to its first \<open>n\<close> bits determines exactly those bits.\<close>

lemma bytes_masked_eq_iff:
  assumes "length ip = length ip'"
  shows "list_all2 (\<lambda>(a, k) b. a AND k = b AND k) (zip ip (map (\<lambda>i. mask_byte (n - 8 * i)) [0..<length ip])) ip' \<longleftrightarrow>
    (\<forall>j < min n (8 * length ip). ip_bit ip j = ip_bit ip' j)" (is "?L \<longleftrightarrow> ?R")
proof -
  have "?L \<longleftrightarrow> (\<forall>i<length ip. \<forall>j < min (n - 8 * i) 8. bit (ip ! i) (7 - j) = bit (ip' ! i) (7 - j))"
    using assms by (simp add: list_all2_conv_all_nth masked_eq_iff)
  also have "\<dots> \<longleftrightarrow> ?R"
  proof (rule iffI; intro allI impI)
    fix j assume h: "\<forall>i<length ip. \<forall>j < min (n - 8 * i) 8. bit (ip ! i) (7 - j) = bit (ip' ! i) (7 - j)"
      and j: "j < min n (8 * length ip)"
    have "j div 8 < length ip" using j by (simp add: less_mult_imp_div_less mult.commute)
    moreover have "j mod 8 < min (n - 8 * (j div 8)) 8"
      using j mult_div_mod_eq [of 8 j] mod_less_divisor [of 8 j] by linarith
    ultimately show "ip_bit ip j = ip_bit ip' j" using h by (simp add: ip_bit_def)
  next
    fix i j assume h: ?R and i: "i < length ip" and j: "j < min (n - 8 * i) 8"
    then have "8 * i + j < min n (8 * length ip)" by auto
    from h [rule_format, OF this] j show "bit (ip ! i) (7 - j) = bit (ip' ! i) (7 - j)"
      by (simp add: ip_bit_def)
  qed
  finally show ?thesis .
qed

lemma length_CIDRMask [simp]: "length (CIDRMask n bits) = bits div 8"
  by (simp add: CIDRMask_def)

lemma To4_eq: "length ip = 16 \<Longrightarrow> To4 ip = (if take 12 ip = v4_prefix then Some (drop 12 ip) else None)"
  "length ip = 4 \<Longrightarrow> To4 ip = Some ip"
  by (simp_all add: To4_def)

end
