(* ===== verification/Access.thy ===== *)
theory Access
  imports Go_Net Config Core
begin

text \<open>
  Package \<open>server/modules/access\<close> (src/src/server/modules/access): the chain of allow and deny
  rules that a client's address is checked against.
\<close>

datatype rule_match = RuleIp (rule_Ip: IP) | RuleNetwork (rule_Network: IPNet)

record AccessRule =
  rule_Allow :: bool
  rule_target :: rule_match

record Access =
  AllowDefault :: bool
  acc_rules :: "AccessRule list"

definition ParseAccessRule :: "string \<Rightarrow> AccessRule outcome" where
  "ParseAccessRule rule =
     (case Split rule CHR '' '' of
        [r, cidrOrIp] \<Rightarrow>
          if r \<noteq> ''allow'' \<and> r \<noteq> ''deny'' then Err (''Cant parse rule definition '' @ rule)
          else (case ParseIP cidrOrIp of
              Some ip \<Rightarrow> Ok \<lparr>rule_Allow = (r = ''allow''), rule_target = RuleIp ip\<rparr>
            | None \<Rightarrow> (case ParseCIDR cidrOrIp of
                Some (_, net) \<Rightarrow> Ok \<lparr>rule_Allow = (r = ''allow''), rule_target = RuleNetwork net\<rparr>
              | None \<Rightarrow> Err (''Cant parse acces rule target, not an ip or cidr: '' @ cidrOrIp)))
      | _ \<Rightarrow> Err (''Bad access rule format: '' @ rule))"

definition Rule_Matches :: "AccessRule \<Rightarrow> IP \<Rightarrow> bool" where
  "Rule_Matches r ip = (case rule_target r of
       RuleNetwork net \<Rightarrow> Contains net ip
     | RuleIp x \<Rightarrow> IP_Equal x ip)"

definition Rule_Allows :: "AccessRule \<Rightarrow> bool" where
  "Rule_Allows r = rule_Allow r"

fun parse_rules :: "string list \<Rightarrow> AccessRule list outcome" where
  "parse_rules [] = Ok []"
| "parse_rules (r # rs) =
     bind_outcome (ParseAccessRule r) (\<lambda>rule. bind_outcome (parse_rules rs) (\<lambda>rules. Ok (rule # rules)))"

text \<open>\<open>NewAccess\<close>: an empty default is \<open>allow\<close>.\<close>

definition NewAccess :: "AccessConfig option \<Rightarrow> Access outcome" where
  "NewAccess cfg =
     (case cfg of None \<Rightarrow> Err ''AccessConfig is nil''
      | Some c \<Rightarrow>
          let dflt = (if acc_Default c = [] then ''allow'' else acc_Default c)
          in if dflt \<noteq> ''allow'' \<and> dflt \<noteq> ''deny'' then
               Err (''AccessConfig Unexpected Default: '' @ dflt)
             else bind_outcome (parse_rules (elems (acc_Rules c)))
               (\<lambda>rules. Ok \<lparr>AllowDefault = (dflt = ''allow''), acc_rules = rules\<rparr>))"

fun first_match :: "AccessRule list \<Rightarrow> bool \<Rightarrow> IP \<Rightarrow> bool" where
  "first_match [] dflt ip = dflt"
| "first_match (r # rs) dflt ip =
     (if Rule_Matches r ip then Rule_Allows r else first_match rs dflt ip)"

definition Access_Allows :: "Access \<Rightarrow> IP \<Rightarrow> bool" where
  "Access_Allows a ip = first_match (acc_rules a) (AllowDefault a) ip"

section \<open>Lemmas\<close>

lemma first_match_find:
  "first_match rs dflt ip =
   (case find (\<lambda>r. Rule_Matches r ip) rs of None \<Rightarrow> dflt | Some r \<Rightarrow> Rule_Allows r)"
  by (induction rs) auto

lemma parse_rules_Ok:
  "parse_rules rs = Ok rules \<longleftrightarrow> list_all2 (\<lambda>r rule. ParseAccessRule r = Ok rule) rs rules"
  by (induction rs arbitrary: rules) (auto simp: list_all2_Cons1)

lemma ParseAccessRule_Ok:
  "ParseAccessRule s = Ok rule \<Longrightarrow>
   \<exists>r x. Split s CHR '' '' = [r, x] \<and> (r = ''allow'' \<or> r = ''deny'') \<and> rule_Allow rule = (r = ''allow'') \<and>
     (ParseIP x = Some (rule_Ip (rule_target rule)) \<and> (\<exists>ip. rule_target rule = RuleIp ip) \<or>
      ParseIP x = None \<and> (\<exists>ip net. ParseCIDR x = Some (ip, net) \<and> rule_target rule = RuleNetwork net))"
  by (auto simp: ParseAccessRule_def split: list.splits if_splits option.splits)

end
