(* ===== verification/Source_Pool.thy ===== *)
theory Source_Pool
  imports Go_Net
begin

text \<open>
  The pool of source addresses (src/src/utils/sources.go): an IPv6 subnet and an atomic counter;
  every backend connection takes the next address of the subnet.
\<close>

record SourcePool =
  sp_network :: IP
  sp_mask :: "uint8 list"
  sp_counter :: uint64

text \<open>\<open>IPMask.Size\<close> of a mask that \<open>ParseCIDR\<close> made: the number of leading ones.\<close>

definition mask_ones :: "uint8 list \<Rightarrow> nat" where
  "mask_ones m = length (takeWhile id (concat (map (\<lambda>b. map (\<lambda>i. bit b (7 - i)) [0..<8]) m)))"

text \<open>An empty subnet gives a nil pool and no error.\<close>

definition NewIPv6SourcePool :: "string \<Rightarrow> SourcePool option outcome" where
  "NewIPv6SourcePool subnet =
     (let v = TrimSpace subnet
      in if v = [] then Ok None
         else case ParseCIDR v of
             None \<Rightarrow> Err (''invalid sources subnet '' @ v)
           | Some (ip, ipNet) \<Rightarrow>
               if To16 ip = [] \<or> To4 (To16 ip) \<noteq> None then
                 Err (''sources subnet '' @ v @ '' must be ipv6 cidr'')
               else if mask_ones (net_Mask ipNet) = 128 then
                 Err (''sources subnet '' @ v @ '' must have at least one host bit'')
               else (case IP_Mask (To16 ip) (net_Mask ipNet) of
                   None \<Rightarrow> Ok (Some \<lparr>sp_network = replicate 16 0, sp_mask = net_Mask ipNet, sp_counter = 0\<rparr>)
                 | Some net \<Rightarrow> Ok (Some \<lparr>sp_network = net, sp_mask = net_Mask ipNet, sp_counter = 0\<rparr>)))"

text \<open>\<open>binary.BigEndian.PutUint64(raw[8:], counter)\<close>.\<close>

definition raw_counter :: "uint64 \<Rightarrow> uint8 list" where
  "raw_counter c = replicate 8 0 @ map (\<lambda>i. ucast (drop_bit (8 * (7 - i)) c)) [0..<8]"

definition source_ip :: "IP \<Rightarrow> uint8 list \<Rightarrow> uint64 \<Rightarrow> IP" where
  "source_ip network msk c =
     map (\<lambda>i. (network ! i AND msk ! i) OR (raw_counter c ! i AND NOT (msk ! i))) [0..<16]"

text \<open>\<open>Next\<close> on a nil pool is nil.\<close>

definition SourcePool_Next :: "SourcePool option \<Rightarrow> IP option \<times> SourcePool option" where
  "SourcePool_Next p = (case p of
       None \<Rightarrow> (None, None)
     | Some p \<Rightarrow>
         let c = sp_counter p + 1
         in (Some (source_ip (sp_network p) (sp_mask p) c), Some (p\<lparr>sp_counter := c\<rparr>)))"

fun source_run :: "nat \<Rightarrow> SourcePool option \<Rightarrow> IP option list" where
  "source_run 0 p = []"
| "source_run (Suc n) p = (let (ip, p) = SourcePool_Next p in ip # source_run n p)"

section \<open>Lemmas\<close>

lemma bit_position [simp]: "7 - (x :: nat) < 8"
  by linarith

lemma bit_raw_counter:
  assumes "j < 128"
  shows "ip_bit (raw_counter c) j \<longleftrightarrow> 64 \<le> j \<and> bit c (127 - j)"
proof (cases "j < 64")
  case True
  then have "j div 8 < 8" by auto
  then show ?thesis using True by (simp add: ip_bit_def raw_counter_def nth_append)
next
  case False
  have d: "j div 8 < 16" "\<not> j div 8 < 8" using assms False by auto
  have "8 * (7 - (j div 8 - 8)) + (7 - j mod 8) = 127 - j"
    using assms False d mult_div_mod_eq [of 8 j] mod_less_divisor [of 8 j] by linarith
  moreover have "[0..<8] ! (j div 8 - 8) = j div 8 - 8" using d by (subst nth_upt) auto
  ultimately show ?thesis using d False
    by (simp add: ip_bit_def raw_counter_def nth_append bit_ucast_iff bit_drop_bit_eq)
qed

lemma bit_CIDRMask:
  assumes "j < 128"
  shows "ip_bit (CIDRMask n 128) j \<longleftrightarrow> j < n"
proof -
  have "j div 8 < 16" using assms by auto
  moreover have "8 \<le> 7 - j mod 8 + (n - 8 * (j div 8)) \<longleftrightarrow> j < n"
    using mult_div_mod_eq [of 8 j] mod_less_divisor [of 8 j] by linarith
  ultimately show ?thesis by (simp add: ip_bit_def CIDRMask_def bit_mask_byte)
qed

lemma bit_source_ip:
  assumes "j < 128"
  shows "ip_bit (source_ip network msk c) j \<longleftrightarrow>
    (if ip_bit msk j then ip_bit network j else 64 \<le> j \<and> bit c (127 - j))"
proof -
  have "j div 8 < 16" using assms by auto
  then have "ip_bit (source_ip network msk c) j \<longleftrightarrow>
      ip_bit network j \<and> ip_bit msk j \<or> ip_bit (raw_counter c) j \<and> \<not> ip_bit msk j"
    by (auto simp: ip_bit_def source_ip_def bit_or_iff bit_and_iff bit_not_iff)
  then show ?thesis using bit_raw_counter [OF assms] by auto
qed

lemma length_source_ip [simp]: "length (source_ip network msk c) = 16"
  by (simp add: source_ip_def)

lemma source_ip_network:
  assumes "j < n" and "n \<le> 128"
  shows "ip_bit (source_ip network (CIDRMask n 128) c) j = ip_bit network j"
  using assms bit_source_ip [of j] bit_CIDRMask [of j n] by simp

lemma source_ip_inj:
  assumes "source_ip network (CIDRMask n 128) c = source_ip network (CIDRMask n 128) c'" and "n \<le> 128"
  shows "take_bit (128 - n) c = take_bit (128 - n) c'"
proof (rule bit_word_eqI)
  fix i assume "i < LENGTH(64)"
  then have i: "i < 64" by simp
  have "bit c i = bit c' i" if "i < 128 - n"
  proof -
    have "\<not> 127 - i < n" "127 - i < 128" "64 \<le> 127 - i" "127 - (127 - i) = i" using i that by auto
    then show ?thesis
      using bit_source_ip [of "127 - i" network "CIDRMask n 128"] bit_CIDRMask [of "127 - i" n] assms(1)
      by metis
  qed
  then show "bit (take_bit (128 - n) c) i = bit (take_bit (128 - n) c') i"
    by (auto simp: bit_take_bit_iff)
qed

lemma source_run_eq:
  "source_run n (Some p) = map (\<lambda>i. Some (source_ip (sp_network p) (sp_mask p)
     (sp_counter p + 1 + of_nat i))) [0..<n]"
proof (induction n arbitrary: p)
  case (Suc n)
  show ?case
    by (simp add: SourcePool_Next_def Let_def Suc upt_conv_Cons map_Suc_upt [symmetric] o_def algebra_simps
        del: upt_Suc map_Suc_upt)
qed simp

lemma take_bit_word_add:
  "take_bit m (x + y :: uint64) = take_bit m (take_bit m x + take_bit m y)"
  by transfer (simp add: take_bit_add min_def)

lemma take_bit_of_nat_inj:
  assumes "take_bit m (c + of_nat i :: uint64) = take_bit m (c + of_nat j)"
    and "i < 2 ^ min m 64" and "j < 2 ^ min m 64"
  shows "i = j"
proof -
  have d: "take_bit m (x - c) = take_bit m (take_bit m x + take_bit m (- c))" for x
    using take_bit_word_add [of m x "- c"] by simp
  have "take_bit m (c + of_nat i - c) = take_bit m (c + of_nat j - c)"
    unfolding d [of "c + of_nat i"] d [of "c + of_nat j"] assms(1) ..
  then have "take_bit m (of_nat i :: uint64) = take_bit m (of_nat j)" by simp
  then have "unat (take_bit m (of_nat i :: uint64)) = unat (take_bit m (of_nat j :: uint64))" by simp
  then have "take_bit (min m 64) i = take_bit (min m 64) j"
    by (simp add: unsigned_take_bit_eq unsigned_of_nat take_bit_take_bit)
  then show ?thesis using assms(2,3) by (simp add: take_bit_nat_eq_self)
qed

lemma source_run_distinct:
  assumes "n \<le> 128" and "sp_mask p = CIDRMask n 128" and "k \<le> 2 ^ min (128 - n) 64"
  shows "distinct (source_run k (Some p))"
proof -
  have "i = j" if "i < k" "j < k"
    "source_ip (sp_network p) (sp_mask p) (sp_counter p + 1 + of_nat i) =
     source_ip (sp_network p) (sp_mask p) (sp_counter p + 1 + of_nat j)" for i j
  proof -
    have "take_bit (128 - n) (sp_counter p + 1 + of_nat i) = take_bit (128 - n) (sp_counter p + 1 + of_nat j)"
      using that(3) unfolding assms(2) by (rule source_ip_inj [OF _ assms(1)])
    then show ?thesis
      by (rule take_bit_of_nat_inj) (use that(1,2) assms(3) in \<open>simp_all add: less_le_trans\<close>)
  qed
  then show ?thesis unfolding source_run_eq by (auto simp: distinct_map inj_on_def)
qed

end
