(* ===== verification/Access_Properties.thy ===== *)
theory Access_Properties
  imports Access Source_Pool
begin

text \<open>
  The properties of the access rules and of the pool of source addresses.
\<close>

section \<open>Networks\<close>

text \<open>An address in its shortest form, as \<open>Contains\<close> compares it.\<close>

definition canon :: "IP \<Rightarrow> IP" where
  "canon ip = (case To4 ip of Some x \<Rightarrow> x | None \<Rightarrow> ip)"

lemma masked_twice:
  assumes "length m = length ip"
  shows "list_all2 (\<lambda>(a, k) b. a AND k = b AND k) (zip (map2 (AND) ip m) m) (x :: IP) \<longleftrightarrow>
    list_all2 (\<lambda>(a, k) b. a AND k = b AND k) (zip ip m) x"
  using assms by (simp add: list_all2_conv_all_nth and.assoc)

lemma parse_ipv4_length: "parse_ipv4 s = Some ip \<Longrightarrow> length ip = 4"
  by (auto simp: parse_ipv4_def split: list.splits option.splits)

lemma mask_byte_full: "a AND mask_byte k = 255 \<Longrightarrow> k \<ge> 8"
proof (rule ccontr)
  assume h: "a AND mask_byte k = 255" "\<not> k \<ge> 8"
  have "bit (255 :: uint8) 0" by simp
  then have "bit (mask_byte k) 0" unfolding h(1) [symmetric] by (simp add: bit_and_iff)
  then show False using h(2) by (simp add: bit_mask_byte)
qed

lemma masked_v4_prefix:
  assumes "length a = 16" and "take 12 (map2 (AND) a (CIDRMask n 128)) = v4_prefix"
  shows "take 12 a = v4_prefix"
proof -
  let ?m = "CIDRMask n 128"
  have nth: "a ! i AND mask_byte (n - 8 * i) = v4_prefix ! i" if "i < 12" for i
    using arg_cong [OF assms(2), of "\<lambda>l. l ! i"] assms(1) that by (simp add: CIDRMask_def)
  have "8 \<le> n - 8 * 11" using nth [of 11] mask_byte_full by (simp add: v4_prefix_def)
  then have full: "mask_byte (n - 8 * i) = - 1" if "i < 12" for i using that by (simp add: mask_byte_def)
  show ?thesis
  proof (rule nth_equalityI)
    fix i assume "i < length (take 12 a)"
    then show "take 12 a ! i = v4_prefix ! i" using nth [of i] full [of i] by simp
  qed (use assms(1) in \<open>simp add: v4_prefix_def\<close>)
qed

lemma ParseCIDR_parts:
  assumes "ParseCIDR (s @ CHR ''/'' # t) = Some (ip, net)" and "CHR ''/'' \<notin> set s"
  shows "\<exists>a n. parse_addr s = Some a \<and> parse_bits t = Some n \<and> n \<le> 8 * length a \<and>
    IP_Mask (To16 a) (CIDRMask n (8 * length a)) = Some (net_IP net) \<and>
    net_Mask net = CIDRMask n (8 * length a)"
proof -
  have "takeWhile (\<lambda>c. c \<noteq> CHR ''/'') (s @ CHR ''/'' # t) = s"
    "dropWhile (\<lambda>c. c \<noteq> CHR ''/'') (s @ CHR ''/'' # t) = CHR ''/'' # t"
    using assms(2) by (simp_all add: takeWhile_append dropWhile_append)
  then show ?thesis using assms(1)
    by (auto simp: ParseCIDR_def Let_def split: option.splits if_splits)
qed

lemma Contains_v4:
  assumes "length a = 4" and "n \<le> 32"
  shows "Contains \<lparr>net_IP = map2 (AND) a (CIDRMask n 32), net_Mask = CIDRMask n 32\<rparr> x \<longleftrightarrow>
    length (canon x) = 4 \<and> (\<forall>j<n. ip_bit (canon x) j = ip_bit a j)"
proof -
  have m: "CIDRMask n 32 = map (\<lambda>i. mask_byte (n - 8 * i)) [0..<length a]"
    using assms(1) by (simp add: CIDRMask_def)
  have "Contains \<lparr>net_IP = map2 (AND) a (CIDRMask n 32), net_Mask = CIDRMask n 32\<rparr> x \<longleftrightarrow>
    length (canon x) = 4 \<and> list_all2 (\<lambda>(a, k) b. a AND k = b AND k) (zip a (CIDRMask n 32)) (canon x)"
    using assms(1) masked_twice [of "CIDRMask n 32" a "canon x"]
    by (auto simp: Contains_def networkNumberAndMask_def To4_eq canon_def Let_def)
  then show ?thesis
    using bytes_masked_eq_iff [of a "canon x" n] assms unfolding m by auto
qed

lemma Contains_v6:
  assumes "length a = 16" and "n \<le> 128" and "To4 a = None"
  shows "Contains \<lparr>net_IP = map2 (AND) a (CIDRMask n 128), net_Mask = CIDRMask n 128\<rparr> x \<longleftrightarrow>
    length (canon x) = 16 \<and> (\<forall>j<n. ip_bit (canon x) j = ip_bit a j)"
proof -
  have m: "CIDRMask n 128 = map (\<lambda>i. mask_byte (n - 8 * i)) [0..<length a]"
    using assms(1) by (simp add: CIDRMask_def)
  have "To4 (map2 (AND) a (CIDRMask n 128)) = None"
    using assms masked_v4_prefix [OF assms(1), of n] by (auto simp: To4_def)
  then have "Contains \<lparr>net_IP = map2 (AND) a (CIDRMask n 128), net_Mask = CIDRMask n 128\<rparr> x \<longleftrightarrow>
    length (canon x) = 16 \<and> list_all2 (\<lambda>(a, k) b. a AND k = b AND k) (zip a (CIDRMask n 128)) (canon x)"
    using assms(1) masked_twice [of "CIDRMask n 128" a "canon x"]
    by (auto simp: Contains_def networkNumberAndMask_def canon_def Let_def)
  then show ?thesis
    using bytes_masked_eq_iff [of a "canon x" n] assms unfolding m by auto
qed

lemma cidr_contains:
  assumes "ParseCIDR (s @ CHR ''/'' # t) = Some (ip, net)" and "CHR ''/'' \<notin> set s"
    and "parse_addr s = Some a" and "canon a = a" and "length a = 4 \<or> length a = 16"
  shows "\<exists>n. parse_bits t = Some n \<and>
    (Contains net x \<longleftrightarrow> length (canon x) = length a \<and> (\<forall>j<n. ip_bit (canon x) j = ip_bit a j))"
proof -
  obtain n where n: "parse_bits t = Some n" "n \<le> 8 * length a"
    "IP_Mask (To16 a) (CIDRMask n (8 * length a)) = Some (net_IP net)" "net_Mask net = CIDRMask n (8 * length a)"
    using ParseCIDR_parts [OF assms(1,2)] assms(3) by auto
  have net: "net = \<lparr>net_IP = map2 (AND) a (CIDRMask n (8 * length a)), net_Mask = CIDRMask n (8 * length a)\<rparr>"
    using n(3,4) assms(5) by (cases net) (auto simp: IP_Mask_def To16_def v4_prefix_def Let_def)
  from assms(5) show ?thesis
  proof
    assume "length a = 4"
    then show ?thesis using n(1,2) Contains_v4 [of a n x] by (simp add: net)
  next
    assume l: "length a = 16"
    then have "To4 a = None" using assms(4)
      by (auto simp: canon_def To4_def dest: arg_cong [of _ _ length] split: if_splits)
    then show ?thesis using n(1,2) Contains_v6 [OF l, of n x] l by (simp add: net)
  qed
qed

lemma find_parsed:
  "list_all2 (\<lambda>r rule. ParseAccessRule r = Ok rule) rs rules \<Longrightarrow>
   find (\<lambda>s. \<exists>rule. ParseAccessRule s = Ok rule \<and> Q rule) rs = Some s \<Longrightarrow>
   \<exists>rule. ParseAccessRule s = Ok rule \<and> find Q rules = Some rule"
  by (induction rule: list_all2_induct) (auto split: if_splits)

lemma find_parsed_None:
  "list_all2 (\<lambda>r rule. ParseAccessRule r = Ok rule) rs rules \<Longrightarrow>
   find (\<lambda>s. \<exists>rule. ParseAccessRule s = Ok rule \<and> Q rule) rs = None \<Longrightarrow> find Q rules = None"
  by (induction rule: list_all2_induct) (auto split: if_splits)

lemma access_decision:
  assumes "NewAccess (Some c) = Ok a"
  shows "Access_Allows a ip \<longleftrightarrow>
    (case find (\<lambda>s. \<exists>rule. ParseAccessRule s = Ok rule \<and> Rule_Matches rule ip) (elems (acc_Rules c)) of
       None \<Rightarrow> acc_Default c \<noteq> ''deny''
     | Some s \<Rightarrow> hd (Split s CHR '' '') = ''allow'')"
proof -
  have d: "AllowDefault a \<longleftrightarrow> acc_Default c \<noteq> ''deny''" and "parse_rules (elems (acc_Rules c)) = Ok (acc_rules a)"
    using assms by (auto simp: NewAccess_def Let_def bind_outcome_Ok_iff split: if_splits)
  then have l: "list_all2 (\<lambda>r rule. ParseAccessRule r = Ok rule) (elems (acc_Rules c)) (acc_rules a)"
    by (simp add: parse_rules_Ok)
  show ?thesis
  proof (cases "find (\<lambda>s. \<exists>rule. ParseAccessRule s = Ok rule \<and> Rule_Matches rule ip) (elems (acc_Rules c))")
    case None
    then show ?thesis using find_parsed_None [OF l None] d
      by (simp add: Access_Allows_def first_match_find)
  next
    case (Some s)
    then show ?thesis using find_parsed [OF l Some]
      by (auto simp: Access_Allows_def first_match_find Rule_Allows_def dest!: ParseAccessRule_Ok)
  qed
qed

lemma Split_one:
  "sep \<notin> set x \<Longrightarrow> Split x sep = [x]" "sep \<notin> set x \<Longrightarrow> Split (x @ sep # y) sep = x # Split y sep"
  by (induction x) auto

lemma parse_ipv4_slash: "parse_ipv4 x = Some ip \<Longrightarrow> CHR ''/'' \<notin> set x"
proof
  assume p: "parse_ipv4 x = Some ip" and m: "CHR ''/'' \<in> set x"
  have d: "\<exists>f\<in>set (Split x CHR ''.''). CHR ''/'' \<in> set f" using m
    by (induction x) (auto split: list.splits)
  then obtain f where f: "f \<in> set (Split x CHR ''.'')" "CHR ''/'' \<in> set f" by blast
  have "\<not> is_digit CHR ''/''" by (simp add: is_digit_def)
  then have "ipv4_octet f = None" using f(2) by (auto simp: ipv4_octet_def list_all_iff)
  with f(1) have "None \<in> set (map ipv4_octet (Split x CHR ''.''))" by force
  then show False using p by (auto simp: parse_ipv4_def split: list.splits option.splits)
qed

lemma v6_groups_slash: "v6_groups e ip x = Some r \<Longrightarrow> CHR ''/'' \<notin> set x"
proof (induction e ip x rule: v6_groups.induct)
  case (1 e ip x)
  let ?g = "takeWhile is_hex x" and ?r = "dropWhile is_hex x"
  have x: "set x = set ?g \<union> set ?r" by (metis set_append takeWhile_dropWhile_id)
  have g: "CHR ''/'' \<notin> set ?g" by (auto dest!: set_takeWhileD simp: is_hex_def hex_val_def)
  show ?case
  proof (cases "length ip \<ge> 16")
    case True
    then show ?thesis using 1(3) by (subst (asm) v6_groups.simps) (auto split: if_splits)
  next
    case False
    show ?thesis
    proof (cases "?r \<noteq> [] \<and> hd ?r = CHR ''.''")
      case True
      then show ?thesis using 1(3) False
        by (subst (asm) v6_groups.simps) (auto simp: Let_def dest: parse_ipv4_slash split: if_splits)
    next
      case dot: False
      show ?thesis
      proof (cases ?r)
        case Nil
        then have "set x = set ?g" using x by (metis Un_empty_right list.set(1))
        then show ?thesis using g by simp
      next
        case (Cons c r')
        then have "c = CHR '':'' \<and> r' \<noteq> [] \<and> CHR ''/'' \<notin> set r'"
          using 1 False dot
          by (subst (asm) (3) v6_groups.simps) (cases r'; auto simp: Let_def split: if_splits)
        then show ?thesis using x g Cons by auto
      qed
    qed
  qed
qed

lemma has_prefix_split: "has_prefix x p \<Longrightarrow> x = p @ drop (length p) x"
  by (metis append_take_drop_id has_prefix_def)

lemma parse_ipv6_slash: "parse_ipv6 x = Some ip \<Longrightarrow> CHR ''/'' \<notin> set x"
proof -
  assume v6: "parse_ipv6 x = Some ip"
  show ?thesis
  proof (cases "has_prefix x ''::''")
    case True
    have "set x = set (''::'' @ drop 2 x)" using arg_cong [OF has_prefix_split [OF True], of set]
      by (simp add: numeral_2_eq_2)
    moreover have "CHR ''/'' \<notin> set (drop 2 x)"
    proof (cases "x = ''::''")
      case False
      then obtain r where "v6_groups (Some 0) [] (drop 2 x) = Some r"
        using v6 True by (cases "v6_groups (Some 0) [] (drop 2 x)") (simp_all add: parse_ipv6_def split: if_splits)
      then show ?thesis by (rule v6_groups_slash)
    qed simp
    ultimately show ?thesis by simp
  next
    case False
    then have "x \<noteq> ''::''" by (auto simp: has_prefix_def)
    then obtain r where "v6_groups None [] x = Some r"
      using v6 False by (cases "v6_groups None [] x") (simp_all add: parse_ipv6_def split: if_splits)
    then show ?thesis by (rule v6_groups_slash)
  qed
qed

lemma parse_addr_slash: "parse_addr x = Some ip \<Longrightarrow> CHR ''/'' \<notin> set x"
  by (cases "parse_ipv4 x = Some ip")
    (simp add: parse_ipv4_slash, simp add: parse_addr_def parse_ipv6_slash split: option.splits if_splits)

lemma cidr_rule_spec:
  assumes "ParseAccessRule (''allow '' @ s @ CHR ''/'' # t) = Ok rule"
    and "CHR ''/'' \<notin> set s" and "CHR '' '' \<notin> set s" and "CHR '' '' \<notin> set t"
    and "parse_addr s = Some a" and "canon a = a" and "length a = 4 \<or> length a = 16"
  shows "\<exists>n. parse_bits t = Some n \<and> Rule_Allows rule \<and>
    (Rule_Matches rule x \<longleftrightarrow> length (canon x) = length a \<and> (\<forall>j<n. ip_bit (canon x) j = ip_bit a j))"
proof -
  have sp: "Split (''allow '' @ s @ CHR ''/'' # t) CHR '' '' = [''allow'', s @ CHR ''/'' # t]"
    using assms(3,4) Split_one(2) [of "CHR '' ''" "''allow''"] Split_one(1) [of "CHR '' ''" "s @ CHR ''/'' # t"]
    by simp
  have "parse_addr (s @ CHR ''/'' # t) = None"
    using parse_addr_slash [of "s @ CHR ''/'' # t"] by (cases "parse_addr (s @ CHR ''/'' # t)") auto
  then obtain ip net where "ParseCIDR (s @ CHR ''/'' # t) = Some (ip, net)"
    "rule = \<lparr>rule_Allow = True, rule_target = RuleNetwork net\<rparr>"
    using assms(1) sp by (auto simp: ParseAccessRule_def ParseIP_def split: option.splits)
  then show ?thesis using cidr_contains [OF _ assms(2,5-7), of t ip net x]
    by (auto simp: Rule_Matches_def Rule_Allows_def)
qed

lemmas ip_eval = parse_addr_def parse_ipv4_def ipv4_octet_def is_digit_def digit_val_def To16_def
  parse_ipv6_def v6_groups.simps is_hex_def hex_val_def hex_group_def has_prefix_def Let_def

lemma replicate_eval: "replicate 12 x = [x, x, x, x, x, x, x, x, x, x, x, x]"
  by (simp add: numeral_eq_Suc)

lemma sample_addresses:
  "ParseIP ''10.0.0.1'' = Some (v4_prefix @ [10, 0, 0, 1])" "ParseIP ''10.0.0.0/8'' = None"
  "parse_addr ''10.0.0.0'' = Some [10, 0, 0, 0]"
  "parse_addr ''2001:db8::'' = Some [32, 1, 13, 184, 0, 0, 0, 0, 0, 0, 0, 0, 0, 0, 0, 0]"
  "ParseCIDR ''10.0.0.0/8'' = Some (v4_prefix @ [10, 0, 0, 0], \<lparr>net_IP = [10, 0, 0, 0], net_Mask = [255, 0, 0, 0]\<rparr>)"
  by (simp_all add: ip_eval ParseIP_def ParseCIDR_def parse_bits_def CIDRMask_def IP_Mask_def mask_byte_def
      v4_prefix_def upt_rec replicate_eval)

section \<open>Access rules\<close>

text \<open>The first rule of the configuration that matches the client decides, and the default of
  the configuration (allow, when it is empty) decides when none does.\<close>

theorem access_first_match:
  assumes "NewAccess (Some c) = Ok a"
  shows "Access_Allows a ip \<longleftrightarrow>
    (case find (\<lambda>s. \<exists>rule. ParseAccessRule s = Ok rule \<and> Rule_Matches rule ip) (elems (acc_Rules c)) of
       None \<Rightarrow> acc_Default c \<noteq> ''deny''
     | Some s \<Rightarrow> hd (Split s CHR '' '') = ''allow'')"
  by (rule access_decision [OF assms])

theorem access_first_match_witness:
  "\<exists>a. NewAccess (Some \<lparr>acc_Default = ''deny'', acc_Rules = Some [''deny 10.0.0.1'', ''allow 10.0.0.0/8'']\<rparr>) = Ok a \<and>
    \<not> Access_Allows a [10, 0, 0, 1] \<and> Access_Allows a [10, 0, 0, 2] \<and> \<not> Access_Allows a [11, 0, 0, 1]"
proof -
  let ?c = "\<lparr>acc_Default = ''deny'', acc_Rules = Some [''deny 10.0.0.1'', ''allow 10.0.0.0/8'']\<rparr>"
  have r: "ParseAccessRule ''deny 10.0.0.1'' = Ok \<lparr>rule_Allow = False, rule_target = RuleIp (v4_prefix @ [10, 0, 0, 1])\<rparr>"
    "ParseAccessRule ''allow 10.0.0.0/8'' = Ok \<lparr>rule_Allow = True, rule_target = RuleNetwork
       \<lparr>net_IP = [10, 0, 0, 0], net_Mask = [255, 0, 0, 0]\<rparr>\<rparr>"
    by (simp_all add: ParseAccessRule_def sample_addresses)
  then obtain a where a: "NewAccess (Some ?c) = Ok a" by (simp add: NewAccess_def)
  show ?thesis
    by (rule exI [of _ a]) (simp add: a r access_first_match [OF a] Rule_Matches_def IP_Equal_def
        Contains_def networkNumberAndMask_def To4_def v4_prefix_def)
qed

text \<open>A rule for a CIDR block matches exactly the addresses of the same family that agree with
  the block's address in the first bits, as many as the prefix length says; an IPv4 client is
  recognised in its 4-byte and in its 16-byte form.\<close>

theorem cidr_rule_matches:
  assumes "ParseAccessRule (''allow '' @ s @ CHR ''/'' # t) = Ok rule"
    and "CHR ''/'' \<notin> set s" and "CHR '' '' \<notin> set s" and "CHR '' '' \<notin> set t"
    and "parse_addr s = Some a" and "canon a = a" and "length a = 4 \<or> length a = 16"
  shows "\<exists>n. parse_bits t = Some n \<and> Rule_Allows rule \<and>
    (Rule_Matches rule x \<longleftrightarrow> length (canon x) = length a \<and> (\<forall>j<n. ip_bit (canon x) j = ip_bit a j))"
  by (rule cidr_rule_spec [OF assms])

theorem cidr_rule_matches_witness:
  "\<exists>rule. ParseAccessRule ''allow 10.0.0.0/8'' = Ok rule \<and>
    Rule_Matches rule [10, 3, 2, 1] \<and> \<not> Rule_Matches rule [11, 0, 0, 0]"
proof -
  obtain rule where r: "ParseAccessRule ''allow 10.0.0.0/8'' = Ok rule"
    by (simp add: ParseAccessRule_def sample_addresses)
  have "Rule_Matches rule x \<longleftrightarrow> length (canon x) = 4 \<and> (\<forall>j<8. ip_bit (canon x) j = ip_bit [10, 0, 0, 0] j)" for x
    using cidr_rule_matches [of "''10.0.0.0''" "''8''" rule "[10, 0, 0, 0]" x] r sample_addresses(3)
    by (simp add: canon_def To4_def parse_bits_def is_digit_def digit_val_def)
  moreover have "\<forall>j<8. ip_bit [10, 3, 2, 1] j = ip_bit [10, 0, 0, 0] j" by (auto simp: ip_bit_def)
  moreover have "\<not> (\<forall>j<8. ip_bit [11, 0, 0, 0] j = ip_bit [10, 0, 0, 0] j)"
    by (auto simp: ip_bit_def intro!: exI [of _ 7])
  ultimately show ?thesis using r by (auto simp: canon_def To4_def)
qed

section \<open>Source addresses\<close>

lemma sample_pool:
  "\<exists>p. NewIPv6SourcePool ''2001:db8::/64'' = Ok (Some p)"
  by (simp add: NewIPv6SourcePool_def TrimSpace_def is_space_def ip_eval ParseCIDR_def parse_bits_def
      CIDRMask_def IP_Mask_def mask_byte_def v4_prefix_def To4_def mask_ones_def upt_rec)

lemma sample_subnet:
  "TrimSpace ''2001:db8::/64'' = ''2001:db8::/64''" "parse_bits ''64'' = Some 64"
  by (simp_all add: TrimSpace_def is_space_def parse_bits_def is_digit_def digit_val_def)

lemma NewIPv6SourcePool_Some:
  assumes "NewIPv6SourcePool (s @ CHR ''/'' # t) = Ok (Some p)"
    and "TrimSpace (s @ CHR ''/'' # t) = s @ CHR ''/'' # t" and "CHR ''/'' \<notin> set s"
    and "parse_addr s = Some a" and "length a = 16" and "parse_bits t = Some n"
  shows "n \<le> 128 \<and> sp_network p = map2 (AND) a (CIDRMask n 128) \<and> sp_mask p = CIDRMask n 128"
proof -
  have a16: "To16 a = a" using assms(5) by (simp add: To16_def)
  obtain ip net where c: "ParseCIDR (s @ CHR ''/'' # t) = Some (ip, net)"
    and p: "IP_Mask (To16 ip) (net_Mask net) = Some (sp_network p) \<or>
      IP_Mask (To16 ip) (net_Mask net) = None" "sp_mask p = net_Mask net"
      "IP_Mask (To16 ip) (net_Mask net) = Some y \<Longrightarrow> sp_network p = y" for y
    using assms(1,2) by (auto simp: NewIPv6SourcePool_def Let_def split: option.splits if_splits)
  have n: "n \<le> 128" "net_Mask net = CIDRMask n 128"
    using ParseCIDR_parts [OF c assms(3)] assms(4-6) by auto
  have "ip = a" using c assms(3-5) a16
    by (auto simp: ParseCIDR_def takeWhile_append dropWhile_append Let_def split: option.splits if_splits)
  then have "IP_Mask (To16 ip) (net_Mask net) = Some (map2 (AND) a (CIDRMask n 128))"
    using n assms(5) a16 by (simp add: IP_Mask_def)
  then show ?thesis using n p by simp
qed

lemma source_run_subnet:
  assumes "NewIPv6SourcePool (s @ CHR ''/'' # t) = Ok (Some p)"
    and "TrimSpace (s @ CHR ''/'' # t) = s @ CHR ''/'' # t" and "CHR ''/'' \<notin> set s"
    and "parse_addr s = Some a" and "length a = 16" and "parse_bits t = Some n"
  shows "\<forall>ip\<in>set (source_run k (Some p)). \<exists>x. ip = Some x \<and> length x = 16 \<and> (\<forall>j<n. ip_bit x j = ip_bit a j)"
proof -
  have p: "n \<le> 128" "sp_network p = map2 (AND) a (CIDRMask n 128)" "sp_mask p = CIDRMask n 128"
    using NewIPv6SourcePool_Some [OF assms] by simp_all
  have "ip_bit (sp_network p) j = ip_bit a j" if "j < n" for j
  proof -
    have "j div 8 < 16" "j < 128" using that p(1) by auto
    then show ?thesis using bit_CIDRMask [of j n] that assms(5)
      by (simp add: p(2) ip_bit_def bit_and_iff)
  qed
  then show ?thesis unfolding source_run_eq using source_ip_network [OF _ p(1)] by (auto simp: p(3))
qed

lemma source_pool_distinct:
  assumes "NewIPv6SourcePool (s @ CHR ''/'' # t) = Ok (Some p)"
    and "TrimSpace (s @ CHR ''/'' # t) = s @ CHR ''/'' # t" and "CHR ''/'' \<notin> set s"
    and "parse_addr s = Some a" and "length a = 16" and "parse_bits t = Some n"
    and "k \<le> 2 ^ min (128 - n) 64"
  shows "distinct (source_run k (Some p))"
  using NewIPv6SourcePool_Some [OF assms(1-6)] source_run_distinct [of n p k] assms(7) by blast


text \<open>Every address that the pool hands out lies in the configured IPv6 subnet.\<close>

theorem source_in_subnet:
  assumes "NewIPv6SourcePool (s @ CHR ''/'' # t) = Ok (Some p)"
    and "TrimSpace (s @ CHR ''/'' # t) = s @ CHR ''/'' # t" and "CHR ''/'' \<notin> set s"
    and "parse_addr s = Some a" and "length a = 16" and "parse_bits t = Some n"
  shows "\<forall>ip\<in>set (source_run k (Some p)). \<exists>x. ip = Some x \<and> length x = 16 \<and> (\<forall>j<n. ip_bit x j = ip_bit a j)"
  by (rule source_run_subnet [OF assms])

theorem source_in_subnet_witness:
  "\<exists>p x. NewIPv6SourcePool ''2001:db8::/64'' = Ok (Some p) \<and> source_run 1 (Some p) = [Some x] \<and>
     \<not> ip_bit x 0 \<and> ip_bit x 2"
proof -
  obtain p where p: "NewIPv6SourcePool ''2001:db8::/64'' = Ok (Some p)" using sample_pool by blast
  obtain x where x: "source_run 1 (Some p) = [Some x]" by (simp add: SourcePool_Next_def Let_def)
  have "\<forall>ip\<in>set (source_run 1 (Some p)). \<exists>x. ip = Some x \<and> length x = 16 \<and>
      (\<forall>j<64. ip_bit x j = ip_bit [32, 1, 13, 184, 0, 0, 0, 0, 0, 0, 0, 0, 0, 0, 0, 0] j)"
    using source_in_subnet [of "''2001:db8::''" "''64''" p _ 64 1] p sample_addresses(4) sample_subnet by simp
  then have "\<forall>j<64. ip_bit x j = ip_bit [32, 1, 13, 184, 0, 0, 0, 0, 0, 0, 0, 0, 0, 0, 0, 0] j"
    unfolding x by simp
  from this [rule_format, of 0] this [rule_format, of 2] p x show ?thesis by (auto simp: ip_bit_def)
qed

text \<open>The pool does not repeat an address before it has handed out all of the subnet (or
  2 to the 64 addresses, when the subnet is larger).\<close>

theorem source_addresses_distinct:
  assumes "NewIPv6SourcePool (s @ CHR ''/'' # t) = Ok (Some p)"
    and "TrimSpace (s @ CHR ''/'' # t) = s @ CHR ''/'' # t" and "CHR ''/'' \<notin> set s"
    and "parse_addr s = Some a" and "length a = 16" and "parse_bits t = Some n"
    and "k \<le> 2 ^ min (128 - n) 64"
  shows "distinct (source_run k (Some p))"
  by (rule source_pool_distinct [OF assms])

theorem source_addresses_distinct_witness:
  "\<exists>p. NewIPv6SourcePool ''2001:db8::/64'' = Ok (Some p) \<and> distinct (source_run 1000000 (Some p))"
proof -
  obtain p where p: "NewIPv6SourcePool ''2001:db8::/64'' = Ok (Some p)" using sample_pool by blast
  have "distinct (source_run 1000000 (Some p))"
    by (rule source_addresses_distinct [of "''2001:db8::''" "''64''" p
        "[32, 1, 13, 184, 0, 0, 0, 0, 0, 0, 0, 0, 0, 0, 0, 0]" 64])
      (use p sample_addresses(4) sample_subnet in simp_all)
  with p show ?thesis by blast
qed

end
