(* ===== verification/Proxy.thy ===== *)
theory Proxy
  imports Core
begin

text \<open>
  The two goroutines of \<open>proxy\<close> (src/src/server/tcp/proxy.go): the copy loop between two
  connections, and the collector that adds its read and write counts up and publishes them once
  per second.
\<close>

section \<open>The copy loop\<close>

definition BUFFER_SIZE :: nat where
  "BUFFER_SIZE = 16 * 1024"

datatype io_error = EOF | ErrShortWrite | IoError string

text \<open>
  One turn of the loop: what \<open>Read\<close> returned (the bytes and the error) and, when there were
  bytes, what \<open>Write\<close> returned.
\<close>

record copy_io =
  ci_data :: string
  ci_readErr :: "io_error option"
  ci_writeN :: nat
  ci_writeErr :: "io_error option"

text \<open>\<open>Running\<close> is a loop that still waits in \<open>Read\<close>; \<open>Finished\<close> holds the returned error.\<close>

datatype copy_end = Running | Finished "io_error option"

definition copy_count :: "copy_io \<Rightarrow> ReadWriteCount list" where
  "copy_count io = (if ci_writeN io > 0
     then [\<lparr>CountRead = of_nat (length (ci_data io)), CountWrite = of_nat (ci_writeN io),
            rwc_Target = zero_target\<rparr>] else [])"

text \<open>
  \<open>Copy\<close>: the counts sent to the collector, the bytes that \<open>to\<close> has accepted, and how it ended.
\<close>

fun Copy :: "copy_io list \<Rightarrow> ReadWriteCount list \<times> string \<times> copy_end" where
  "Copy [] = ([], [], Running)"
| "Copy (io # ios) =
     (let continue = (\<lambda>rwcs out.
            if ci_readErr io = Some EOF then (rwcs, out, Finished None)
            else if ci_readErr io \<noteq> None then (rwcs, out, Finished (ci_readErr io))
            else let (rwcs', out', e) = Copy ios in (rwcs @ rwcs', out @ out', e))
      in if ci_data io \<noteq> [] then
           let out = take (ci_writeN io) (ci_data io)
           in if ci_writeErr io \<noteq> None then (copy_count io, out, Finished (ci_writeErr io))
              else if length (ci_data io) \<noteq> ci_writeN io then (copy_count io, out, Finished (Some ErrShortWrite))
              else continue (copy_count io) out
         else continue [] [])"

text \<open>What \<open>io.Reader\<close> and \<open>io.Writer\<close> promise of the counts they return.\<close>

definition io_contract :: "copy_io \<Rightarrow> bool" where
  "io_contract io \<longleftrightarrow> length (ci_data io) \<le> BUFFER_SIZE \<and> ci_writeN io \<le> length (ci_data io)"

section \<open>The collector\<close>

record collector =
  rwcBuffer :: ReadWriteCount
  flushed :: bool
  col_open :: bool

definition new_collector :: collector where
  "new_collector = \<lparr>rwcBuffer = \<lparr>CountRead = 0, CountWrite = 0, rwc_Target = zero_target\<rparr>,
     flushed = False, col_open = True\<rparr>"

datatype collector_event = ColTick | ColStats ReadWriteCount | ColClosed

definition publish :: "ReadWriteCount \<Rightarrow> ReadWriteCount list" where
  "publish rwc = (if IsZero rwc then [] else [rwc])"

text \<open>One turn of the \<open>select\<close>: the new state and what is sent on \<open>outStats\<close>.\<close>

fun collector_step :: "collector_event \<Rightarrow> collector \<Rightarrow> collector \<times> ReadWriteCount list" where
  "collector_step ColTick c = (c\<lparr>flushed := True\<rparr>, publish (rwcBuffer c))"
| "collector_step ColClosed c =
     (c\<lparr>col_open := False\<rparr>, if \<not> flushed c then publish (rwcBuffer c) else [])"
| "collector_step (ColStats rwc) c =
     ((if flushed c then c\<lparr>rwcBuffer := rwc\<rparr>
       else c\<lparr>rwcBuffer := (rwcBuffer c)\<lparr>CountRead := CountRead (rwcBuffer c) + CountRead rwc,
                                        CountWrite := CountWrite (rwcBuffer c) + CountWrite rwc\<rparr>\<rparr>)
      \<lparr>flushed := False\<rparr>, [])"

fun collector_run :: "collector_event list \<Rightarrow> collector \<Rightarrow> collector \<times> ReadWriteCount list" where
  "collector_run [] c = (c, [])"
| "collector_run (e # es) c =
     (if \<not> col_open c then (c, [])
      else let (c, out) = collector_step e c; (c, outs) = collector_run es c in (c, out @ outs))"

section \<open>Lemmas: the copy loop\<close>

lemma copy_count_writes:
  "io_contract io \<Longrightarrow> sum_list (map CountWrite (copy_count io)) = of_nat (length (take (ci_writeN io) (ci_data io)))"
  by (simp add: copy_count_def io_contract_def)

definition copied_writes :: "ReadWriteCount list \<Rightarrow> uint64" where
  "copied_writes rwcs = sum_list (map CountWrite rwcs)"

text \<open>
  The bytes that arrive are those that were read, in order, up to the point where the loop
  stopped; the counts add up to them; and a loop that ended without error lost nothing.
\<close>

lemma Copy_spec:
  assumes "\<forall>io\<in>set ios. io_contract io" and "Copy ios = (rwcs, out, e)"
  shows "\<exists>n\<le>length ios. \<exists>lost. concat (map ci_data (take n ios)) = out @ lost \<and>
    copied_writes rwcs = of_nat (length out) \<and> (e = Finished None \<or> e = Running \<longrightarrow> lost = []) \<and>
    (e = Running \<longrightarrow> n = length ios)"
  using assms
proof (induction ios arbitrary: rwcs out e)
  case Nil
  then show ?case by (simp add: copied_writes_def)
next
  case (Cons io ios)
  have w: "ci_writeN io \<le> length (ci_data io)" using Cons.prems(1) by (simp add: io_contract_def)
  have one: ?case if "concat (map ci_data (take 1 (io # ios))) = out @ lost"
    "copied_writes rwcs = of_nat (length out)" "e = Finished None \<or> e = Running \<longrightarrow> lost = []" "e \<noteq> Running" for lost
    using that by (intro exI [of _ 1]) auto
  have more: ?case if h: "Copy ios = (rwcs', out', e)" "rwcs = copy_count io @ rwcs'" "out = ci_data io @ out'"
    "ci_writeN io = length (ci_data io)" for rwcs' out'
  proof -
    obtain n lost where n: "n \<le> length ios" "concat (map ci_data (take n ios)) = out' @ lost"
      "copied_writes rwcs' = of_nat (length out')" "e = Finished None \<or> e = Running \<longrightarrow> lost = []"
      "e = Running \<longrightarrow> n = length ios"
      using Cons.IH [OF _ h(1)] Cons.prems(1) by auto
    have "copied_writes rwcs = of_nat (length out)"
      using n(3) h(2-4) by (simp add: copied_writes_def copy_count_def)
    then show ?case using n h(3) by (intro exI [of _ "Suc n"]) auto
  qed
  show ?case
  proof (cases "ci_data io = []")
    case True
    then show ?thesis
    proof (cases "ci_readErr io = None")
      case True
      obtain rwcs' out' where c: "Copy ios = (rwcs', out', e)" "rwcs = rwcs'" "out = out'"
        using Cons.prems(2) True \<open>ci_data io = []\<close> by (auto split: prod.splits)
      obtain n lost where "n \<le> length ios" "concat (map ci_data (take n ios)) = out @ lost"
        "copied_writes rwcs = of_nat (length out)" "e = Finished None \<or> e = Running \<longrightarrow> lost = []"
        "e = Running \<longrightarrow> n = length ios"
        using Cons.IH [OF _ c(1)] Cons.prems(1) c(2,3) by auto
      then show ?thesis using \<open>ci_data io = []\<close> by (intro exI [of _ "Suc n"]) auto
    next
      case False
      then show ?thesis using one [of "[]"] True Cons.prems(2)
        by (auto simp: copied_writes_def split: if_splits)
    qed
  next
    case data: False
    show ?thesis
    proof (cases "ci_writeErr io = None \<and> length (ci_data io) = ci_writeN io \<and> ci_readErr io = None")
      case True
      then show ?thesis using Cons.prems(2) data more by (auto split: prod.splits)
    next
      case False
      have "copied_writes (copy_count io) = of_nat (length (take (ci_writeN io) (ci_data io)))"
        using copy_count_writes Cons.prems(1) by (simp add: copied_writes_def)
      then show ?thesis using one [of "drop (ci_writeN io) (ci_data io)"] False data Cons.prems(2) w
        by (auto simp: Let_def split: if_splits)
    qed
  qed
qed

section \<open>Lemmas: the collector\<close>

text \<open>
  What the collector publishes twice: a tick that finds the buffer already flushed sends it once
  more.
\<close>

fun resent :: "collector_event list \<Rightarrow> collector \<Rightarrow> ReadWriteCount list" where
  "resent [] c = []"
| "resent (e # es) c =
     (if \<not> col_open c then []
      else (if e = ColTick \<and> flushed c then publish (rwcBuffer c) else [])
        @ resent es (fst (collector_step e c)))"

fun collected :: "collector_event list \<Rightarrow> ReadWriteCount list" where
  "collected [] = []"
| "collected (ColStats rwc # es) = rwc # collected es"
| "collected (ColTick # es) = collected es"
| "collected (ColClosed # es) = []"

definition pending :: "collector \<Rightarrow> uint64" where
  "pending c = (if flushed c \<or> \<not> col_open c then 0 else CountWrite (rwcBuffer c))"

lemma copied_writes_simps [simp]:
  "copied_writes [] = 0" "copied_writes (r # rs) = CountWrite r + copied_writes rs"
  "copied_writes (rs @ rs') = copied_writes rs + copied_writes rs'"
  by (simp_all add: copied_writes_def)

lemma copied_writes_publish [simp]: "copied_writes (publish r) = CountWrite r"
  by (simp add: publish_def IsZero_def)

lemma collector_run_spec:
  "collector_run es c = (c', outs) \<Longrightarrow> col_open c \<Longrightarrow>
   copied_writes outs + pending c' = pending c + copied_writes (collected es) + copied_writes (resent es c)"
proof (induction es arbitrary: c c' outs)
  case (Cons e es)
  obtain c1 out where s: "collector_step e c = (c1, out)" by fastforce
  obtain outs1 where r: "collector_run es c1 = (c', outs1)" "outs = out @ outs1"
    using Cons.prems s by (auto split: prod.splits)
  show ?case
  proof (cases e)
    case ColClosed
    then have "\<not> col_open c1" using s by auto
    then have "c' = c1" "outs1 = []" "resent es c1 = []" using r(1) by (cases es; auto)+
    then show ?thesis using ColClosed s r Cons.prems by (auto simp: pending_def)
  next
    case ColTick
    then have "col_open c1" using s Cons.prems by auto
    from Cons.IH [OF r(1) this] show ?thesis
      using ColTick s r Cons.prems by (auto simp: pending_def)
  next
    case (ColStats rwc)
    then have "col_open c1" using s Cons.prems by auto
    from Cons.IH [OF r(1) this] show ?thesis
      using ColStats s r Cons.prems by (auto simp: pending_def algebra_simps split: if_splits)
  qed
qed (simp add: pending_def)

lemma collector_run_append:
  "ColClosed \<notin> set es \<Longrightarrow> col_open c \<Longrightarrow> collector_run (es @ es') c =
    (let (c1, o1) = collector_run es c; (c2, o2) = collector_run es' c1 in (c2, o1 @ o2))"
proof (induction es arbitrary: c)
  case (Cons e es)
  then have "col_open (fst (collector_step e c))" by (cases e) auto
  then show ?case using Cons by (auto simp: Let_def split: prod.splits)
qed simp

lemma collected_closed: "ColClosed \<notin> set es \<Longrightarrow> collected (es @ [ColClosed]) = collected es"
  by (induction es rule: collected.induct) auto

lemma resent_closed: "ColClosed \<notin> set es \<Longrightarrow> resent (es @ [ColClosed]) c = resent es c"
  by (induction es arbitrary: c) auto

lemma collector_run_stopped: "\<not> col_open c \<Longrightarrow> collector_run es c = (c, [])"
  by (cases es) auto

lemma collector_run_closed:
  "collector_run es c = (c', outs) \<Longrightarrow> ColClosed \<in> set es \<Longrightarrow> \<not> col_open c'"
proof (induction es arbitrary: c outs)
  case (Cons e es)
  obtain c1 out where s: "collector_step e c = (c1, out)" by fastforce
  obtain c2 outs2 where r: "collector_run es c1 = (c2, outs2)" by fastforce
  show ?case
  proof (cases "col_open c")
    case True
    then have c': "c' = c2" using Cons.prems(1) s r by simp
    show ?thesis
    proof (cases "e = ColClosed")
      case True
      then have "\<not> col_open c1" using s by auto
      then show ?thesis using r c' by (simp add: collector_run_stopped)
    next
      case False
      then show ?thesis using Cons.IH [of c1 outs2] r Cons.prems(2) c' by simp
    qed
  next
    case False
    then show ?thesis using Cons.prems(1) by simp
  qed
qed simp

lemma collector_closed:
  assumes "collector_run (es @ [ColClosed]) new_collector = (c, outs)" and "ColClosed \<notin> set es"
  shows "copied_writes outs = copied_writes (collected es) + copied_writes (resent es new_collector)"
proof -
  have "col_open new_collector" "pending new_collector = 0" by (simp_all add: new_collector_def pending_def)
  moreover have "pending c = 0"
    using collector_run_closed [OF assms(1)] by (simp add: pending_def)
  ultimately show ?thesis
    using collector_run_spec [OF assms(1)] assms(2) by (simp add: collected_closed resent_closed)
qed

end
