(* ===== verification/Tcp_Server.thy ===== *)
theory Tcp_Server
  imports Scheduler Proxy Access Source_Pool
begin

text \<open>
  The TCP server (src/src/server/tcp/server.go): the goroutine that owns the map of clients, and
  the handler of one connection from access check to the end of the proxying. What the outside
  answers to one connection (the scheduler's election, the dial, the proxies' counts) is data.
\<close>

section \<open>Accepting a connection\<close>

datatype keepalive_call = SetKeepAlive bool | SetKeepAlivePeriod goint

text \<open>\<open>set_ok\<close>: whether \<open>SetKeepAlive\<close> succeeded.\<close>

definition configureClientKeepalive :: "ConnectionOptions \<Rightarrow> bool \<Rightarrow> keepalive_call list" where
  "configureClientKeepalive co set_ok =
     (let enabled = (co_ClientTcpKeepalive co = Some True)
      in SetKeepAlive enabled #
        (if \<not> set_ok \<or> \<not> enabled then []
         else case co_ClientTcpKeepalivePeriod co of
             None \<Rightarrow> []
           | Some p \<Rightarrow> let period = ParseDurationOrDefault p 0
                       in if period \<le> 0 then [] else [SetKeepAlivePeriod period]))"

text \<open>
  \<open>wrap\<close>: the context that is sent to the server goroutine, or \<open>None\<close> when the connection is
  closed; \<open>sniffed\<close> is what SNI sniffing returned.
\<close>

definition wrap :: "Server \<Rightarrow> Addr \<Rightarrow> string outcome \<Rightarrow> Context option" where
  "wrap cfg remote sniffed =
     (if srv_Sni cfg \<noteq> None then
        (case sniffed of Ok hostname \<Rightarrow> Some (TcpContext hostname remote) | _ \<Rightarrow> None)
      else Some (TcpContext [] remote))"

section \<open>Handling a connection\<close>

datatype stat_event = CsStats ReadWriteCount | CsClosed | BsStats ReadWriteCount | BsClosed

record tcp_env =
  te_elected :: "Backend outcome"
  te_dial_ok :: bool
  te_send_header_ok :: "string \<Rightarrow> bool"
  te_stats :: "stat_event list"

record dialer =
  dl_Timeout :: goint
  dl_KeepAlive :: goint
  dl_LocalAddr :: "IP option"
  dl_tls :: bool

datatype tcp_action =
    ActCloseClient
  | ActTake Context
  | ActDial dialer string
  | ActSendHeader string
  | ActProxy goint goint
  | ActOp Op

datatype handle_end = HRunning | HDone | HPanic

text \<open>
  The loop over the counts of both directions; a channel that was closed is set to nil and is
  never ready again.
\<close>

fun stat_loop :: "Backend \<Rightarrow> bool \<Rightarrow> bool \<Rightarrow> stat_event list \<Rightarrow> Op list \<times> bool" where
  "stat_loop b isTx isRx [] = ([], \<not> isTx \<and> \<not> isRx)"
| "stat_loop b isTx isRx (e # es) =
     (if \<not> isTx \<and> \<not> isRx then ([], True)
      else case e of
          CsStats s \<Rightarrow> (let (ops, e) = stat_loop b isTx isRx es in
            if isRx then (Scheduler_IncrementRx b (CountWrite s) # ops, e) else (ops, e))
        | CsClosed \<Rightarrow> stat_loop b isTx False es
        | BsStats s \<Rightarrow> (let (ops, e) = stat_loop b isTx isRx es in
            if isTx then (Scheduler_IncrementTx b (CountWrite s) # ops, e) else (ops, e))
        | BsClosed \<Rightarrow> stat_loop b False isRx es)"

definition dialer_keepalive :: "ConnectionOptions \<Rightarrow> goint" where
  "dialer_keepalive co =
     (if co_BackendTcpKeepalive co = Some False then -1
      else case co_BackendTcpKeepalivePeriod co of None \<Rightarrow> 0
        | Some p \<Rightarrow> let period = ParseDurationOrDefault p 0 in if period > 0 then period else 0)"

definition backend_dialer :: "Server \<Rightarrow> string \<Rightarrow> IP option \<Rightarrow> dialer" where
  "backend_dialer cfg timeout source = \<lparr>dl_Timeout = ParseDurationOrDefault timeout 0,
     dl_KeepAlive = dialer_keepalive (srv_Options cfg), dl_LocalAddr = source,
     dl_tls = (srv_BackendsTls cfg \<noteq> None)\<rparr>"

text \<open>From the registration of the connection to its end, with the deferred decrement.\<close>

definition handle_proxying ::
    "Server \<Rightarrow> Backend \<Rightarrow> tcp_env \<Rightarrow> tcp_action list \<times> handle_end" where
  "handle_proxying cfg b env =
     (let co = srv_Options cfg;
          release = ActOp (Scheduler_DecrementConnection b);
          proxying =
            (case (co_BackendIdleTimeout co, co_ClientIdleTimeout co) of
               (Some bt, Some ct) \<Rightarrow>
                 (let (ops, finished) = stat_loop b True True (te_stats env)
                  in (ActProxy (ParseDurationOrDefault bt 0) (ParseDurationOrDefault ct 0) # map ActOp ops
                        @ (if finished then [release] else []),
                      if finished then HDone else HRunning))
             | _ \<Rightarrow> ([release], HPanic))
      in case srv_ProxyProtocol cfg of
          None \<Rightarrow> proxying
        | Some pp \<Rightarrow>
            if pp_Version pp = ''1'' \<or> pp_Version pp = ''2'' then
              (if te_send_header_ok env (pp_Version pp)
               then (let (acts, e) = proxying in (ActSendHeader (pp_Version pp) # acts, e))
               else ([ActSendHeader (pp_Version pp), release], HDone))
            else ([release], HDone))"

text \<open>From the election on: the dial, the registration, the proxying.\<close>

definition handle_elected ::
    "Server \<Rightarrow> SourcePool option \<Rightarrow> tcp_env \<Rightarrow> Backend \<Rightarrow> tcp_action list \<times> handle_end \<times> SourcePool option" where
  "handle_elected cfg pool env b =
     (case co_BackendConnectionTimeout (srv_Options cfg) of
        None \<Rightarrow> ([], HPanic, pool)
      | Some timeout \<Rightarrow>
          (let (source, pool) = SourcePool_Next pool;
               dial = ActDial (backend_dialer cfg timeout source) (Backend_Address b)
           in if \<not> te_dial_ok env then ([dial, ActOp (Scheduler_IncrementRefused b)], HDone, pool)
              else
                (let (acts, e) = handle_proxying cfg b env
                 in (dial # ActOp (Scheduler_IncrementConnection b) # acts, e, pool))))"

definition access_denied :: "Access option \<Rightarrow> Context \<Rightarrow> bool" where
  "access_denied acc ctx \<longleftrightarrow> (case acc of None \<Rightarrow> False | Some a \<Rightarrow> \<not> Access_Allows a (Context_Ip ctx))"

definition handle ::
    "Server \<Rightarrow> Access option \<Rightarrow> SourcePool option \<Rightarrow> Context \<Rightarrow> tcp_env \<Rightarrow>
     tcp_action list \<times> handle_end \<times> SourcePool option" where
  "handle cfg acc pool ctx env =
     (if access_denied acc ctx then ([ActCloseClient], HDone, pool)
      else case te_elected env of
          Err _ \<Rightarrow> ([ActTake ctx], HDone, pool)
        | Panic \<Rightarrow> ([ActTake ctx], HPanic, pool)
        | Ok b \<Rightarrow> (let (acts, e, pool) = handle_elected cfg pool env b in (ActTake ctx # acts, e, pool)))"

section \<open>The map of clients\<close>

record Conn =
  conn_id :: nat
  conn_remote :: string

text \<open>
  \<open>this.clients\<close> as an association list with distinct keys. \<open>ts_handling\<close> holds the connections
  whose handler goroutine is running.
\<close>

record TcpServer =
  ts_cfg :: Server
  ts_clients :: "(string \<times> Conn) list"
  ts_handling :: "Conn list"
  ts_listening :: bool
  ts_running :: bool

datatype tcp_effect =
    CloseConn Conn
  | ConnectionsStat nat
  | GoHandle Conn
  | SchedulerStop
  | StatsStop
  | ListenerClose

datatype tcp_event = TcpConnect Conn | TcpDisconnect Conn | TcpStop

definition clients_put :: "string \<Rightarrow> 'a \<Rightarrow> (string \<times> 'a) list \<Rightarrow> (string \<times> 'a) list" where
  "clients_put k v m = (k, v) # filter (\<lambda>p. fst p \<noteq> k) m"

definition clients_delete :: "string \<Rightarrow> (string \<times> 'a) list \<Rightarrow> (string \<times> 'a) list" where
  "clients_delete k m = filter (\<lambda>p. fst p \<noteq> k) m"

definition HandleClientConnect :: "Conn \<Rightarrow> TcpServer \<Rightarrow> (TcpServer \<times> tcp_effect list) outcome" where
  "HandleClientConnect c s =
     (case co_MaxConnections (srv_Options (ts_cfg s)) of
        None \<Rightarrow> Panic
      | Some mx \<Rightarrow>
          if mx \<noteq> 0 \<and> int (length (ts_clients s)) \<ge> mx then Ok (s, [CloseConn c])
          else let clients = clients_put (conn_remote c) c (ts_clients s)
               in Ok (s\<lparr>ts_clients := clients, ts_handling := c # ts_handling s\<rparr>,
                      [ConnectionsStat (length clients), GoHandle c]))"

text \<open>The handler of \<open>client\<close> has returned and sent it on \<open>disconnect\<close>.\<close>

definition HandleClientDisconnect :: "Conn \<Rightarrow> TcpServer \<Rightarrow> TcpServer \<times> tcp_effect list" where
  "HandleClientDisconnect c s =
     (let clients = clients_delete (conn_remote c) (ts_clients s)
      in (s\<lparr>ts_clients := clients, ts_handling := remove1 c (ts_handling s)\<rparr>,
          [CloseConn c, ConnectionsStat (length clients)]))"

definition TcpServer_stop :: "TcpServer \<Rightarrow> TcpServer \<times> tcp_effect list" where
  "TcpServer_stop s =
     (s\<lparr>ts_clients := [], ts_running := False, ts_listening := False\<rparr>,
      [SchedulerStop, StatsStop] @
        (if ts_listening s then ListenerClose # map (\<lambda>p. CloseConn (snd p)) (ts_clients s) else []))"

fun tcp_step :: "tcp_event \<Rightarrow> TcpServer \<Rightarrow> (TcpServer \<times> tcp_effect list) outcome" where
  "tcp_step (TcpConnect c) s = HandleClientConnect c s"
| "tcp_step (TcpDisconnect c) s = Ok (HandleClientDisconnect c s)"
| "tcp_step TcpStop s = Ok (TcpServer_stop s)"

text \<open>
  What the environment guarantees: two connections that are open at the same time have different
  remote addresses, and a handler disconnects once.
\<close>

fun tcp_enabled :: "tcp_event \<Rightarrow> TcpServer \<Rightarrow> bool" where
  "tcp_enabled (TcpConnect c) s \<longleftrightarrow> conn_remote c \<notin> conn_remote ` set (ts_handling s)"
| "tcp_enabled (TcpDisconnect c) s \<longleftrightarrow> c \<in> set (ts_handling s)"
| "tcp_enabled TcpStop s \<longleftrightarrow> True"

inductive tcp_run :: "TcpServer \<Rightarrow> tcp_event list \<Rightarrow> tcp_effect list \<Rightarrow> TcpServer \<Rightarrow> bool" where
  tcp_start: "tcp_run s [] [] s"
| tcp_next: "tcp_run s evs effs s' \<Longrightarrow> ts_running s' \<Longrightarrow> tcp_enabled ev s' \<Longrightarrow>
    tcp_step ev s' = Ok (s'', effs') \<Longrightarrow> tcp_run s (evs @ [ev]) (effs @ effs') s''"

definition TcpServer_init :: "Server \<Rightarrow> TcpServer" where
  "TcpServer_init cfg = \<lparr>ts_cfg = cfg, ts_clients = [], ts_handling = [], ts_listening = True, ts_running = True\<rparr>"

section \<open>Lemmas: the map of clients\<close>

definition tcp_inv :: "TcpServer \<Rightarrow> bool" where
  "tcp_inv s \<longleftrightarrow> distinct (map fst (ts_clients s)) \<and> distinct (map conn_remote (ts_handling s)) \<and>
     (ts_running s \<longrightarrow> set (ts_clients s) = (\<lambda>c. (conn_remote c, c)) ` set (ts_handling s)) \<and>
     (ts_running s \<longrightarrow> (case co_MaxConnections (srv_Options (ts_cfg s)) of
        Some mx \<Rightarrow> mx > 0 \<longrightarrow> int (length (ts_clients s)) \<le> mx | None \<Rightarrow> True))"

lemma clients_put_fresh: "k \<notin> fst ` set m \<Longrightarrow> clients_put k v m = (k, v) # m"
  unfolding clients_put_def by (subst filter_True) force+

lemma distinct_clients_delete [simp]:
  "distinct (map fst m) \<Longrightarrow> distinct (map fst (clients_delete k m))"
  by (simp add: clients_delete_def distinct_map_filter)

lemma clients_handling:
  "set clients = (\<lambda>c. (conn_remote c, c)) ` set hs \<Longrightarrow> fst ` set clients = conn_remote ` set hs"
  by (simp add: image_image)

lemma tcp_inv_length:
  assumes "tcp_inv s" and "ts_running s"
  shows "length (ts_clients s) = length (ts_handling s)"
proof -
  have "length (ts_clients s) = card (fst ` set (ts_clients s))"
    using assms(1) distinct_card [of "map fst (ts_clients s)"] by (simp add: tcp_inv_def)
  also have "\<dots> = card (conn_remote ` set (ts_handling s))"
    using assms clients_handling [of "ts_clients s"] by (simp add: tcp_inv_def)
  also have "\<dots> = length (ts_handling s)"
    using assms(1) distinct_card [of "map conn_remote (ts_handling s)"] by (simp add: tcp_inv_def)
  finally show ?thesis .
qed

lemma tcp_inv_init: "tcp_inv (TcpServer_init cfg)"
  by (simp add: tcp_inv_def TcpServer_init_def split: option.split)

lemma tcp_step_inv:
  assumes "tcp_step ev s = Ok (s', effs)" and "tcp_enabled ev s" and "tcp_inv s" and "ts_running s"
  shows "tcp_inv s'"
proof (cases ev)
  case (TcpConnect c)
  show ?thesis
  proof (cases "s' = s")
    case False
    have fresh: "conn_remote c \<notin> fst ` set (ts_clients s)"
      using assms(2-4) TcpConnect clients_handling [of "ts_clients s"] by (auto simp: tcp_inv_def)
    obtain mx where mx: "co_MaxConnections (srv_Options (ts_cfg s)) = Some mx"
      "mx = 0 \<or> int (length (ts_clients s)) < mx"
      "s' = s\<lparr>ts_clients := (conn_remote c, c) # ts_clients s, ts_handling := c # ts_handling s\<rparr>"
      using assms(1) TcpConnect False clients_put_fresh [OF fresh]
      by (auto simp: HandleClientConnect_def Let_def split: option.splits if_splits)
    then show ?thesis using assms(2-4) TcpConnect fresh by (auto simp: tcp_inv_def)
  qed (use assms(3) in simp)
next
  case (TcpDisconnect c)
  then have s': "s' = s\<lparr>ts_clients := clients_delete (conn_remote c) (ts_clients s),
      ts_handling := remove1 c (ts_handling s)\<rparr>"
    using assms(1) by (simp add: HandleClientDisconnect_def Let_def)
  have d: "distinct (map conn_remote (ts_handling s))" "distinct (ts_handling s)"
    using assms(3) by (auto simp: tcp_inv_def distinct_map)
  have "set (remove1 c (ts_handling s)) = {x \<in> set (ts_handling s). conn_remote x \<noteq> conn_remote c}"
    using d assms(2) TcpDisconnect by (auto simp: distinct_map dest: inj_onD)
  moreover have "distinct (map conn_remote (remove1 c (ts_handling s)))"
    using d by (metis distinct_map distinct_remove1 inj_on_subset set_remove1_subset)
  moreover have le: "int (length (filter (\<lambda>p. fst p \<noteq> conn_remote c) (ts_clients s))) \<le> int (length (ts_clients s))"
    by simp
  ultimately show ?thesis using assms(3,4) s'
    by (auto simp: tcp_inv_def clients_delete_def distinct_map_filter intro: order_trans [OF le] split: option.splits)
next
  case TcpStop
  then show ?thesis using assms(1,3) by (auto simp: TcpServer_stop_def tcp_inv_def split: option.split)
qed

lemma tcp_run_inv: "tcp_run s evs effs s' \<Longrightarrow> tcp_inv s \<Longrightarrow> tcp_inv s'"
  by (induction rule: tcp_run.induct) (auto intro: tcp_step_inv)

lemma tcp_run_cfg: "tcp_run s evs effs s' \<Longrightarrow> ts_cfg s' = ts_cfg s"
proof (induction rule: tcp_run.induct)
  case (tcp_next s evs effs s' ev s'' effs')
  have "ts_cfg s'' = ts_cfg s'" using tcp_next.hyps(4)
    by (cases ev) (auto simp: HandleClientConnect_def HandleClientDisconnect_def TcpServer_stop_def Let_def
        split: option.splits if_splits)
  then show ?case using tcp_next.IH by simp
qed simp

end
