(* ===== verification/Tcp_Accept.thy ===== *)
theory Tcp_Accept
  imports Tcp_Server
begin

text \<open>
  The way of a connection into the TCP server (\<open>Listen\<close> and \<open>wrap\<close> in src/src/server/tcp/server.go):
  the accept loop, one goroutine per connection that sniffs it and then hands it over on \<open>connect\<close>, and
  the goroutine that owns the map of clients. The channels are unbuffered, so a handover is one step of
  both sides.
\<close>

text \<open>
  \<open>ac_wrapping\<close>: connections whose \<open>wrap\<close> is still sniffing; \<open>ac_waiting\<close>: those whose \<open>wrap\<close> is in
  \<open>this.connect <-\<close>. What has been accepted so far, and what \<open>wrap\<close> and the server's goroutine have
  closed, is recorded beside the code's state.
\<close>

record Acceptor =
  ac_server :: TcpServer
  ac_accepting :: bool
  ac_wrapping :: "Conn list"
  ac_waiting :: "(Context \<times> Conn) list"
  ac_accepted :: "Conn list"
  ac_closed :: "Conn list"

datatype accept_event =
    Accepted Conn
  | AcceptFailed
  | Wrapped Conn Addr "string outcome"
  | Connect Conn
  | Disconnect Conn
  | StopServer

definition closes :: "tcp_effect list \<Rightarrow> Conn list" where
  "closes effs = List.map_filter (\<lambda>e. case e of CloseConn c \<Rightarrow> Some c | _ \<Rightarrow> None) effs"

definition open_conns :: "Acceptor \<Rightarrow> Conn list" where
  "open_conns s = ac_wrapping s @ map snd (ac_waiting s) @ ts_handling (ac_server s)"

text \<open>
  One step. \<open>Accept\<close> returns connections that are new, each with a remote address that no connection
  in use has; the loop ends with its first error, whatever that is.
\<close>

inductive accept_step :: "Acceptor \<Rightarrow> accept_event \<Rightarrow> Acceptor \<Rightarrow> bool" where
  st_accept: "ac_accepting s \<Longrightarrow> ts_listening (ac_server s) \<Longrightarrow> c \<notin> set (ac_accepted s) \<Longrightarrow>
    conn_remote c \<notin> conn_remote ` set (open_conns s) \<Longrightarrow>
    accept_step s (Accepted c) (s\<lparr>ac_wrapping := c # ac_wrapping s, ac_accepted := c # ac_accepted s\<rparr>)"
| st_accept_failed: "ac_accepting s \<Longrightarrow> accept_step s AcceptFailed (s\<lparr>ac_accepting := False\<rparr>)"
| st_wrapped: "c \<in> set (ac_wrapping s) \<Longrightarrow> wrap (ts_cfg (ac_server s)) addr sniffed = Some ctx \<Longrightarrow>
    accept_step s (Wrapped c addr sniffed)
      (s\<lparr>ac_wrapping := remove1 c (ac_wrapping s), ac_waiting := (ctx, c) # ac_waiting s\<rparr>)"
| st_wrap_failed: "c \<in> set (ac_wrapping s) \<Longrightarrow> wrap (ts_cfg (ac_server s)) addr sniffed = None \<Longrightarrow>
    accept_step s (Wrapped c addr sniffed)
      (s\<lparr>ac_wrapping := remove1 c (ac_wrapping s), ac_closed := c # ac_closed s\<rparr>)"
| st_connect: "(ctx, c) \<in> set (ac_waiting s) \<Longrightarrow> ts_running (ac_server s) \<Longrightarrow>
    tcp_step (TcpConnect c) (ac_server s) = Ok (srv, effs) \<Longrightarrow>
    accept_step s (Connect c)
      (s\<lparr>ac_server := srv, ac_waiting := remove1 (ctx, c) (ac_waiting s), ac_closed := closes effs @ ac_closed s\<rparr>)"
| st_disconnect: "c \<in> set (ts_handling (ac_server s)) \<Longrightarrow> ts_running (ac_server s) \<Longrightarrow>
    tcp_step (TcpDisconnect c) (ac_server s) = Ok (srv, effs) \<Longrightarrow>
    accept_step s (Disconnect c) (s\<lparr>ac_server := srv, ac_closed := closes effs @ ac_closed s\<rparr>)"
| st_stop: "ts_running (ac_server s) \<Longrightarrow> tcp_step TcpStop (ac_server s) = Ok (srv, effs) \<Longrightarrow>
    accept_step s StopServer (s\<lparr>ac_server := srv, ac_closed := closes effs @ ac_closed s\<rparr>)"

inductive_cases accept_stepE: "accept_step s ev s'"

inductive accept_run :: "Acceptor \<Rightarrow> accept_event list \<Rightarrow> Acceptor \<Rightarrow> bool" where
  run_start: "accept_run s [] s"
| run_next: "accept_run s evs s' \<Longrightarrow> accept_step s' ev s'' \<Longrightarrow> accept_run s (evs @ [ev]) s''"

text \<open>The server after \<open>Listen\<close> has succeeded.\<close>

definition Listening :: "Server \<Rightarrow> Acceptor" where
  "Listening cfg = \<lparr>ac_server = TcpServer_init cfg, ac_accepting = True, ac_wrapping = [], ac_waiting = [],
     ac_accepted = [], ac_closed = []\<rparr>"

section \<open>The server's own runs\<close>

lemma closes_simps [simp]:
  "closes [] = []" "closes (CloseConn c # es) = c # closes es" "closes (ConnectionsStat n # es) = closes es"
  "closes (GoHandle c # es) = closes es" "closes (SchedulerStop # es) = closes es" "closes (StatsStop # es) = closes es"
  "closes (ListenerClose # es) = closes es" "closes (map (\<lambda>p. CloseConn (snd p)) cs) = map snd cs"
  by (auto simp: closes_def map_filter_simps List.map_filter_def comp_def)

definition connected :: "Acceptor \<Rightarrow> bool" where
  "connected s \<longleftrightarrow> tcp_inv (ac_server s) \<and> distinct (map conn_remote (open_conns s)) \<and>
     (ts_running (ac_server s) \<longrightarrow> ts_listening (ac_server s))"

text \<open>What each event of the clients' goroutine does to it.\<close>

lemma tcp_step_connect:
  assumes "tcp_step (TcpConnect c) s = Ok (s', effs)"
  shows "ts_cfg s' = ts_cfg s \<and> ts_running s' = ts_running s \<and> ts_listening s' = ts_listening s \<and>
    (s' = s \<and> closes effs = [c] \<or> ts_handling s' = c # ts_handling s \<and> closes effs = [])"
  using assms by (auto simp: HandleClientConnect_def Let_def split: option.splits if_splits)

lemma tcp_step_disconnect:
  assumes "tcp_step (TcpDisconnect c) s = Ok (s', effs)"
  shows "ts_cfg s' = ts_cfg s \<and> ts_running s' = ts_running s \<and> ts_listening s' = ts_listening s \<and>
    ts_handling s' = remove1 c (ts_handling s) \<and> closes effs = [c]"
  using assms by (auto simp: HandleClientDisconnect_def Let_def)

lemma tcp_step_stop:
  assumes "tcp_step TcpStop s = Ok (s', effs)"
  shows "ts_cfg s' = ts_cfg s \<and> \<not> ts_running s' \<and> ts_handling s' = ts_handling s \<and>
    (ts_listening s \<longrightarrow> closes effs = map snd (ts_clients s))"
  using assms by (auto simp: TcpServer_stop_def)

text \<open>No step but \<open>Accept\<close> brings in a connection.\<close>

lemma distinct_map_submset:
  assumes "mset xs \<subseteq># mset ys" and "distinct (map f ys)"
  shows "distinct (map f xs)"
proof -
  obtain zs where "mset ys = mset (xs @ zs)" using assms(1) by (metis ex_mset mset_append mset_subset_eq_exists_conv)
  then have "mset (map f ys) = mset (map f (xs @ zs))" by (metis mset_map)
  then have "distinct (map f (xs @ zs))" using assms(2) mset_eq_imp_distinct_iff by blast
  then show ?thesis by simp
qed

lemma open_conns_step:
  assumes "accept_step s ev s'"
  shows "mset (open_conns s') \<subseteq># mset (open_conns s) \<or>
    (\<exists>c. ev = Accepted c \<and> open_conns s' = c # open_conns s \<and> conn_remote c \<notin> conn_remote ` set (open_conns s))"
  using assms
proof cases
  case (st_wrapped c addr sniffed ctx)
  then have "mset (ac_wrapping s) = add_mset c (mset (remove1 c (ac_wrapping s)))" by simp
  then show ?thesis using st_wrapped by (simp add: open_conns_def)
next
  case (st_connect ctx c srv effs)
  have "mset (ac_waiting s) = add_mset (ctx, c) (mset (remove1 (ctx, c) (ac_waiting s)))" using st_connect(3) by simp
  then have "mset (map snd (ac_waiting s)) = add_mset c (mset (map snd (remove1 (ctx, c) (ac_waiting s))))"
    by (metis image_mset_add_mset mset_map snd_conv)
  then show ?thesis using tcp_step_connect [OF st_connect(5)] st_connect by (auto simp: open_conns_def)
next
  case (st_disconnect c srv effs)
  then show ?thesis using tcp_step_disconnect [OF st_disconnect(5)] by (simp add: open_conns_def)
qed (auto simp: open_conns_def tcp_step_stop simp del: tcp_step.simps dest!: tcp_step_stop)

lemma connected_step:
  assumes "accept_step s ev s'" and "connected s"
  shows "connected s'"
proof -
  have "distinct (map conn_remote (open_conns s'))"
    using open_conns_step [OF assms(1)] assms(2) distinct_map_submset by (auto simp: connected_def)
  moreover have "tcp_inv (ac_server s') \<and> (ts_running (ac_server s') \<longrightarrow> ts_listening (ac_server s'))"
    using assms(1)
  proof cases
    case (st_connect ctx c srv effs)
    have "conn_remote c \<notin> conn_remote ` set (ts_handling (ac_server s))"
      using assms(2) st_connect(3) by (force simp: connected_def open_conns_def)
    then show ?thesis using tcp_step_inv [OF st_connect(5)] tcp_step_connect [OF st_connect(5)] assms(2) st_connect
      by (auto simp: connected_def simp del: tcp_step.simps)
  next
    case (st_disconnect c srv effs)
    then show ?thesis using tcp_step_inv [OF st_disconnect(5)] tcp_step_disconnect [OF st_disconnect(5)] assms(2)
      by (auto simp: connected_def simp del: tcp_step.simps)
  next
    case (st_stop srv effs)
    then show ?thesis using tcp_step_inv [OF st_stop(4)] tcp_step_stop [OF st_stop(4)] assms(2)
      by (auto simp: connected_def simp del: tcp_step.simps)
  qed (use assms(2) in \<open>auto simp: connected_def\<close>)
  ultimately show ?thesis by (simp add: connected_def)
qed

lemma connected_Listening: "connected (Listening cfg)"
  by (simp add: connected_def Listening_def TcpServer_init_def open_conns_def tcp_inv_init [unfolded TcpServer_init_def])

text \<open>The goroutine that owns the clients runs as it does alone.\<close>

lemma accept_step_server:
  assumes "accept_step s ev s'" and "connected s"
  shows "ac_server s' = ac_server s \<or> (\<exists>tev effs. ts_running (ac_server s) \<and> tcp_enabled tev (ac_server s) \<and>
    tcp_step tev (ac_server s) = Ok (ac_server s', effs))"
  using assms(1)
proof cases
  case (st_connect ctx c srv effs)
  have "tcp_enabled (TcpConnect c) (ac_server s)"
    using assms(2) st_connect(3) by (force simp: connected_def open_conns_def)
  with st_connect show ?thesis by (auto simp del: tcp_step.simps)
next
  case (st_disconnect c srv effs)
  then have "tcp_enabled (TcpDisconnect c) (ac_server s)" by simp
  with st_disconnect show ?thesis by (auto simp del: tcp_step.simps)
next
  case (st_stop srv effs)
  have "tcp_enabled TcpStop (ac_server s)" by simp
  with st_stop show ?thesis by (auto simp del: tcp_step.simps)
qed auto

lemma accept_run_inv: "accept_run s evs s' \<Longrightarrow> connected s \<Longrightarrow> connected s'"
  by (induction rule: accept_run.induct) (auto intro: connected_step)

lemma accept_run_server:
  "accept_run s evs s' \<Longrightarrow> connected s \<Longrightarrow> \<exists>tevs effs. tcp_run (ac_server s) tevs effs (ac_server s')"
proof (induction rule: accept_run.induct)
  case (run_next s evs s' ev s'')
  then obtain tevs effs where r: "tcp_run (ac_server s) tevs effs (ac_server s')" by blast
  from accept_step_server [OF run_next.hyps(2) accept_run_inv [OF run_next.hyps(1) run_next.prems]]
  show ?case using r tcp_run.tcp_next [OF r] by metis
qed (auto intro: tcp_run.tcp_start)

section \<open>Where a connection is\<close>

text \<open>The sets of the accepted, wrapping, waiting, handled and closed connections fit together.\<close>

definition places :: "bool \<Rightarrow> Conn set \<Rightarrow> Conn set \<Rightarrow> Conn set \<Rightarrow> Conn set \<Rightarrow> Conn set \<Rightarrow> bool" where
  "places running A W Q H C \<longleftrightarrow> A = W \<union> Q \<union> H \<union> C \<and> C \<inter> (W \<union> Q) = {} \<and> W \<inter> Q = {} \<and> (W \<union> Q) \<inter> H = {} \<and>
     (if running then C \<inter> H = {} else H \<subseteq> C)"

definition accounted :: "Acceptor \<Rightarrow> bool" where
  "accounted s \<longleftrightarrow> places (ts_running (ac_server s)) (set (ac_accepted s)) (set (ac_wrapping s))
     (snd ` set (ac_waiting s)) (set (ts_handling (ac_server s))) (set (ac_closed s))"

lemma open_disjoint:
  assumes "distinct (map conn_remote (open_conns s))"
  shows "distinct (open_conns s)" "distinct (ac_wrapping s)" "distinct (ac_waiting s)" "distinct (ts_handling (ac_server s))"
    "set (ac_wrapping s) \<inter> snd ` set (ac_waiting s) = {}"
    "set (ac_wrapping s) \<inter> set (ts_handling (ac_server s)) = {}"
    "snd ` set (ac_waiting s) \<inter> set (ts_handling (ac_server s)) = {}"
    "inj_on snd (set (ac_waiting s))"
  using distinct_map [of conn_remote "open_conns s"] assms
  by (auto simp: open_conns_def distinct_map)

lemma snd_remove1: "distinct xs \<Longrightarrow> inj_on snd (set xs) \<Longrightarrow> x \<in> set xs \<Longrightarrow> snd ` set (remove1 x xs) = snd ` set xs - {snd x}"
  using inj_on_image_set_diff [of snd "set xs" "set xs" "{x}"] by simp

lemma places_connect:
  assumes "places True A W Q H C" and "c \<in> Q"
  shows "places True A W (Q - {c}) H (insert c C)" "places True A W (Q - {c}) (insert c H) C"
  using assms by (auto simp: places_def)

lemma accounted_step:
  assumes "accept_step s ev s'" and "accounted s" and "connected s"
  shows "accounted s'"
proof -
  have d: "distinct (map conn_remote (open_conns s))" using assms(3) by (simp add: connected_def)
  note D = open_disjoint [OF d]
  have P: "places (ts_running (ac_server s)) (set (ac_accepted s)) (set (ac_wrapping s)) (snd ` set (ac_waiting s))
      (set (ts_handling (ac_server s))) (set (ac_closed s))" using assms(2) by (simp add: accounted_def)
  show ?thesis using assms(1)
  proof cases
    case (st_accept c)
    then have "places (ts_running (ac_server s)) (insert c (set (ac_accepted s))) (insert c (set (ac_wrapping s)))
        (snd ` set (ac_waiting s)) (set (ts_handling (ac_server s))) (set (ac_closed s))"
      using P by (auto simp: places_def split: if_splits)
    with st_accept show ?thesis by (simp add: accounted_def)
  next
    case (st_wrapped c addr sniffed ctx)
    have "places (ts_running (ac_server s)) (set (ac_accepted s)) (set (ac_wrapping s) - {c})
        (insert c (snd ` set (ac_waiting s))) (set (ts_handling (ac_server s))) (set (ac_closed s))"
      using P st_wrapped(3) by (auto simp: places_def split: if_splits)
    with st_wrapped D(2) show ?thesis by (simp add: accounted_def)
  next
    case (st_wrap_failed c addr sniffed)
    have "places (ts_running (ac_server s)) (set (ac_accepted s)) (set (ac_wrapping s) - {c})
        (snd ` set (ac_waiting s)) (set (ts_handling (ac_server s))) (insert c (set (ac_closed s)))"
      using P st_wrap_failed(3) by (auto simp: places_def split: if_splits)
    with st_wrap_failed D(2) show ?thesis by (simp add: accounted_def)
  next
    case (st_connect ctx c srv effs)
    have w: "snd ` set (remove1 (ctx, c) (ac_waiting s)) = snd ` set (ac_waiting s) - {c}"
      using snd_remove1 [OF D(3,8) st_connect(3)] by simp
    have c: "c \<in> snd ` set (ac_waiting s)" using st_connect(3) by force
    note e = tcp_step_connect [OF st_connect(5)]
    have "set (ts_handling srv) = set (ts_handling (ac_server s)) \<and> set (closes effs) = {c} \<or>
        set (ts_handling srv) = insert c (set (ts_handling (ac_server s))) \<and> set (closes effs) = {}"
      using e by (metis empty_set list.simps(15))
    then have "places True (set (ac_accepted s)) (set (ac_wrapping s)) (snd ` set (ac_waiting s) - {c})
        (set (ts_handling srv)) (set (closes effs) \<union> set (ac_closed s))"
      using places_connect [OF _ c] P st_connect(4) by (elim disjE conjE) simp_all
    with st_connect w e show ?thesis by (simp add: accounted_def)
  next
    case (st_disconnect c srv effs)
    note e = tcp_step_disconnect [OF st_disconnect(5)]
    have "places True (set (ac_accepted s)) (set (ac_wrapping s)) (snd ` set (ac_waiting s))
        (set (ts_handling (ac_server s)) - {c}) (insert c (set (ac_closed s)))"
      using P st_disconnect(3,4) by (auto simp: places_def)
    with st_disconnect e D(4) show ?thesis by (simp add: accounted_def)
  next
    case (st_stop srv effs)
    note e = tcp_step_stop [OF st_stop(4)]
    have "closes effs = map snd (ts_clients (ac_server s))"
      "snd ` set (ts_clients (ac_server s)) = set (ts_handling (ac_server s))"
      using e st_stop(3) assms(3) by (auto simp: connected_def tcp_inv_def image_image)
    then have "set (closes effs) = set (ts_handling (ac_server s))" by simp
    moreover have "places False (set (ac_accepted s)) (set (ac_wrapping s)) (snd ` set (ac_waiting s))
        (set (ts_handling (ac_server s))) (set (ts_handling (ac_server s)) \<union> set (ac_closed s))"
      using P D(6,7) by (auto simp: places_def split: if_splits)
    ultimately show ?thesis using st_stop e by (simp add: accounted_def)
  qed (use assms(2) in \<open>simp add: accounted_def\<close>)
qed

lemma accept_run_accounted: "accept_run s evs s' \<Longrightarrow> connected s \<Longrightarrow> accounted s \<Longrightarrow> accounted s'"
  by (induction rule: accept_run.induct) (auto intro: accounted_step accept_run_inv)

lemma accounted_Listening: "accounted (Listening cfg)"
  by (simp add: accounted_def places_def Listening_def TcpServer_init_def)

section \<open>After a stop, and after an error of Accept\<close>

lemma stopped_step:
  assumes "accept_step s ev s'" and "\<not> ts_running (ac_server s)"
  shows "ac_server s' = ac_server s \<and> set (ac_waiting s) \<subseteq> set (ac_waiting s')"
  using assms by cases auto

lemma stopped_run:
  "accept_run s evs s' \<Longrightarrow> \<not> ts_running (ac_server s) \<Longrightarrow>
   ac_server s' = ac_server s \<and> set (ac_waiting s) \<subseteq> set (ac_waiting s')"
  by (induction rule: accept_run.induct) (use stopped_step in fastforce)+

lemma deaf_run:
  "accept_run s evs s' \<Longrightarrow> \<not> ac_accepting s \<Longrightarrow> \<not> ac_accepting s' \<and> ac_accepted s' = ac_accepted s"
proof (induction rule: accept_run.induct)
  case (run_next s evs s' ev s'')
  from run_next.hyps(2) run_next.IH run_next.prems show ?case by cases auto
qed simp

end
