(* ===== verification/Connection_Users.thy ===== *)
theory Connection_Users
  imports Scheduler_Correct "HOL-Library.Sublist"
begin

text \<open>
  The contract between the scheduler and those who register connections with it (the TCP
  handlers and the UDP sessions): each of them releases only what it has registered. Many of
  them run at once, so the scheduler sees an interleaving of what they send; the lemmas show
  that the contract survives the interleaving and makes the scheduler's accounting exact.
\<close>

section \<open>Operations and their balance\<close>

definition ops_balance :: "Target \<Rightarrow> Op list \<Rightarrow> int" where
  "ops_balance t ops = (\<Sum>op\<leftarrow>ops. op_delta t (EvOp op))"

lemma ops_balance_simps [simp]:
  "ops_balance t [] = 0" "ops_balance t (op # ops) = op_delta t (EvOp op) + ops_balance t ops"
  "ops_balance t (ops @ ops') = ops_balance t ops + ops_balance t ops'"
  by (simp_all add: ops_balance_def)

definition releases_registered :: "Op list \<Rightarrow> bool" where
  "releases_registered ops \<longleftrightarrow> (\<forall>p t. prefix p ops \<longrightarrow> 0 \<le> ops_balance t p)"

definition traffic_op :: "Op \<Rightarrow> bool" where
  "traffic_op op \<longleftrightarrow> op_op op = IncrementRx \<or> op_op op = IncrementTx"

lemma op_delta_simps [simp]:
  "op_delta t (EvOp (Scheduler_IncrementConnection b)) = (if Target b = t then 1 else 0)"
  "op_delta t (EvOp (Scheduler_DecrementConnection b)) = (if Target b = t then -1 else 0)"
  "op_delta t (EvOp (Scheduler_IncrementRefused b)) = 0"
  "op_delta t (EvOp (Scheduler_IncrementRx b c)) = 0"
  "op_delta t (EvOp (Scheduler_IncrementTx b c)) = 0"
  by (simp_all add: op_delta_def Scheduler_IncrementConnection_def Scheduler_DecrementConnection_def
      Scheduler_IncrementRefused_def Scheduler_IncrementRx_def Scheduler_IncrementTx_def)

lemma traffic_balance: "list_all traffic_op ops \<Longrightarrow> ops_balance t ops = 0"
  by (induction ops) (auto simp: traffic_op_def op_delta_def)

text \<open>
  The shape of what one user sends: nothing, one refusal, or one registration, then traffic,
  then (when it has ended) one release, which traffic that was under way may follow.
\<close>

definition user_ops :: "Op list \<Rightarrow> bool" where
  "user_ops ops \<longleftrightarrow> ops = [] \<or> (\<exists>b. ops = [Scheduler_IncrementRefused b]) \<or>
     (\<exists>b mid late. list_all traffic_op mid \<and> list_all traffic_op late \<and>
        (ops = Scheduler_IncrementConnection b # mid \<or>
         ops = Scheduler_IncrementConnection b # mid @ Scheduler_DecrementConnection b # late))"

lemma traffic_prefix: "list_all traffic_op ops \<Longrightarrow> prefix p ops \<Longrightarrow> ops_balance t p = 0"
  by (rule traffic_balance) (auto simp: prefix_def)

lemma user_ops_intros:
  "user_ops []" "user_ops [Scheduler_IncrementRefused b]"
  "list_all traffic_op mid \<Longrightarrow> user_ops (Scheduler_IncrementConnection b # mid)"
  "list_all traffic_op mid \<Longrightarrow> list_all traffic_op late \<Longrightarrow>
   user_ops (Scheduler_IncrementConnection b # mid @ Scheduler_DecrementConnection b # late)"
proof -
  have nil: "list_all traffic_op []" by simp
  show "list_all traffic_op mid \<Longrightarrow> user_ops (Scheduler_IncrementConnection b # mid)"
    unfolding user_ops_def using nil by blast
qed (unfold user_ops_def, blast+)

lemma user_ops_releases: "user_ops ops \<Longrightarrow> releases_registered ops"
  unfolding releases_registered_def
proof (intro allI impI)
  fix p t assume u: "user_ops ops" and p: "prefix p ops"
  consider "ops = []" | b where "ops = [Scheduler_IncrementRefused b]"
    | b mid rest late where "list_all traffic_op mid" "list_all traffic_op late"
      "ops = Scheduler_IncrementConnection b # mid @ rest"
      "rest = [] \<or> rest = Scheduler_DecrementConnection b # late"
    using u by (fastforce simp: user_ops_def)
  then show "0 \<le> ops_balance t p"
  proof cases
    case (3 b mid rest late)
    show ?thesis
    proof (cases p)
      case (Cons op p')
      then have op: "op = Scheduler_IncrementConnection b" "prefix p' (mid @ rest)" using p 3(3) by auto
      consider "prefix p' mid" | r where "p' = mid @ r" "prefix r rest" using op(2) prefix_append by blast
      then show ?thesis
      proof cases
        case 1
        then show ?thesis using op(1) Cons traffic_prefix [OF 3(1) 1] by simp
      next
        case 2
        then show ?thesis using 3 op(1) Cons traffic_prefix [OF 3(2)]
          by (cases r) (auto simp: traffic_balance)
      qed
    qed simp
  qed (use p in \<open>auto simp: prefix_Cons\<close>)
qed

section \<open>Interleavings\<close>

inductive interleaved :: "Op list list \<Rightarrow> Op list \<Rightarrow> bool" where
  none: "interleaved [] []"
| one_more: "interleaved trs ops \<Longrightarrow> ops' \<in> shuffles tr ops \<Longrightarrow> interleaved (tr # trs) ops'"

lemma ops_balance_shuffle: "zs \<in> shuffles xs ys \<Longrightarrow> ops_balance t zs = ops_balance t xs + ops_balance t ys"
  by (induction xs ys arbitrary: zs rule: shuffles.induct) (auto simp: Cons_in_shuffles_iff)

lemma prefix_shuffle:
  "zs \<in> shuffles xs ys \<Longrightarrow> prefix p zs \<Longrightarrow> \<exists>p1 p2. prefix p1 xs \<and> prefix p2 ys \<and> p \<in> shuffles p1 p2"
proof (induction p arbitrary: xs ys zs)
  case (Cons z p)
  then obtain zs' where zs: "zs = z # zs'" "prefix p zs'" by (auto simp: prefix_def)
  then consider xs' where "xs = z # xs'" "zs' \<in> shuffles xs' ys" | ys' where "ys = z # ys'" "zs' \<in> shuffles xs ys'"
    using Cons.prems(1) by (auto simp: Cons_in_shuffles_iff neq_Nil_conv)
  then show ?case
  proof cases
    case 1
    then obtain p1 p2 where "prefix p1 xs'" "prefix p2 ys" "p \<in> shuffles p1 p2" using Cons.IH zs(2) by blast
    then show ?thesis using 1(1) by (intro exI [of _ "z # p1"] exI [of _ p2]) (simp add: Cons_in_shuffles_leftI)
  next
    case 2
    then obtain p1 p2 where "prefix p1 xs" "prefix p2 ys'" "p \<in> shuffles p1 p2" using Cons.IH zs(2) by blast
    then show ?thesis using 2(1) by (intro exI [of _ p1] exI [of _ "z # p2"]) (simp add: Cons_in_shuffles_rightI)
  qed
qed (intro exI [of _ "[]"], simp)

lemma interleaved_balance: "interleaved trs ops \<Longrightarrow> ops_balance t ops = (\<Sum>tr\<leftarrow>trs. ops_balance t tr)"
  by (induction rule: interleaved.induct) (auto simp: ops_balance_shuffle)

lemma interleaved_releases:
  "interleaved trs ops \<Longrightarrow> \<forall>tr\<in>set trs. releases_registered tr \<Longrightarrow> releases_registered ops"
proof (induction rule: interleaved.induct)
  case (one_more trs ops ops' tr)
  show ?case unfolding releases_registered_def
  proof (intro allI impI)
    fix p t assume "prefix p ops'"
    then obtain p1 p2 where "prefix p1 tr" "prefix p2 ops" "p \<in> shuffles p1 p2"
      using prefix_shuffle [OF one_more.hyps(2)] by blast
    moreover have "0 \<le> ops_balance t p1" "0 \<le> ops_balance t p2"
      using one_more.prems one_more.IH \<open>prefix p1 tr\<close> \<open>prefix p2 ops\<close> by (auto simp: releases_registered_def)
    ultimately show "0 \<le> ops_balance t p" by (simp add: ops_balance_shuffle)
  qed
qed (simp add: releases_registered_def)

lemma releases_registered_prefix: "releases_registered ops \<Longrightarrow> prefix p ops \<Longrightarrow> releases_registered p"
  by (auto simp: releases_registered_def intro: prefix_order.trans)

section \<open>The scheduler under its users\<close>

fun event_ops :: "sched_event list \<Rightarrow> Op list" where
  "event_ops [] = []"
| "event_ops (EvOp op # evs) = op # event_ops evs"
| "event_ops (ev # evs) = event_ops evs"

lemma event_ops_append [simp]: "event_ops (evs @ evs') = event_ops evs @ event_ops evs'"
  by (induction evs rule: event_ops.induct) auto

lemma conn_balance_ops: "conn_balance t evs = ops_balance t (event_ops evs)"
  by (induction evs rule: event_ops.induct) (auto simp: conn_balance_def op_delta_def)

text \<open>
  A run in which discovery reports backends with zeroed counters and connections are registered
  while their backend is tracked.
\<close>

definition tracked_event :: "backends \<Rightarrow> sched_event \<Rightarrow> bool" where
  "tracked_event m ev = (case ev of
       EvDiscovered bs \<Rightarrow> (\<forall>b\<in>set bs. ActiveConnections (Stats b) = 0)
     | EvOp op \<Rightarrow> (op_op op = IncrementConnection \<longrightarrow> m (op_target op) \<noteq> None)
     | _ \<Rightarrow> True)"

inductive tracked_run :: "regexp \<Rightarrow> Scheduler \<Rightarrow> sched_event list \<Rightarrow> Scheduler \<Rightarrow> bool" for re s where
  tracked_start: "tracked_run re s [] s"
| tracked_next: "tracked_run re s evs s' \<Longrightarrow> tracked_event (sch_backends s') ev \<Longrightarrow>
    sched_step re s' ev s'' effs \<Longrightarrow> tracked_run re s (evs @ [ev]) s''"

lemma ops_balance_length: "ops_balance t ops \<le> int (length ops)"
proof (induction ops)
  case (Cons op ops)
  have "op_delta t (EvOp op) \<le> 1" by (auto simp: op_delta_def split: OpAction.splits)
  then show ?case using Cons by simp
qed simp

lemma event_ops_length: "length (event_ops evs) \<le> length evs"
  by (induction evs rule: event_ops.induct) auto

lemma tracked_run_proper:
  assumes "tracked_run re s evs s'" and "releases_registered (event_ops evs)" and "int (length evs) < 2 ^ 64"
  shows "proper_run re s evs s'"
  using assms
proof (induction rule: tracked_run.induct)
  case (tracked_next evs s' ev s'' effs)
  have pre: "releases_registered (event_ops evs)"
    using tracked_next.prems(1) by (auto intro: releases_registered_prefix)
  have proper: "proper_run re s evs s'" using tracked_next pre by auto
  have "proper_event (sch_backends s') evs ev"
  proof (cases ev)
    case (EvOp op)
    have b: "conn_balance (op_target op) evs < 2 ^ 64 - 1"
      using ops_balance_length [of "op_target op" "event_ops evs"] event_ops_length [of evs] tracked_next.prems(2)
      by (simp add: conn_balance_ops)
    have "0 \<le> ops_balance (op_target op) (event_ops (evs @ [ev]))"
      using tracked_next.prems(1) by (auto simp: releases_registered_def)
    then have "0 \<le> conn_balance (op_target op) evs + op_delta (op_target op) ev"
      using EvOp by (simp add: conn_balance_ops)
    then show ?thesis using tracked_next.hyps(2) EvOp b
      by (auto simp: proper_event_def tracked_event_def op_delta_def split: OpAction.splits)
  qed (use tracked_next.hyps(2) in \<open>auto simp: proper_event_def tracked_event_def\<close>)
  then show ?case using proper tracked_next.hyps(3) proper_run.proper_step by blast
qed (rule proper_run.proper_start)

section \<open>The contract\<close>

locale connection_user =
  fixes sends :: "Op list \<Rightarrow> bool"
  assumes sends_releases: "sends ops \<Longrightarrow> releases_registered ops"
begin

text \<open>The scheduler's counters under any number of users, each as far as it has got.\<close>

lemma counters_exact:
  assumes "tracked_run re (Scheduler_start bal cfg) evs s" and "int (length evs) < 2 ^ 64"
    and "interleaved trs (event_ops evs)" and "\<forall>tr\<in>set trs. \<exists>ops. sends ops \<and> prefix tr ops"
  shows "int (active (sch_backends s) t) = (\<Sum>tr\<leftarrow>trs. ops_balance t tr)"
proof -
  have "\<forall>tr\<in>set trs. releases_registered tr"
    using assms(4) sends_releases releases_registered_prefix by blast
  then have r: "releases_registered (event_ops evs)" by (rule interleaved_releases [OF assms(3)])
  show ?thesis
    using active_proper_run [OF tracked_run_proper [OF assms(1) r assms(2)]] interleaved_balance [OF assms(3)]
    by (simp add: conn_balance_ops)
qed

text \<open>A backend that some user has registered with and not released is not dropped.\<close>

lemma registered_tracked:
  assumes "tracked_run re (Scheduler_start bal cfg) evs s" and "int (length evs) < 2 ^ 64"
    and "interleaved trs (event_ops evs)" and "\<forall>tr\<in>set trs. \<exists>ops. sends ops \<and> prefix tr ops"
    and "tr \<in> set trs" and "0 < ops_balance t tr"
  shows "sch_backends s t \<noteq> None"
proof -
  have nonneg: "\<forall>x\<in>set trs. 0 \<le> ops_balance t x"
    using assms(4) sends_releases by (auto simp: releases_registered_def)
  have "ops_balance t tr \<le> (\<Sum>tr\<leftarrow>trs. ops_balance t tr)"
    using nonneg assms(5) by (intro member_le_sum_list [where 'a=int, OF _ , simplified]) (auto simp: image_iff)
  then show ?thesis using counters_exact [OF assms(1-4), of t] assms(6)
    by (cases "sch_backends s t") (auto simp: active_def)
qed

end

end
