(* ===== verification/Tcp_Properties.thy ===== *)
theory Tcp_Properties
  imports Tcp_Accept Connection_Users Scheduler_Properties Access_Properties
begin

text \<open>
  The properties of the TCP server: of the proxying, of a connection's handler, of the map of
  clients, and of the accounting that many handlers do together.
\<close>

section \<open>Proxying\<close>

text \<open>The copy loop delivers the bytes it reads, in order: what the other side accepted is a
  prefix of what was read, the write counts it reports add up to the bytes accepted, and when it
  ended without an error (or has not ended) nothing that was read is lost.\<close>

theorem copy_delivers_in_order:
  assumes "\<forall>io\<in>set ios. io_contract io" and "Copy ios = (rwcs, out, e)"
  shows "\<exists>n\<le>length ios. \<exists>lost. concat (map ci_data (take n ios)) = out @ lost \<and>
    copied_writes rwcs = of_nat (length out) \<and> (e = Finished None \<or> e = Running \<longrightarrow> lost = []) \<and>
    (e = Running \<longrightarrow> n = length ios)"
  by (rule Copy_spec [OF assms])

theorem copy_delivers_in_order_witness:
  "\<exists>rwcs. Copy [\<lparr>ci_data = ''ab'', ci_readErr = None, ci_writeN = 2, ci_writeErr = None\<rparr>,
     \<lparr>ci_data = ''c'', ci_readErr = Some EOF, ci_writeN = 1, ci_writeErr = None\<rparr>] =
     (rwcs, ''abc'', Finished None) \<and> copied_writes rwcs = 3"
proof -
  let ?ios = "[\<lparr>ci_data = ''ab'', ci_readErr = None, ci_writeN = 2, ci_writeErr = None\<rparr>,
     \<lparr>ci_data = ''c'', ci_readErr = Some EOF, ci_writeN = 1, ci_writeErr = None\<rparr>]"
  obtain rwcs where c: "Copy ?ios = (rwcs, ''abc'', Finished None)" by simp
  then show ?thesis using copy_delivers_in_order [OF _ c] by (auto simp: io_contract_def BUFFER_SIZE_def)
qed

text \<open>Once the copy loop has ended, the counts that the collector published add up to all
  that it was given and, in addition, to the counts that idle ticks published a second time.\<close>

theorem collector_total:
  assumes "collector_run (es @ [ColClosed]) new_collector = (c, outs)" and "ColClosed \<notin> set es"
  shows "copied_writes outs = copied_writes (collected es) + copied_writes (resent es new_collector)"
  by (rule collector_closed [OF assms])

theorem collector_total_witness:
  "\<exists>c outs. collector_run ([ColStats \<lparr>CountRead = 5, CountWrite = 5, rwc_Target = zero_target\<rparr>] @ [ColClosed])
     new_collector = (c, outs) \<and> copied_writes outs = 5"
proof -
  let ?es = "[ColStats \<lparr>CountRead = 5, CountWrite = 5, rwc_Target = zero_target\<rparr>]"
  obtain c outs where r: "collector_run (?es @ [ColClosed]) new_collector = (c, outs)" by fastforce
  from collector_total [OF this] r show ?thesis by (auto simp: new_collector_def)
qed

text \<open>The collector counts idle seconds twice: five bytes that are followed by three idle
  seconds are published as fifteen.\<close>

theorem collector_counts_idle_twice:
  "\<exists>c outs. collector_run [ColStats \<lparr>CountRead = 5, CountWrite = 5, rwc_Target = zero_target\<rparr>,
     ColTick, ColTick, ColTick, ColClosed] new_collector = (c, outs) \<and> copied_writes outs = 15"
  by (simp add: new_collector_def publish_def IsZero_def)

section \<open>Handlers\<close>

text \<open>The operations that an action list sends to the scheduler.\<close>

definition sched_ops :: "tcp_action list \<Rightarrow> Op list" where
  "sched_ops acts = List.map_filter (\<lambda>a. case a of ActOp op \<Rightarrow> Some op | _ \<Rightarrow> None) acts"

lemma sched_ops_simps [simp]:
  "sched_ops [] = []" "sched_ops (ActOp op # acts) = op # sched_ops acts"
  "sched_ops (ActCloseClient # acts) = sched_ops acts" "sched_ops (ActTake ctx # acts) = sched_ops acts"
  "sched_ops (ActDial d a # acts) = sched_ops acts" "sched_ops (ActSendHeader v # acts) = sched_ops acts"
  "sched_ops (ActProxy x y # acts) = sched_ops acts" "sched_ops (acts @ acts') = sched_ops acts @ sched_ops acts'"
  "sched_ops (map ActOp ops) = ops"
proof -
  show "sched_ops (map ActOp ops) = ops" by (induction ops) (simp_all add: sched_ops_def map_filter_simps)
qed (simp_all add: sched_ops_def map_filter_simps map_filter_def)

lemma stat_loop_traffic: "fst (stat_loop b tx rx es) = ops \<Longrightarrow> list_all traffic_op ops"
proof (induction b tx rx es arbitrary: ops rule: stat_loop.induct)
  case (2 b tx rx e es)
  then show ?case
    by (cases e)
      (auto simp: traffic_op_def Scheduler_IncrementRx_def Scheduler_IncrementTx_def split: prod.splits if_splits)
qed simp

lemma handle_proxying_ops:
  "\<exists>mid. list_all traffic_op mid \<and>
     (sched_ops (fst (handle_proxying cfg b env)) = mid \<and> snd (handle_proxying cfg b env) = HRunning \<or>
      sched_ops (fst (handle_proxying cfg b env)) = mid @ [Scheduler_DecrementConnection b] \<and>
      snd (handle_proxying cfg b env) \<noteq> HRunning)"
proof -
  obtain ops fin where l: "stat_loop b True True (te_stats env) = (ops, fin)" by fastforce
  then have tr: "list_all traffic_op ops" using stat_loop_traffic [of b True True "te_stats env" ops] by simp
  have "sched_ops (fst (handle_proxying cfg b env)) = [Scheduler_DecrementConnection b] \<and>
      snd (handle_proxying cfg b env) \<noteq> HRunning \<or>
    sched_ops (fst (handle_proxying cfg b env)) = ops @ (if fin then [Scheduler_DecrementConnection b] else []) \<and>
      snd (handle_proxying cfg b env) = (if fin then HDone else HRunning)"
    by (cases "srv_ProxyProtocol cfg"; cases "co_BackendIdleTimeout (srv_Options cfg)";
        cases "co_ClientIdleTimeout (srv_Options cfg)")
      (simp_all add: handle_proxying_def l Let_def)
  then show ?thesis
  proof
    assume "sched_ops (fst (handle_proxying cfg b env)) = [Scheduler_DecrementConnection b] \<and>
      snd (handle_proxying cfg b env) \<noteq> HRunning"
    then show ?thesis by (intro exI [of _ "[]"]) simp
  next
    assume "sched_ops (fst (handle_proxying cfg b env)) = ops @ (if fin then [Scheduler_DecrementConnection b] else []) \<and>
      snd (handle_proxying cfg b env) = (if fin then HDone else HRunning)"
    then show ?thesis using tr by (intro exI [of _ ops]) (cases fin; simp)
  qed
qed

lemma handle_ops:
  assumes "handle cfg acc pool ctx env = (acts, e, pool')"
  shows "sched_ops acts = [] \<and> e \<noteq> HRunning \<or>
    (\<exists>b. te_elected env = Ok b \<and>
      (sched_ops acts = [Scheduler_IncrementRefused b] \<and> e = HDone \<or>
       (\<exists>mid. list_all traffic_op mid \<and>
         (sched_ops acts = Scheduler_IncrementConnection b # mid \<and> e = HRunning \<or>
          sched_ops acts = Scheduler_IncrementConnection b # mid @ [Scheduler_DecrementConnection b] \<and>
          e \<noteq> HRunning))))"
proof (cases "access_denied acc ctx \<or> (\<forall>b. te_elected env \<noteq> Ok b)")
  case True
  then show ?thesis using assms by (auto simp: handle_def split: outcome.splits if_splits)
next
  case False
  then obtain b where b: "te_elected env = Ok b" "\<not> access_denied acc ctx" by blast
  obtain mid where mid: "list_all traffic_op mid"
    "sched_ops (fst (handle_proxying cfg b env)) = mid \<and> snd (handle_proxying cfg b env) = HRunning \<or>
     sched_ops (fst (handle_proxying cfg b env)) = mid @ [Scheduler_DecrementConnection b] \<and>
      snd (handle_proxying cfg b env) \<noteq> HRunning"
    using handle_proxying_ops by blast
  have "sched_ops acts = [] \<and> e = HPanic \<or> sched_ops acts = [Scheduler_IncrementRefused b] \<and> e = HDone \<or>
      sched_ops acts = Scheduler_IncrementConnection b # mid \<and> e = HRunning \<or>
      sched_ops acts = Scheduler_IncrementConnection b # mid @ [Scheduler_DecrementConnection b] \<and> e \<noteq> HRunning"
    using assms b mid(2)
    by (auto simp: handle_def handle_elected_def Let_def split: option.splits prod.splits if_splits)
  then show ?thesis using mid(1) b(1) by (elim disjE) auto
qed

lemma handle_user_ops: "handle cfg acc pool ctx env = (acts, e, pool') \<Longrightarrow> user_ops (sched_ops acts)"
  using user_ops_intros(4) [of _ "[]"] user_ops_intros(1-3) handle_ops [of cfg acc pool ctx env acts e pool']
  by auto

text \<open>What the handlers of this server's connections send.\<close>

definition tcp_sends :: "Op list \<Rightarrow> bool" where
  "tcp_sends ops \<longleftrightarrow> (\<exists>cfg acc pool ctx env acts e pool'.
     handle cfg acc pool ctx env = (acts, e, pool') \<and> ops = sched_ops acts)"

interpretation tcp: connection_user tcp_sends
  by unfold_locales (auto simp: tcp_sends_def dest!: handle_user_ops intro: user_ops_releases)

text \<open>C10: A handler registers its connection at most once and only with the backend that was
  elected for it, and when it has returned it has released what it registered, on every path
  (access denied, no backend, refused dial, failed or unsupported PROXY header, end of proxying).\<close>

theorem handler_balanced:
  assumes "handle cfg acc pool ctx env = (acts, e, pool')"
  shows "sched_ops acts = [] \<and> e \<noteq> HRunning \<or>
    (\<exists>b. te_elected env = Ok b \<and>
      (sched_ops acts = [Scheduler_IncrementRefused b] \<and> e = HDone \<or>
       (\<exists>mid. list_all traffic_op mid \<and>
         (sched_ops acts = Scheduler_IncrementConnection b # mid \<and> e = HRunning \<or>
          sched_ops acts = Scheduler_IncrementConnection b # mid @ [Scheduler_DecrementConnection b] \<and>
          e \<noteq> HRunning))))"
  by (rule handle_ops [OF assms])

definition sample_options :: ConnectionOptions where
  "sample_options = \<lparr>co_MaxConnections = Some 2, co_ClientIdleTimeout = Some ''0'',
     co_BackendIdleTimeout = Some ''0'', co_BackendConnectionTimeout = Some ''0'',
     co_ClientTcpKeepalive = None, co_ClientTcpKeepalivePeriod = None, co_BackendTcpKeepalive = None,
     co_BackendTcpKeepalivePeriod = None, co_Sources = None\<rparr>"

definition sample_server :: Server where
  "sample_server = \<lparr>srv_Options = sample_options, srv_Bind = '':80'', srv_Binds = None, srv_BindIPs = None,
     srv_BindPorts = None, srv_MatchPort = False, srv_BindNameTemplate = [], srv_Protocol = ''tcp'',
     srv_Balance = ''leastconn'', srv_Sni = None, srv_Tls = None, srv_BackendsTls = None, srv_Udp = None,
     srv_Access = None, srv_ProxyProtocol = None, srv_Discovery = None, srv_Healthcheck = Some sample_healthcheck\<rparr>"

definition sample_env :: tcp_env where
  "sample_env = \<lparr>te_elected = Ok host_1, te_dial_ok = True, te_send_header_ok = (\<lambda>_. True),
     te_stats = [CsClosed, BsClosed]\<rparr>"

lemma sample_handle:
  "\<exists>acts. handle sample_server None None sample_context sample_env = (acts, HDone, None) \<and>
     sched_ops acts = [Scheduler_IncrementConnection host_1, Scheduler_DecrementConnection host_1]"
  by (simp add: handle_def access_denied_def sample_env_def handle_elected_def handle_proxying_def
      sample_server_def sample_options_def SourcePool_Next_def)

theorem handler_balanced_witness:
  "\<exists>acts. handle sample_server None None sample_context sample_env = (acts, HDone, None) \<and>
     (sched_ops acts = [] \<or> ops_balance target_1 (sched_ops acts) = 0)"
proof -
  obtain acts where h: "handle sample_server None None sample_context sample_env = (acts, HDone, None)"
    using sample_handle by blast
  with handler_balanced [OF h] traffic_balance show ?thesis by (auto simp: sample_env_def)
qed

text \<open>The scheduler's counter of open connections is, at every moment, the number of TCP
  handlers that have registered with the backend and not released it yet, for any number of
  handlers and any interleaving of what they send with discovery, health checks and elections,
  as long as every registration finds its backend tracked.\<close>

theorem open_connections_counted:
  assumes "tracked_run re (Scheduler_start bal cfg) evs s" and "int (length evs) < 2 ^ 64"
    and "interleaved trs (event_ops evs)" and "\<forall>tr\<in>set trs. \<exists>ops. tcp_sends ops \<and> prefix tr ops"
  shows "int (active (sch_backends s) t) = (\<Sum>tr\<leftarrow>trs. ops_balance t tr)"
  by (rule tcp.counters_exact [OF assms])

theorem open_connections_counted_witness:
  "active (sch_backends (tracking 1 1)) target_1 = 1"
proof -
  let ?inc = "Scheduler_IncrementConnection host_1"
  obtain effs where d: "sched_step (\<lambda>_. None) idle (EvDiscovered [host_1]) (tracking 0 0) effs"
    using step_discover by blast
  have r: "tracked_run (\<lambda>_. None) idle (([] @ [EvDiscovered [host_1]]) @ [EvOp ?inc]) (tracking (0 + 1) (0 + 1))"
    by (rule tracked_run.tracked_next [OF tracked_run.tracked_next [OF tracked_run.tracked_start _ d] _ step_increment])
      (simp_all add: tracked_event_def Scheduler_IncrementConnection_def)
  obtain acts where "handle sample_server None None sample_context sample_env = (acts, HDone, None)"
    "sched_ops acts = [?inc, Scheduler_DecrementConnection host_1]"
    using sample_handle by blast
  then have s: "tcp_sends [?inc, Scheduler_DecrementConnection host_1]" by (metis tcp_sends_def)
  have "interleaved [[?inc]] (event_ops (([] @ [EvDiscovered [host_1]]) @ [EvOp ?inc]))"
    by (rule interleaved.one_more [OF interleaved.none]) simp
  from open_connections_counted [OF r _ this, of target_1] s show ?thesis by auto
qed

section \<open>The map of clients\<close>

lemma tcp_run_clients:
  assumes "tcp_run (TcpServer_init cfg) evs effs s" and "ts_running s"
  shows "length (ts_clients s) = length (ts_handling s) \<and>
    set (ts_clients s) = (\<lambda>c. (conn_remote c, c)) ` set (ts_handling s) \<and>
    (\<forall>mx. co_MaxConnections (srv_Options cfg) = Some mx \<and> mx > 0 \<longrightarrow> int (length (ts_handling s)) \<le> mx)"
proof -
  have inv: "tcp_inv s" by (rule tcp_run_inv [OF assms(1) tcp_inv_init])
  have "ts_cfg s = cfg" using tcp_run_cfg [OF assms(1)] by (simp add: TcpServer_init_def)
  then show ?thesis using inv assms(2) tcp_inv_length [OF inv assms(2)] by (auto simp: tcp_inv_def)
qed

text \<open>The map of clients holds exactly the connections whose handler is running, so with a
  positive \<open>max_connections\<close> the server never handles more connections than that.\<close>

theorem clients_are_handled:
  assumes "tcp_run (TcpServer_init cfg) evs effs s" and "ts_running s"
  shows "length (ts_clients s) = length (ts_handling s) \<and>
    set (ts_clients s) = (\<lambda>c. (conn_remote c, c)) ` set (ts_handling s) \<and>
    (\<forall>mx. co_MaxConnections (srv_Options cfg) = Some mx \<and> mx > 0 \<longrightarrow> int (length (ts_handling s)) \<le> mx)"
  by (rule tcp_run_clients [OF assms])

theorem clients_are_handled_witness:
  "\<exists>s. tcp_run (TcpServer_init sample_server) [TcpConnect \<lparr>conn_id = 1, conn_remote = ''10.0.0.9:1024''\<rparr>]
     [ConnectionsStat 1, GoHandle \<lparr>conn_id = 1, conn_remote = ''10.0.0.9:1024''\<rparr>] s \<and> length (ts_handling s) = 1"
proof -
  let ?c = "\<lparr>conn_id = 1, conn_remote = ''10.0.0.9:1024''\<rparr>"
  have "tcp_run (TcpServer_init sample_server) ([] @ [TcpConnect ?c]) ([] @ [ConnectionsStat 1, GoHandle ?c])
      ((TcpServer_init sample_server)\<lparr>ts_clients := [(''10.0.0.9:1024'', ?c)], ts_handling := [?c]\<rparr>)" (is "tcp_run _ _ _ ?s")
    by (rule tcp_run.tcp_next [OF tcp_run.tcp_start])
      (simp_all add: TcpServer_init_def HandleClientConnect_def sample_server_def sample_options_def clients_put_def)
  with clients_are_handled [OF this] show ?thesis by (auto simp: TcpServer_init_def)
qed

section \<open>Accepted connections\<close>


definition one_client :: Conn where
  "one_client = \<lparr>conn_id = 1, conn_remote = ''10.0.0.9:1024''\<rparr>"

definition client_context :: Context where
  "client_context = TcpContext [] \<lparr>addr_IP = [], addr_Port = 1024\<rparr>"

text \<open>A connection that has been accepted and wrapped.\<close>

definition one_waiting :: Acceptor where
  "one_waiting = (Listening sample_server)\<lparr>ac_waiting := [(client_context, one_client)], ac_accepted := [one_client]\<rparr>"

lemma one_waiting_run:
  "accept_run (Listening sample_server) [Accepted one_client, Wrapped one_client \<lparr>addr_IP = [], addr_Port = 1024\<rparr> Panic] one_waiting"
proof -
  let ?s1 = "(Listening sample_server)\<lparr>ac_wrapping := [one_client], ac_accepted := [one_client]\<rparr>"
  have 1: "accept_step (Listening sample_server) (Accepted one_client) ?s1"
    using st_accept [of "Listening sample_server" one_client]
    by (simp add: Listening_def TcpServer_init_def open_conns_def)
  have "accept_step ?s1 (Wrapped one_client \<lparr>addr_IP = [], addr_Port = 1024\<rparr> Panic) one_waiting"
    using st_wrapped [of one_client ?s1 _ Panic client_context]
    by (simp add: wrap_def one_waiting_def client_context_def Listening_def TcpServer_init_def sample_server_def)
  from run_next [OF run_next [OF run_start 1] this] show ?thesis by simp
qed


text \<open>C36: What is lost: once the server has been stopped, a connection that waits to be handed over waits
  for ever, and nobody closes it; and after an error of \<open>Accept\<close>, whatever its reason, a server that
  keeps running takes no further connection.\<close>

theorem waiting_connections_lost:
  assumes "accept_run (Listening cfg) evs s" and "accept_run s evs' s'"
  shows "(\<not> ts_running (ac_server s) \<longrightarrow> set (ac_waiting s) \<subseteq> set (ac_waiting s') \<and>
      snd ` set (ac_waiting s) \<inter> set (ac_closed s') = {}) \<and>
    (\<not> ac_accepting s \<longrightarrow> ac_accepted s' = ac_accepted s)"
proof -
  have "connected s" using accept_run_inv [OF assms(1) connected_Listening] .
  moreover have "accounted s" using accept_run_accounted [OF assms(1) connected_Listening accounted_Listening] .
  ultimately have "accounted s'" by (rule accept_run_accounted [OF assms(2)])
  then have "snd ` set (ac_waiting s') \<inter> set (ac_closed s') = {}" by (auto simp: accounted_def places_def)
  then show ?thesis using stopped_run [OF assms(2)] deaf_run [OF assms(2)] by fast
qed

theorem waiting_connections_lost_witness:
  "\<exists>s. accept_run one_waiting [StopServer] s \<and> (\<forall>evs s'. accept_run s evs s' \<longrightarrow> one_client \<notin> set (ac_closed s'))"
proof -
  obtain srv effs where stop: "tcp_step TcpStop (ac_server one_waiting) = Ok (srv, effs)" by fastforce
  have run: "ts_running (ac_server one_waiting)"
    by (simp add: one_waiting_def Listening_def TcpServer_init_def)
  let ?s = "one_waiting\<lparr>ac_server := srv, ac_closed := closes effs @ ac_closed one_waiting\<rparr>"
  have step: "accept_step one_waiting StopServer ?s" by (rule st_stop [OF run stop])
  have "\<not> ts_running (ac_server ?s)" using stop by (auto simp: TcpServer_stop_def)
  moreover have "snd ` set (ac_waiting ?s) = {one_client}" by (simp add: one_waiting_def)
  ultimately have "one_client \<notin> set (ac_closed s')" if "accept_run ?s evs s'" for evs s'
    using waiting_connections_lost [OF run_next [OF one_waiting_run step] that] by auto
  then show ?thesis using run_next [OF run_start step] by auto
qed

end
