(* ===== verification/Udp_Session.thy ===== *)
theory Udp_Session
  imports Connection_Users
begin

text \<open>
  A UDP session (src/src/server/udp/session): the worker goroutine that \<open>NewSession\<close> starts, the
  goroutine of \<open>ListenResponses\<close>, and the calls of the server, as one step function over events.
  \<open>None\<close> is a step that is not enabled. Timers follow Go 1.23 and later (the module asks for 1.25):
  \<open>Stop\<close> succeeds until the tick has been received, and a receive after that blocks.
\<close>

definition UDP_PACKET_SIZE :: nat where
  "UDP_PACKET_SIZE = 65507"

definition MAX_PACKETS_QUEUE :: nat where
  "MAX_PACKETS_QUEUE = 10000"

record ses_Config =
  ses_MaxRequests :: uint64
  ses_MaxResponses :: uint64
  ses_ClientIdleTimeout :: goint
  ses_BackendIdleTimeout :: goint
  ses_Transparent :: bool

text \<open>No timer, running, expired with the tick still in the channel, expired and received.\<close>

datatype ses_timer = TNone | TArmed | TFired | TDrained

datatype ses_worker = Looping | Blocked | Exited

text \<open>\<open>ses_stopC\<close>: the channel \<open>stopC\<close> of capacity 1 holds a request.\<close>

record Session =
  ses_sent :: uint64
  ses_recv :: uint64
  ses_cfg :: ses_Config
  ses_backend :: Backend
  ses_out :: "string list"
  ses_stopC :: bool
  ses_stopped :: bool
  ses_timer :: ses_timer
  ses_worker :: ses_worker
  ses_listening :: bool
  ses_conn_open :: bool

definition NewSession :: "Backend \<Rightarrow> ses_Config \<Rightarrow> Session \<times> Op list" where
  "NewSession b cfg =
     (\<lparr>ses_sent = 0, ses_recv = 0, ses_cfg = cfg, ses_backend = b, ses_out = [], ses_stopC = False,
       ses_stopped = False, ses_timer = (if ses_ClientIdleTimeout cfg > 0 then TArmed else TNone),
       ses_worker = Looping, ses_listening = False, ses_conn_open = True\<rparr>,
      [Scheduler_IncrementConnection b])"

definition ListenResponses :: "Session \<Rightarrow> Session" where
  "ListenResponses s = s\<lparr>ses_listening := True\<rparr>"

definition IsDone :: "Session \<Rightarrow> bool" where
  "IsDone s = ses_stopped s"

definition Session_Close :: "Session \<Rightarrow> Session" where
  "Session_Close s = s\<lparr>ses_stopC := True\<rparr>"

text \<open>
  \<open>Write\<close>: the session, and whether there was no error; \<open>copy\<close> cuts the packet at the size of the
  pooled buffer and a full queue drops it.
\<close>

definition Session_Write :: "string \<Rightarrow> Session \<Rightarrow> Session \<times> bool" where
  "Session_Write buf s =
     (if ses_stopped s then (s, False)
      else if length (ses_out s) < MAX_PACKETS_QUEUE then (s\<lparr>ses_out := ses_out s @ [take UDP_PACKET_SIZE buf]\<rparr>, True)
      else (s, True))"

text \<open>\<open>if !t.Stop() \<lbrace> <-t.C \<rbrace>; t.Reset(..)\<close>: \<open>None\<close> when the receive blocks for ever.\<close>

fun restart_timer :: "ses_timer \<Rightarrow> ses_timer option" where
  "restart_timer TNone = Some TNone"
| "restart_timer TArmed = Some TArmed"
| "restart_timer TFired = Some TArmed"
| "restart_timer TDrained = None"

text \<open>The branch of \<open>s.out\<close>; \<open>wrote\<close> is what \<open>conn.Write\<close> returned, \<open>None\<close> an error.\<close>

definition session_send :: "nat option \<Rightarrow> string \<Rightarrow> Session \<Rightarrow> Session \<times> Op list" where
  "session_send wrote pkt s =
     (case restart_timer (ses_timer s) of
        None \<Rightarrow> (s\<lparr>ses_worker := Blocked\<rparr>, [])
      | Some t \<Rightarrow>
          if wrote \<noteq> Some (length pkt) then (s\<lparr>ses_timer := t\<rparr>, [])
          else (s\<lparr>ses_timer := t, ses_sent := (if ses_MaxRequests (ses_cfg s) > 0 then ses_sent s + 1 else ses_sent s)\<rparr>,
                [Scheduler_IncrementTx (ses_backend s) (of_nat (length pkt))]))"

definition session_stop :: "Session \<Rightarrow> Session \<times> Op list" where
  "session_stop s =
     (s\<lparr>ses_stopC := False, ses_stopped := True, ses_timer := TNone, ses_conn_open := False,
        ses_out := [], ses_worker := Exited\<rparr>,
      [Scheduler_DecrementConnection (ses_backend s)])"

text \<open>
  One turn of \<open>ListenResponses\<close>: \<open>None\<close> when \<open>Read\<close> failed or timed out, otherwise the number of
  bytes read and what \<open>WriteToUDP\<close> returned. The deferred \<open>Close\<close> runs when it returns.
\<close>

definition session_response :: "(nat \<times> nat option) option \<Rightarrow> Session \<Rightarrow> Session \<times> Op list" where
  "session_response r s =
     (let return = Session_Close (s\<lparr>ses_listening := False\<rparr>)
      in case r of
          None \<Rightarrow> (return, [])
        | Some (n, wrote) \<Rightarrow>
            let rx = [Scheduler_IncrementRx (ses_backend s) (of_nat n)]
            in if wrote \<noteq> Some n then (return, rx)
               else if ses_MaxResponses (ses_cfg s) > 0 then
                 (if ses_recv s + 1 \<ge> ses_MaxResponses (ses_cfg s)
                  then (return\<lparr>ses_recv := ses_recv s + 1\<rparr>, rx) else (s\<lparr>ses_recv := ses_recv s + 1\<rparr>, rx))
               else (s, rx))"

datatype ses_event =
    TimerExpires
  | TimerBranch
  | OutBranch "nat option"
  | StopBranch
  | CallWrite string
  | CallClose
  | Response "(nat \<times> nat option) option"

fun ses_step :: "ses_event \<Rightarrow> Session \<Rightarrow> (Session \<times> Op list) option" where
  "ses_step TimerExpires s =
     (if ses_timer s = TArmed then Some (s\<lparr>ses_timer := TFired\<rparr>, []) else None)"
| "ses_step TimerBranch s =
     (if ses_worker s = Looping \<and> ses_timer s = TFired
      then Some (Session_Close (s\<lparr>ses_timer := TDrained\<rparr>), []) else None)"
| "ses_step (OutBranch wrote) s =
     (case ses_out s of [] \<Rightarrow> None
      | pkt # rest \<Rightarrow>
          if ses_worker s = Looping then Some (session_send wrote pkt (s\<lparr>ses_out := rest\<rparr>)) else None)"
| "ses_step StopBranch s =
     (if ses_worker s = Looping \<and> ses_stopC s then Some (session_stop s) else None)"
| "ses_step (CallWrite buf) s = Some (fst (Session_Write buf s), [])"
| "ses_step CallClose s = Some (Session_Close s, [])"
| "ses_step (Response r) s = (if ses_listening s then Some (session_response r s) else None)"

fun ses_run :: "ses_event list \<Rightarrow> Session \<Rightarrow> (Session \<times> Op list) option" where
  "ses_run [] s = Some (s, [])"
| "ses_run (e # es) s =
     (case ses_step e s of None \<Rightarrow> None
      | Some (s, ops) \<Rightarrow> (case ses_run es s of None \<Rightarrow> None | Some (s, ops') \<Rightarrow> Some (s, ops @ ops')))"

section \<open>Lemmas\<close>

lemma ses_run_Cons:
  "ses_run (e # es) s = Some (s', ops) \<longleftrightarrow>
   (\<exists>s1 o1 o2. ses_step e s = Some (s1, o1) \<and> ses_run es s1 = Some (s', o2) \<and> ops = o1 @ o2)"
  by (auto split: option.splits)

lemma traffic_op_simps [simp]:
  "traffic_op (Scheduler_IncrementTx b c)" "traffic_op (Scheduler_IncrementRx b c)"
  by (simp_all add: traffic_op_def Scheduler_IncrementTx_def Scheduler_IncrementRx_def)

lemma session_send_facts:
  assumes "session_send wrote pkt s = (s', ops)"
  shows "list_all traffic_op ops \<and> ses_backend s' = ses_backend s \<and> ses_cfg s' = ses_cfg s \<and>
    ses_stopped s' = ses_stopped s \<and> (ses_worker s' = ses_worker s \<or> ses_worker s' = Blocked) \<and>
    ses_recv s' = ses_recv s \<and> ses_listening s' = ses_listening s"
  using assms by (auto simp: session_send_def split: option.splits if_splits)

lemma session_response_facts:
  assumes "session_response r s = (s', ops)"
  shows "list_all traffic_op ops \<and> ses_backend s' = ses_backend s \<and> ses_cfg s' = ses_cfg s \<and>
    ses_stopped s' = ses_stopped s \<and> ses_worker s' = ses_worker s"
  using assms
  by (auto simp: session_response_def Session_Close_def Let_def split: option.splits if_splits prod.splits)

text \<open>Only the stop branch sends anything but traffic, and it ends the worker.\<close>

lemma ses_step_facts:
  assumes "ses_step e s = Some (s', ops)"
  shows "ses_backend s' = ses_backend s \<and> ses_cfg s' = ses_cfg s \<and>
    (list_all traffic_op ops \<and> (ses_worker s = Exited \<longleftrightarrow> ses_worker s' = Exited) \<and> ses_stopped s' = ses_stopped s \<or>
     ops = [Scheduler_DecrementConnection (ses_backend s)] \<and> ses_worker s = Looping \<and>
       ses_worker s' = Exited \<and> ses_stopped s')"
proof (cases e)
  case (OutBranch wrote)
  then obtain pkt rest where "ses_worker s = Looping" "session_send wrote pkt (s\<lparr>ses_out := rest\<rparr>) = (s', ops)"
    using assms by (auto split: list.splits if_splits)
  then show ?thesis using session_send_facts [of wrote pkt _ s' ops] by fastforce
next
  case (Response r)
  then show ?thesis using assms session_response_facts [of r s s' ops] by (auto split: if_splits)
next
  case StopBranch
  then show ?thesis using assms by (auto simp: session_stop_def split: if_splits)
qed (use assms in \<open>auto simp: Session_Close_def Session_Write_def split: if_splits\<close>)

lemma ses_run_exited:
  "ses_run es s = Some (s', ops) \<Longrightarrow> ses_worker s = Exited \<Longrightarrow>
   list_all traffic_op ops \<and> ses_worker s' = Exited \<and> ses_stopped s' = ses_stopped s"
proof (induction es arbitrary: s ops)
  case (Cons e es)
  then obtain s1 o1 o2 where s: "ses_step e s = Some (s1, o1)" "ses_run es s1 = Some (s', o2)" "ops = o1 @ o2"
    by (auto simp only: ses_run_Cons)
  from ses_step_facts [OF s(1)] Cons.prems(2) have "list_all traffic_op o1 \<and> ses_worker s1 = Exited \<and> ses_stopped s1 = ses_stopped s"
    by auto
  then show ?case using Cons.IH [OF s(2)] s(3) by auto
qed simp

lemma ses_run_shape:
  "ses_run es s = Some (s', ops) \<Longrightarrow> ses_worker s \<noteq> Exited \<Longrightarrow> \<not> ses_stopped s \<Longrightarrow>
   (\<exists>mid late. list_all traffic_op mid \<and> list_all traffic_op late \<and>
     (ops = mid \<and> ses_worker s' \<noteq> Exited \<and> \<not> ses_stopped s' \<or>
      ops = mid @ Scheduler_DecrementConnection (ses_backend s) # late \<and> ses_worker s' = Exited \<and> ses_stopped s'))"
proof (induction es arbitrary: s ops)
  case (Cons e es)
  then obtain s1 o1 o2 where s: "ses_step e s = Some (s1, o1)" "ses_run es s1 = Some (s', o2)" "ops = o1 @ o2"
    by (auto simp only: ses_run_Cons)
  show ?case
  proof (cases "ses_worker s1 = Exited")
    case True
    then have "o1 = [Scheduler_DecrementConnection (ses_backend s)]" "ses_stopped s1"
      using ses_step_facts [OF s(1)] Cons.prems(2) by auto
    with ses_run_exited [OF s(2) True] show ?thesis
      unfolding s(3) by (intro exI [of _ "[]"] exI [of _ o2]) simp
  next
    case False
    then have f: "list_all traffic_op o1" "\<not> ses_stopped s1" "ses_backend s1 = ses_backend s"
      using ses_step_facts [OF s(1)] Cons.prems(3) by auto
    from Cons.IH [OF s(2) False f(2)] obtain mid late where
      "list_all traffic_op mid" "list_all traffic_op late"
      "o2 = mid \<and> ses_worker s' \<noteq> Exited \<and> \<not> ses_stopped s' \<or>
       o2 = mid @ Scheduler_DecrementConnection (ses_backend s) # late \<and> ses_worker s' = Exited \<and> ses_stopped s'"
      using f(3) by auto
    then show ?thesis using f(1) unfolding s(3) by (intro exI [of _ "o1 @ mid"] exI [of _ late]) auto
  qed
qed (auto intro!: exI [of _ "[]"])

text \<open>What the goroutines of one session send.\<close>

definition udp_sends :: "Op list \<Rightarrow> bool" where
  "udp_sends ops \<longleftrightarrow> (\<exists>b cfg s inc es listen s' ops'.
     NewSession b cfg = (s, inc) \<and> ses_run es (if listen then ListenResponses s else s) = Some (s', ops') \<and>
     ops = inc @ ops')"

lemma session_ops:
  assumes "NewSession b cfg = (s, inc)"
    and "ses_run es (if listen then ListenResponses s else s) = Some (s', ops)"
  shows "\<exists>mid late. list_all traffic_op mid \<and> list_all traffic_op late \<and>
     (inc @ ops = Scheduler_IncrementConnection b # mid \<and> \<not> IsDone s' \<or>
      inc @ ops = Scheduler_IncrementConnection b # mid @ Scheduler_DecrementConnection b # late \<and> IsDone s')"
proof -
  let ?s = "if listen then ListenResponses s else s"
  have s: "ses_worker ?s \<noteq> Exited" "\<not> ses_stopped ?s" "ses_backend ?s = b" "inc = [Scheduler_IncrementConnection b]"
    using assms(1) by (auto simp: NewSession_def ListenResponses_def)
  from ses_run_shape [OF assms(2) s(1,2)] s(3,4) show ?thesis by (auto simp: IsDone_def)
qed

lemma udp_sends_user_ops: "udp_sends ops \<Longrightarrow> user_ops ops"
  unfolding udp_sends_def using session_ops user_ops_intros(3,4) by metis

interpretation udp: connection_user udp_sends
  by unfold_locales (auto intro: user_ops_releases udp_sends_user_ops)

section \<open>Lemmas: limits\<close>

definition forwarded :: "ses_event \<Rightarrow> bool" where
  "forwarded e \<longleftrightarrow> (\<exists>n. e = Response (Some (n, Some n)))"

lemma unat_plus_one: "x < m \<Longrightarrow> unat (x + 1 :: uint64) = unat x + 1"
proof -
  assume "x < m"
  then have "unat x < unat m" by (simp add: word_less_nat_alt)
  moreover have "unat m < 2 ^ 64" using unsigned_less [where 'a=nat, of m] by simp
  ultimately have "unat x + 1 < 2 ^ 64" by linarith
  then show ?thesis by (simp add: unat_word_ariths)
qed

text \<open>How many responses may still be forwarded.\<close>

definition responses_left :: "Session \<Rightarrow> nat" where
  "responses_left s = (if ses_listening s then unat (ses_MaxResponses (ses_cfg s)) - unat (ses_recv s) else 0)"

lemma responses_step:
  assumes "ses_step e s = Some (s', ops)" and "0 < ses_MaxResponses (ses_cfg s)"
    and "ses_listening s \<longrightarrow> ses_recv s < ses_MaxResponses (ses_cfg s)"
  shows "(if forwarded e then 1 else 0) + responses_left s' \<le> responses_left s \<and>
    ses_cfg s' = ses_cfg s \<and> (ses_listening s' \<longrightarrow> ses_recv s' < ses_MaxResponses (ses_cfg s'))"
proof (cases e)
  case (Response r)
  then have l: "ses_listening s" "session_response r s = (s', ops)" using assms(1) by (auto split: if_splits)
  have lt: "ses_recv s < ses_MaxResponses (ses_cfg s)" using assms(3) l(1) by simp
  then have u: "unat (ses_recv s + 1) = unat (ses_recv s) + 1" by (rule unat_plus_one)
  have ltn: "unat (ses_recv s) < unat (ses_MaxResponses (ses_cfg s))" using lt by (simp add: word_less_nat_alt)
  show ?thesis
  proof (cases "\<exists>n. r = Some (n, Some n)")
    case True
    then show ?thesis using l assms(2) ltn u Response
      by (auto simp: session_response_def Session_Close_def responses_left_def forwarded_def Let_def not_le
          split: if_splits)
  next
    case False
    then have "\<not> ses_listening s' \<and> ses_cfg s' = ses_cfg s" using l(2)
      by (auto simp: session_response_def Session_Close_def Let_def split: option.splits if_splits prod.splits)
    then show ?thesis using False Response by (auto simp: forwarded_def responses_left_def)
  qed
next
  case (OutBranch wrote)
  then obtain pkt rest where "session_send wrote pkt (s\<lparr>ses_out := rest\<rparr>) = (s', ops)"
    using assms(1) by (auto split: list.splits if_splits)
  from session_send_facts [OF this] show ?thesis using assms(3) OutBranch
    by (auto simp: forwarded_def responses_left_def)
qed (use assms in \<open>auto simp: forwarded_def responses_left_def Session_Close_def Session_Write_def session_stop_def
  split: if_splits\<close>)

lemma responses_run:
  "ses_run es s = Some (s', ops) \<Longrightarrow> 0 < ses_MaxResponses (ses_cfg s) \<Longrightarrow>
   ses_listening s \<longrightarrow> ses_recv s < ses_MaxResponses (ses_cfg s) \<Longrightarrow>
   length (filter forwarded es) + responses_left s' \<le> responses_left s"
proof (induction es arbitrary: s ops)
  case (Cons e es)
  then obtain s1 o1 o2 where s: "ses_step e s = Some (s1, o1)" "ses_run es s1 = Some (s', o2)"
    by (auto simp only: ses_run_Cons)
  note step = responses_step [OF s(1) Cons.prems(2,3)]
  from Cons.IH [OF s(2)] Cons.prems(2) step show ?case by auto
qed simp

text \<open>A worker that waits for a timer that has already fired never goes on.\<close>

lemma ses_step_blocked:
  "ses_step e s = Some (s', ops) \<Longrightarrow> ses_worker s = Blocked \<Longrightarrow> \<not> ses_stopped s \<Longrightarrow>
   ses_worker s' = Blocked \<and> \<not> ses_stopped s' \<and> list_all traffic_op ops"
  using ses_step_facts [of e s s' ops]
  by (cases e) (auto simp: Session_Close_def Session_Write_def session_response_def Let_def
      split: if_splits list.splits option.splits prod.splits)

lemma ses_run_blocked:
  "ses_run es s = Some (s', ops) \<Longrightarrow> ses_worker s = Blocked \<Longrightarrow> \<not> ses_stopped s \<Longrightarrow>
   ses_worker s' = Blocked \<and> \<not> ses_stopped s' \<and> list_all traffic_op ops"
proof (induction es arbitrary: s ops)
  case (Cons e es)
  then obtain s1 o1 o2 where s: "ses_step e s = Some (s1, o1)" "ses_run es s1 = Some (s', o2)" "ops = o1 @ o2"
    by (auto simp only: ses_run_Cons)
  from ses_step_blocked [OF s(1)] Cons.prems have "ses_worker s1 = Blocked" "\<not> ses_stopped s1" "list_all traffic_op o1"
    by auto
  then show ?case using Cons.IH [OF s(2)] s(3) by simp
qed simp

lemma session_forwards:
  assumes "NewSession b cfg = (s, inc)" and "0 < ses_MaxResponses cfg"
    and "ses_run es (ListenResponses s) = Some (s', ops)"
  shows "length (filter forwarded es) \<le> unat (ses_MaxResponses cfg)"
proof -
  have "ses_cfg (ListenResponses s) = cfg" "ses_recv (ListenResponses s) = 0" "ses_listening (ListenResponses s)"
    using assms(1) by (auto simp: NewSession_def ListenResponses_def)
  with responses_run [OF assms(3)] assms(2) show ?thesis by (simp add: responses_left_def)
qed

lemma session_blocks:
  assumes "NewSession b cfg = (s, inc)" and "0 < ses_ClientIdleTimeout cfg"
    and "ses_run [CallWrite pkt, TimerExpires, TimerBranch, OutBranch w] s = Some (s1, ops1)"
    and "ses_run es s1 = Some (s', ops)"
  shows "\<not> IsDone s' \<and> ses_stopC s1 \<and> list_all traffic_op (ops1 @ ops)"
proof -
  have "ses_worker s1 = Blocked" "\<not> ses_stopped s1" "ses_stopC s1" "ops1 = []"
    using assms(1-3)
    by (auto simp: NewSession_def Session_Write_def MAX_PACKETS_QUEUE_def Session_Close_def session_send_def)
  with ses_run_blocked [OF assms(4)] show ?thesis by (simp add: IsDone_def)
qed

end
