(* ===== verification/Udp_Server.thy ===== *)
theory Udp_Server
  imports Udp_Session Tcp_Server
begin

text \<open>
  The UDP server (src/src/server/udp/server.go): the map of sessions, the election and dial for a
  new session, the pool of connections of the single-request mode, the packet loop, the
  periodic cleanup and the stop. A pointer to a session is an index into the store \<open>us_store\<close> of
  all sessions ever created.
\<close>

section \<open>Connections to backends\<close>

text \<open>The local side of a connection: the client's own address in transparent mode.\<close>

datatype udp_local = FromClient Addr | FromSource "IP option"

record UdpConn =
  uc_local :: udp_local
  uc_remote :: string

text \<open>\<open>None\<close> is the nil pool of the modes with sessions.\<close>

type_synonym connPool = "(string \<times> UdpConn) list option"

definition pool_get :: "connPool \<Rightarrow> string \<Rightarrow> UdpConn option" where
  "pool_get cp addr = (case cp of None \<Rightarrow> None | Some m \<Rightarrow> map_of m addr)"

definition pool_put :: "connPool \<Rightarrow> string \<Rightarrow> UdpConn \<Rightarrow> connPool" where
  "pool_put cp addr conn = (case cp of None \<Rightarrow> None | Some m \<Rightarrow> Some (clients_put addr conn m))"

text \<open>\<open>close\<close>: the connections it closes, and the pool.\<close>

definition pool_close :: "connPool \<Rightarrow> UdpConn list \<times> connPool" where
  "pool_close cp = (case cp of None \<Rightarrow> ([], None) | Some m \<Rightarrow> (map snd m, Some []))"

text \<open>What the outside answers while one packet is handled.\<close>

record udp_env =
  ue_elected :: "Backend outcome"
  ue_resolve_ok :: bool
  ue_dial_ok :: bool
  ue_prepend :: "string \<Rightarrow> string option"
  ue_write :: "string \<Rightarrow> nat option"

record UdpServer =
  us_cfg :: Server
  us_access :: "Access option"
  us_sourcePool :: "SourcePool option"
  us_connPool :: connPool
  us_sessions :: "(string \<times> nat) list"
  us_store :: "Session list"
  us_running :: bool

text \<open>
  \<open>electAndConnect\<close>: the connection and the backend, the connection pool, the source pool.
\<close>

definition electAndConnect ::
    "Server \<Rightarrow> connPool \<Rightarrow> SourcePool option \<Rightarrow> Addr \<Rightarrow> udp_env \<Rightarrow>
     (UdpConn \<times> Backend) outcome \<times> connPool \<times> SourcePool option" where
  "electAndConnect cfg cp sp client env =
     (case ue_elected env of
        Err e \<Rightarrow> (Err (''Could not elect backend: '' @ e), cp, sp)
      | Panic \<Rightarrow> (Panic, cp, sp)
      | Ok b \<Rightarrow>
          (let addrStr = Host (Target b) @ '':'' @ Port (Target b)
           in case pool_get cp addrStr of
               Some conn \<Rightarrow> (Ok (conn, b), cp, sp)
             | None \<Rightarrow>
                 if \<not> ue_resolve_ok env then (Err (''Could not resolve udp address '' @ addrStr), cp, sp)
                 else (case srv_Udp cfg of
                     None \<Rightarrow> (Panic, cp, sp)
                   | Some u \<Rightarrow>
                       if udp_Transparent u then
                         (if \<not> ue_dial_ok env then (Err ''Could not dial UDP addr'', cp, sp)
                          else let conn = \<lparr>uc_local = FromClient client, uc_remote = addrStr\<rparr>
                               in (Ok (conn, b), pool_put cp addrStr conn, sp))
                       else
                         (let (source, sp) = SourcePool_Next sp
                          in if \<not> ue_dial_ok env then (Err ''Could not dial UDP addr'', cp, sp)
                             else let conn = \<lparr>uc_local = FromSource source, uc_remote = addrStr\<rparr>
                                  in (Ok (conn, b), pool_put cp addrStr conn, sp)))))"

section \<open>Sessions\<close>

datatype udp_effect =
    UdpOp Op
  | UdpConnectionsStat nat
  | UdpDialled UdpConn
  | UdpSent UdpConn string
  | UdpLog string
  | UdpCloseConn
  | UdpCloseBackendConn UdpConn
  | UdpStopStats
  | UdpStopScheduler

definition close_session :: "nat \<Rightarrow> UdpServer \<Rightarrow> UdpServer" where
  "close_session i s = s\<lparr>us_store := (us_store s)[i := Session_Close (us_store s ! i)]\<rparr>"

definition session_done :: "UdpServer \<Rightarrow> nat \<Rightarrow> bool" where
  "session_done s i \<longleftrightarrow> IsDone (us_store s ! i)"

text \<open>The rest of \<open>getOrCreateSession\<close>, once a new session is needed.\<close>

definition create_session ::
    "ses_Config \<Rightarrow> string \<Rightarrow> Addr \<Rightarrow> udp_env \<Rightarrow> UdpServer \<Rightarrow>
     nat outcome \<times> UdpServer \<times> udp_effect list" where
  "create_session scfg key client env s =
     (case electAndConnect (us_cfg s) None (us_sourcePool s) client env of
        (Ok (conn, b), cp, sp) \<Rightarrow>
          (let (ses, ops) = NewSession b scfg;
               ses = (if \<not> ses_Transparent scfg then ListenResponses ses else ses);
               i = length (us_store s);
               sessions = clients_put key i (us_sessions s)
           in (Ok i, s\<lparr>us_sourcePool := sp, us_store := us_store s @ [ses], us_sessions := sessions\<rparr>,
               UdpDialled conn # map UdpOp ops @ [UdpConnectionsStat (length sessions)]))
      | (Err e, cp, sp) \<Rightarrow> (Err e, s\<lparr>us_sourcePool := sp\<rparr>, [])
      | (Panic, cp, sp) \<Rightarrow> (Panic, s\<lparr>us_sourcePool := sp\<rparr>, []))"

text \<open>\<open>key\<close> is \<open>clientAddr.String()\<close>.\<close>

definition getOrCreateSession ::
    "ses_Config \<Rightarrow> string \<Rightarrow> Addr \<Rightarrow> udp_env \<Rightarrow> UdpServer \<Rightarrow>
     nat outcome \<times> UdpServer \<times> udp_effect list" where
  "getOrCreateSession scfg key client env s =
     (case map_of (us_sessions s) key of
        Some i \<Rightarrow> if \<not> session_done s i then (Ok i, s, [])
                  else create_session scfg key client env (close_session i s)
      | None \<Rightarrow> create_session scfg key client env s)"

text \<open>The PROXY protocol prefix that \<open>proxy\<close> and \<open>fireAndForget\<close> share.\<close>

definition udp_payload :: "Server \<Rightarrow> udp_env \<Rightarrow> string \<Rightarrow> string outcome" where
  "udp_payload cfg env buf =
     (case srv_ProxyProtocol cfg of
        None \<Rightarrow> Ok buf
      | Some pp \<Rightarrow>
          if pp_Version pp = ''2'' then
            (case ue_prepend env buf of None \<Rightarrow> Err ''Could not prepend proxy protocol header'' | Some w \<Rightarrow> Ok w)
          else Err (''Unsupported proxy_protocol version '' @ pp_Version pp @ '' for udp''))"

definition udp_proxy ::
    "ses_Config \<Rightarrow> string \<Rightarrow> Addr \<Rightarrow> string \<Rightarrow> udp_env \<Rightarrow> UdpServer \<Rightarrow> (UdpServer \<times> udp_effect list) outcome" where
  "udp_proxy scfg key client buf env s =
     (case udp_payload (us_cfg s) env buf of
        Err e \<Rightarrow> Ok (s, [UdpLog e])
      | Panic \<Rightarrow> Panic
      | Ok buf \<Rightarrow>
          (case getOrCreateSession scfg key client env s of
             (Ok i, s, effs) \<Rightarrow>
               (let (ses, no_err) = Session_Write buf (us_store s ! i)
                in Ok (s\<lparr>us_store := (us_store s)[i := ses]\<rparr>,
                       effs @ (if no_err then [] else [UdpLog ''Could not write data to UDP session''])))
           | (Err e, s, effs) \<Rightarrow> Ok (s, effs @ [UdpLog e])
           | (Panic, s, effs) \<Rightarrow> Panic))"

definition fireAndForget ::
    "Addr \<Rightarrow> string \<Rightarrow> udp_env \<Rightarrow> UdpServer \<Rightarrow> (UdpServer \<times> udp_effect list) outcome" where
  "fireAndForget client buf env s =
     (case udp_payload (us_cfg s) env buf of
        Err e \<Rightarrow> Ok (s, [UdpLog e])
      | Panic \<Rightarrow> Panic
      | Ok buf \<Rightarrow>
          (case electAndConnect (us_cfg s) (us_connPool s) (us_sourcePool s) client env of
             (Err e, cp, sp) \<Rightarrow> Ok (s\<lparr>us_connPool := cp, us_sourcePool := sp\<rparr>, [UdpLog e])
           | (Panic, _, _) \<Rightarrow> Panic
           | (Ok (conn, b), cp, sp) \<Rightarrow>
               (let s = s\<lparr>us_connPool := cp, us_sourcePool := sp\<rparr>
                in case ue_write env buf of
                    None \<Rightarrow> Ok (s, [UdpLog ''Could not write data''])
                  | Some n \<Rightarrow>
                      if n \<noteq> length buf then Ok (s, [UdpSent conn (take n buf), UdpLog ''Failed to send full packet''])
                      else Ok (s, [UdpSent conn buf, UdpOp (Scheduler_IncrementTx b (of_nat n))]))))"

section \<open>The goroutines of the server\<close>

definition session_config :: "Server \<Rightarrow> ses_Config outcome" where
  "session_config cfg =
     (case (srv_Udp cfg, co_ClientIdleTimeout (srv_Options cfg), co_BackendIdleTimeout (srv_Options cfg)) of
        (Some u, Some ct, Some bt) \<Rightarrow>
          Ok \<lparr>ses_MaxRequests = udp_MaxRequests u, ses_MaxResponses = udp_MaxResponses u,
              ses_ClientIdleTimeout = ParseDurationOrDefault ct 0,
              ses_BackendIdleTimeout = ParseDurationOrDefault bt 0,
              ses_Transparent = udp_Transparent u\<rparr>
      | _ \<Rightarrow> Panic)"

text \<open>One packet in the loop of \<open>serve\<close>, with the configuration that \<open>serve\<close> built.\<close>

definition serve_packet ::
    "ses_Config \<Rightarrow> string \<Rightarrow> Addr \<Rightarrow> string \<Rightarrow> udp_env \<Rightarrow> UdpServer \<Rightarrow> (UdpServer \<times> udp_effect list) outcome" where
  "serve_packet scfg key client buf env s =
     (if (case us_access s of None \<Rightarrow> False | Some a \<Rightarrow> \<not> Access_Allows a (addr_IP client)) then Ok (s, [])
      else if ses_MaxRequests scfg = 1 then fireAndForget client buf env s
      else udp_proxy scfg key client buf env s)"

definition udp_cleanup :: "UdpServer \<Rightarrow> UdpServer \<times> udp_effect list" where
  "udp_cleanup s =
     (let sessions = filter (\<lambda>p. \<not> session_done s (snd p)) (us_sessions s)
      in (s\<lparr>us_sessions := sessions\<rparr>, [UdpConnectionsStat (length sessions)]))"

text \<open>
  The stop, with the end of the packet loop, whose read fails on the closed socket and which
  closes the pool. A packet that is in flight at that moment is not modelled: its election would
  wait for a scheduler that no longer answers.
\<close>

definition udp_stop :: "UdpServer \<Rightarrow> UdpServer \<times> udp_effect list" where
  "udp_stop s =
     (let (conns, cp) = pool_close (us_connPool s)
      in (fold (\<lambda>p s. close_session (snd p) s) (us_sessions s)
            (s\<lparr>us_running := False, us_sessions := [], us_connPool := cp\<rparr>),
          [UdpCloseConn, UdpStopStats, UdpStopScheduler] @ map UdpCloseBackendConn conns))"

datatype udp_event =
    UdpPacket string Addr string udp_env
  | UdpCleanup
  | UdpSession nat ses_event
  | UdpStop

text \<open>
  The server and its sessions: a step of one of the goroutines. \<open>Write\<close> and \<open>Close\<close> of a session
  are calls: they are part of a packet, of a replaced session and of the stop.
\<close>

fun session_call :: "ses_event \<Rightarrow> bool" where
  "session_call (CallWrite _) = True"
| "session_call CallClose = True"
| "session_call _ = False"

fun udp_step :: "ses_Config \<Rightarrow> udp_event \<Rightarrow> UdpServer \<Rightarrow> (UdpServer \<times> udp_effect list) outcome option" where
  "udp_step scfg (UdpPacket key client buf env) s =
     (if us_running s then Some (serve_packet scfg key client buf env s) else None)"
| "udp_step scfg UdpCleanup s = (if us_running s then Some (Ok (udp_cleanup s)) else None)"
| "udp_step scfg (UdpSession i e) s =
     (if i < length (us_store s) \<and> \<not> session_call e then
        map_option (\<lambda>(ses, ops). Ok (s\<lparr>us_store := (us_store s)[i := ses]\<rparr>, map UdpOp ops))
          (ses_step e (us_store s ! i))
      else None)"
| "udp_step scfg UdpStop s = (if us_running s then Some (Ok (udp_stop s)) else None)"

inductive udp_run :: "ses_Config \<Rightarrow> UdpServer \<Rightarrow> udp_event list \<Rightarrow> UdpServer \<Rightarrow> bool" for scfg s where
  udp_start: "udp_run scfg s [] s"
| udp_next: "udp_run scfg s evs s' \<Longrightarrow> udp_step scfg ev s' = Some (Ok (s'', effs)) \<Longrightarrow>
    udp_run scfg s (evs @ [ev]) s''"

definition UdpServer_init :: "Server \<Rightarrow> Access option \<Rightarrow> SourcePool option \<Rightarrow> UdpServer outcome" where
  "UdpServer_init cfg acc sp =
     bind_outcome (session_config cfg) (\<lambda>scfg.
       Ok \<lparr>us_cfg = cfg, us_access = acc, us_sourcePool = sp,
           us_connPool = (if ses_MaxRequests scfg = 1 then Some [] else None),
           us_sessions = [], us_store = [], us_running = True\<rparr>)"

section \<open>Lemmas: no session is lost\<close>

text \<open>
  The keys of the map are distinct, and every session that is not done is in the map under
  exactly one key, as long as the server runs.
\<close>

definition udp_inv :: "UdpServer \<Rightarrow> bool" where
  "udp_inv s \<longleftrightarrow> distinct (map fst (us_sessions s)) \<and> distinct (map snd (us_sessions s)) \<and>
     (\<forall>i\<in>snd ` set (us_sessions s). i < length (us_store s)) \<and>
     (us_running s \<longrightarrow> (\<forall>i<length (us_store s). \<not> session_done s i \<longrightarrow> i \<in> snd ` set (us_sessions s)))"

lemma session_done_close [simp]: "session_done (close_session i s) j \<longleftrightarrow> session_done s j"
  by (cases "i < length (us_store s)")
    (auto simp: session_done_def close_session_def IsDone_def Session_Close_def nth_list_update list_update_beyond)

lemma close_session_simps [simp]:
  "us_sessions (close_session i s) = us_sessions s" "us_running (close_session i s) = us_running s"
  "length (us_store (close_session i s)) = length (us_store s)" "us_cfg (close_session i s) = us_cfg s"
  "us_sourcePool (close_session i s) = us_sourcePool s"
  by (simp_all add: close_session_def)

lemma udp_inv_close [simp]: "udp_inv (close_session i s) \<longleftrightarrow> udp_inv s"
  by (simp add: udp_inv_def)

lemma udp_inv_same:
  "udp_inv s \<Longrightarrow> us_sessions s' = us_sessions s \<Longrightarrow> us_running s' = us_running s \<Longrightarrow>
   length (us_store s') = length (us_store s) \<Longrightarrow>
   (\<And>i. i < length (us_store s) \<Longrightarrow> session_done s i \<Longrightarrow> session_done s' i) \<Longrightarrow> udp_inv s'"
  by (auto simp: udp_inv_def)

lemma create_session_inv:
  assumes "create_session scfg key client env s = (r, s', effs)" and "udp_inv s"
    and "\<And>i. map_of (us_sessions s) key = Some i \<Longrightarrow> session_done s i"
  shows "udp_inv s' \<and> us_running s' = us_running s \<and> (\<forall>i. r = Ok i \<longrightarrow> i < length (us_store s'))"
proof -
  obtain ec cp sp where e: "electAndConnect (us_cfg s) None (us_sourcePool s) client env = (ec, cp, sp)"
    by (cases "electAndConnect (us_cfg s) None (us_sourcePool s) client env") auto
  show ?thesis
  proof (cases ec)
    case (Ok x)
    obtain conn b where x: "x = (conn, b)" by fastforce
    obtain ses ops where n: "NewSession b scfg = (ses, ops)" by fastforce
    let ?m = "filter (\<lambda>p. fst p \<noteq> key) (us_sessions s)"
    have r: "us_sessions s' = (key, length (us_store s)) # ?m" "us_running s' = us_running s"
      "us_store s' = us_store s @ [if \<not> ses_Transparent scfg then ListenResponses ses else ses]"
      "r = Ok (length (us_store s))"
      using assms(1) e Ok x n by (auto simp: create_session_def clients_put_def Let_def)
    have d: "distinct (map fst ?m)" "distinct (map snd ?m)"
      using assms(2) by (auto simp: udp_inv_def distinct_map_filter)
    have fresh: "length (us_store s) \<notin> snd ` set ?m" using assms(2) by (auto simp: udp_inv_def)
    have old: "session_done s' i = session_done s i" if "i < length (us_store s)" for i
      using that by (simp add: session_done_def r(3) nth_append)
    have kept: "i \<in> snd ` set ?m" if "us_running s" "i < length (us_store s)" "\<not> session_done s i" for i
    proof -
      have "i \<in> snd ` set (us_sessions s)" using that assms(2) unfolding udp_inv_def by blast
      then obtain k where k: "(k, i) \<in> set (us_sessions s)" by auto
      moreover have "distinct (map fst (us_sessions s))" using assms(2) by (simp add: udp_inv_def)
      ultimately have "map_of (us_sessions s) k = Some i" by simp
      then have "k \<noteq> key" using assms(3) that(3) by blast
      then show ?thesis using k by force
    qed
    have "udp_inv s'" unfolding udp_inv_def r(1-3)
    proof (intro conjI impI allI)
      show "distinct (map fst ((key, length (us_store s)) # ?m))" using d(1) by auto
      show "distinct (map snd ((key, length (us_store s)) # ?m))" using d(2) fresh by auto
      show "\<forall>i\<in>snd ` set ((key, length (us_store s)) # ?m).
          i < length (us_store s @ [if \<not> ses_Transparent scfg then ListenResponses ses else ses])"
        using assms(2) by (auto simp: udp_inv_def)
      fix i assume i: "us_running s"
        "i < length (us_store s @ [if \<not> ses_Transparent scfg then ListenResponses ses else ses])" "\<not> session_done s' i"
      show "i \<in> snd ` set ((key, length (us_store s)) # ?m)"
      proof (cases "i = length (us_store s)")
        case False
        then have "i < length (us_store s)" using i(2) by simp
        then have "i \<in> snd ` set ?m" using kept [OF i(1)] old i(3) by blast
        then show ?thesis by auto
      qed simp
    qed
    then show ?thesis using r by simp
  qed (use assms(1,2) e udp_inv_same [of s s'] in \<open>auto simp: create_session_def session_done_def\<close>)
qed

lemma getOrCreateSession_inv:
  assumes "getOrCreateSession scfg key client env s = (r, s', effs)" and "udp_inv s"
  shows "udp_inv s' \<and> us_running s' = us_running s \<and> (\<forall>i. r = Ok i \<longrightarrow> i < length (us_store s'))"
proof (cases "map_of (us_sessions s) key")
  case None
  then show ?thesis using assms create_session_inv [of scfg key client env s r s' effs]
    by (simp add: getOrCreateSession_def)
next
  case (Some i)
  then have "i < length (us_store s)" using assms(2) by (auto simp: udp_inv_def dest: map_of_SomeD)
  then show ?thesis using assms Some create_session_inv [of scfg key client env "close_session i s" r s' effs]
    by (auto simp: getOrCreateSession_def split: if_splits)
qed

lemma session_done_update:
  "session_done s i \<Longrightarrow> i < length (us_store s) \<Longrightarrow> IsDone ses = IsDone (us_store s ! j) \<Longrightarrow>
   session_done (s\<lparr>us_store := (us_store s)[j := ses]\<rparr>) i"
  by (cases "i = j") (auto simp: session_done_def)

lemma udp_proxy_inv:
  assumes "udp_proxy scfg key client buf env s = Ok (s', effs)" and "udp_inv s"
  shows "udp_inv s' \<and> us_running s' = us_running s"
proof (cases "udp_payload (us_cfg s) env buf")
  case (Ok buf')
  obtain r s1 e1 where g: "getOrCreateSession scfg key client env s = (r, s1, e1)"
    by (cases "getOrCreateSession scfg key client env s") auto
  note inv = getOrCreateSession_inv [OF g assms(2)]
  show ?thesis
  proof (cases r)
    case (Ok i)
    have "s' = s1\<lparr>us_store := (us_store s1)[i := fst (Session_Write buf' (us_store s1 ! i))]\<rparr>"
      using assms(1) g Ok \<open>udp_payload (us_cfg s) env buf = Ok buf'\<close> by (simp add: udp_proxy_def Let_def split: prod.splits)
    moreover have "IsDone (fst (Session_Write buf' (us_store s1 ! i))) = IsDone (us_store s1 ! i)"
      by (simp add: Session_Write_def IsDone_def)
    ultimately have s': "us_sessions s' = us_sessions s1" "us_running s' = us_running s1"
      "length (us_store s') = length (us_store s1)"
      "\<And>j. j < length (us_store s1) \<Longrightarrow> session_done s1 j \<Longrightarrow> session_done s' j"
      using session_done_update [of s1 _ "fst (Session_Write buf' (us_store s1 ! i))" i] by auto
    have "udp_inv s1" using inv by blast
    from udp_inv_same [OF this s'] s'(2) inv show ?thesis by simp
  qed (use assms(1) g inv Ok in \<open>auto simp: udp_proxy_def\<close>)
qed (use assms in \<open>auto simp: udp_proxy_def\<close>)

lemma fireAndForget_frame:
  assumes "fireAndForget client buf env s = Ok (s', effs)"
  shows "us_sessions s' = us_sessions s \<and> us_running s' = us_running s \<and> us_store s' = us_store s"
  using assms
  by (auto simp: fireAndForget_def Let_def split: outcome.splits prod.splits option.splits if_splits)

lemma serve_packet_inv:
  assumes "serve_packet scfg key client buf env s = Ok (s', effs)" and "udp_inv s"
  shows "udp_inv s' \<and> us_running s' = us_running s"
proof -
  have "udp_inv s'" if "fireAndForget client buf env s = Ok (s', effs)"
    using udp_inv_same [OF assms(2), of s'] fireAndForget_frame [OF that] by (simp add: session_done_def)
  then show ?thesis using assms udp_proxy_inv fireAndForget_frame
    by (auto simp: serve_packet_def split: if_splits)
qed

lemma udp_cleanup_inv: "udp_inv s \<Longrightarrow> udp_inv (fst (udp_cleanup s))"
  by (force simp: udp_inv_def udp_cleanup_def session_done_def Let_def distinct_map_filter)

lemma fold_close_session:
  "us_sessions (fold (\<lambda>p s. close_session (snd p) s) ps s) = us_sessions s"
  "us_running (fold (\<lambda>p s. close_session (snd p) s) ps s) = us_running s"
  "length (us_store (fold (\<lambda>p s. close_session (snd p) s) ps s)) = length (us_store s)"
  by (induction ps arbitrary: s) simp_all

lemma ses_step_done: "ses_step e s = Some (s', ops) \<Longrightarrow> IsDone s \<Longrightarrow> IsDone s'"
  using ses_step_facts [of e s s' ops] by (auto simp: IsDone_def)

lemma udp_step_inv:
  assumes "udp_step scfg ev s = Some (Ok (s', effs))" and "udp_inv s"
  shows "udp_inv s'"
proof (cases ev)
  case (UdpPacket key client buf env)
  then show ?thesis using assms serve_packet_inv by (auto split: if_splits)
next
  case UdpCleanup
  then show ?thesis using assms udp_cleanup_inv [of s] by (auto split: if_splits)
next
  case (UdpSession i e)
  then obtain ses ops where "i < length (us_store s)" "ses_step e (us_store s ! i) = Some (ses, ops)"
    "s' = s\<lparr>us_store := (us_store s)[i := ses]\<rparr>"
    using assms(1) by (auto split: if_splits)
  then show ?thesis using udp_inv_same [OF assms(2), of s'] ses_step_done
    by (auto simp: session_done_def nth_list_update)
next
  case UdpStop
  then show ?thesis using assms(1)
    by (auto simp: udp_stop_def udp_inv_def fold_close_session split: if_splits prod.splits)
qed

lemma udp_run_inv: "udp_run scfg s evs s' \<Longrightarrow> udp_inv s \<Longrightarrow> udp_inv s'"
  by (induction rule: udp_run.induct) (auto intro: udp_step_inv)

lemma udp_inv_init: "UdpServer_init cfg acc sp = Ok s \<Longrightarrow> udp_inv s \<and> us_running s"
  by (auto simp: UdpServer_init_def udp_inv_def bind_outcome_Ok_iff)

lemma udp_run_sessions:
  assumes "UdpServer_init cfg acc sp = Ok s0" and "udp_run scfg s0 evs s" and "us_running s"
  shows "distinct (map fst (us_sessions s)) \<and>
    (\<forall>i<length (us_store s). \<not> session_done s i \<longrightarrow> i \<in> snd ` set (us_sessions s)) \<and>
    (\<forall>i\<in>snd ` set (us_sessions s). i < length (us_store s))"
  using udp_run_inv [OF assms(2)] udp_inv_init [OF assms(1)] assms(3) by (simp add: udp_inv_def)

end
