(* ===== verification/Udp_Delivery.thy ===== *)
theory Udp_Delivery
  imports Udp_Server "HOL-Library.Sublist"
begin

text \<open>
  What becomes of the datagrams of the clients of a UDP server (src/src/server/udp): opening the
  socket, the loop that reads it, and the order in which the sessions hand what they were given to
  their backends' connections. The observers below read the steps of \<open>udp_step\<close> and change nothing.
\<close>

section \<open>Listening and the packet loop\<close>

text \<open>\<open>resolve\<close>: the bind address resolves, \<open>bind\<close>: the socket opens.\<close>

definition udp_listen :: "string \<Rightarrow> bool \<Rightarrow> bool \<Rightarrow> unit outcome" where
  "udp_listen bind_addr resolve bind =
     (if \<not> resolve then Err (''Failed to resolve udp address '' @ bind_addr)
      else if \<not> bind then Err ''Failed to create listening udp socket''
      else Ok ())"

text \<open>
  What \<open>ReadFromUDP\<close> returns; the buffer takes at most \<open>UDP_PACKET_SIZE\<close> bytes of a datagram. After a
  failed read the loop goes on unless the server was stopped; only then it returns, and the
  deferred \<open>close\<close> of the pool runs. The flag of a turn is the value of \<open>stopped\<close>.
\<close>

datatype udp_read = ReadError | ReadFrom string Addr string udp_env

fun serve_turn :: "ses_Config \<Rightarrow> bool \<times> udp_read \<Rightarrow> UdpServer \<Rightarrow> (UdpServer \<times> udp_effect list) outcome option" where
  "serve_turn scfg (stopped, ReadError) s =
     (if stopped then None else Some (Ok (s, [UdpLog ''Failed to read from UDP''])))"
| "serve_turn scfg (stopped, ReadFrom key client datagram env) s =
     Some (serve_packet scfg key client (take UDP_PACKET_SIZE datagram) env s)"

fun serve_loop :: "ses_Config \<Rightarrow> (bool \<times> udp_read) list \<Rightarrow> UdpServer \<Rightarrow> (bool \<times> UdpServer \<times> udp_effect list) outcome" where
  "serve_loop scfg [] s = Ok (False, s, [])"
| "serve_loop scfg (t # ts) s =
     (case serve_turn scfg t s of
        None \<Rightarrow> (case pool_close (us_connPool s) of
            (conns, cp) \<Rightarrow> Ok (True, s\<lparr>us_connPool := cp\<rparr>, map UdpCloseBackendConn conns))
      | Some r \<Rightarrow> bind_outcome r (\<lambda>(s, effs).
          bind_outcome (serve_loop scfg ts s) (\<lambda>(returned, s, effs'). Ok (returned, s, effs @ effs'))))"

section \<open>Observers\<close>

text \<open>What the step of a session hands to \<open>conn.Write\<close>.\<close>

definition ses_hands :: "ses_event \<Rightarrow> Session \<Rightarrow> string list" where
  "ses_hands e s = (case e of
       OutBranch _ \<Rightarrow> (case ses_out s of
           [] \<Rightarrow> []
         | pkt # _ \<Rightarrow> if ses_worker s = Looping \<and> restart_timer (ses_timer s) \<noteq> None then [pkt] else [])
     | _ \<Rightarrow> [])"

definition udp_hands :: "udp_event \<Rightarrow> UdpServer \<Rightarrow> (nat \<times> string) list" where
  "udp_hands ev s = (case ev of UdpSession i e \<Rightarrow> map (Pair i) (ses_hands e (us_store s ! i)) | _ \<Rightarrow> [])"

text \<open>A run of the server from its first event, with what its sessions handed over.\<close>

fun udp_exec :: "ses_Config \<Rightarrow> udp_event list \<Rightarrow> UdpServer \<Rightarrow> (UdpServer \<times> (nat \<times> string) list) option" where
  "udp_exec scfg [] s = Some (s, [])"
| "udp_exec scfg (ev # evs) s =
     (case udp_step scfg ev s of
        Some (Ok (s', _)) \<Rightarrow> map_option (map_prod id ((@) (udp_hands ev s))) (udp_exec scfg evs s')
      | _ \<Rightarrow> None)"

definition of_session :: "nat \<Rightarrow> (nat \<times> string) list \<Rightarrow> string list" where
  "of_session i ps = map snd (filter (\<lambda>p. fst p = i) ps)"

text \<open>The datagrams that a client sent, as they are to reach a backend.\<close>

definition admitted :: "Access option \<Rightarrow> Addr \<Rightarrow> bool" where
  "admitted acc client \<longleftrightarrow> (case acc of None \<Rightarrow> True | Some a \<Rightarrow> Access_Allows a (addr_IP client))"

definition datagram :: "Server \<Rightarrow> Access option \<Rightarrow> string \<Rightarrow> udp_event \<Rightarrow> string list" where
  "datagram cfg acc key ev = (case ev of
       UdpPacket k client buf env \<Rightarrow>
         if k = key \<and> admitted acc client
         then (case udp_payload cfg env buf of Ok w \<Rightarrow> [take UDP_PACKET_SIZE w] | _ \<Rightarrow> []) else []
     | _ \<Rightarrow> [])"

definition datagrams :: "Server \<Rightarrow> Access option \<Rightarrow> string \<Rightarrow> udp_event list \<Rightarrow> string list" where
  "datagrams cfg acc key evs = concat (map (datagram cfg acc key) evs)"

section \<open>Lemmas\<close>

lemma of_session_append [simp]: "of_session i (ps @ qs) = of_session i ps @ of_session i qs"
  by (simp add: of_session_def)

lemma of_session_Nil [simp]: "of_session i [] = []"
  by (simp add: of_session_def)

lemma of_session_single [simp]: "of_session i [(j, w)] = (if j = i then [w] else [])"
  by (simp add: of_session_def)

lemma of_session_Pair [simp]: "of_session i (map (Pair j) ws) = (if j = i then ws else [])"
  by (simp add: of_session_def comp_def)

lemma of_session_fresh: "(\<forall>p\<in>set ps. fst p < n) \<Longrightarrow> of_session n ps = []"
  by (auto simp: of_session_def filter_empty_conv)

lemma datagrams_append [simp]: "datagrams cfg acc k (evs @ evs') = datagrams cfg acc k evs @ datagrams cfg acc k evs'"
  by (simp add: datagrams_def)

lemma datagrams_single [simp]: "datagrams cfg acc k [ev] = datagram cfg acc k ev"
  by (simp add: datagrams_def)

text \<open>
  The owner of a session is the client it was made for. What the sessions of a client were given is
  a subsequence of what the client sent; what a session has handed over is a prefix of what it was
  given, and while its worker runs the rest is its queue.
\<close>

definition delivery_inv ::
    "Server \<Rightarrow> Access option \<Rightarrow> udp_event list \<Rightarrow> (nat \<Rightarrow> string) \<Rightarrow> (nat \<times> string) list \<Rightarrow> (nat \<times> string) list \<Rightarrow> UdpServer \<Rightarrow> bool" where
  "delivery_inv cfg acc evs owner given handed s \<longleftrightarrow> us_cfg s = cfg \<and> us_access s = acc \<and>
     (\<forall>(k, i)\<in>set (us_sessions s). owner i = k \<and> i < length (us_store s)) \<and>
     (\<forall>p\<in>set given \<union> set handed. fst p < length (us_store s)) \<and>
     (\<forall>k. subseq (map snd (filter (\<lambda>p. owner (fst p) = k) given)) (datagrams cfg acc k evs)) \<and>
     (\<forall>i. prefix (of_session i handed) (of_session i given)) \<and>
     (\<forall>i<length (us_store s). ses_worker (us_store s ! i) = Looping \<longrightarrow>
        of_session i given = of_session i handed @ ses_out (us_store s ! i))"

text \<open>The queues of the sessions and who works on them.\<close>

definition same_queues :: "UdpServer \<Rightarrow> UdpServer \<Rightarrow> bool" where
  "same_queues s s' \<longleftrightarrow> us_cfg s' = us_cfg s \<and> us_access s' = us_access s \<and>
     length (us_store s) \<le> length (us_store s') \<and>
     (\<forall>i<length (us_store s). ses_worker (us_store s' ! i) = ses_worker (us_store s ! i) \<and>
        ses_out (us_store s' ! i) = ses_out (us_store s ! i))"

lemma same_queues_refl [simp]: "same_queues s s"
  by (simp add: same_queues_def)

lemma same_queues_trans: "same_queues s s' \<Longrightarrow> same_queues s' s'' \<Longrightarrow> same_queues s s''"
  by (simp add: same_queues_def)

lemma same_queues_close [simp]: "same_queues s (close_session i s)"
  by (cases "i < length (us_store s)")
    (auto simp: same_queues_def close_session_def Session_Close_def nth_list_update list_update_beyond)

lemma same_queues_fold_close: "same_queues s (fold (\<lambda>p s. close_session (snd p) s) ps s)"
proof (induction ps arbitrary: s)
  case (Cons p ps)
  show ?case using same_queues_trans [OF same_queues_close Cons.IH] by simp
qed simp

lemma delivery_frame:
  assumes "delivery_inv cfg acc evs owner given handed s" and "same_queues s s'"
    and "length (us_store s') = length (us_store s)" and "set (us_sessions s') \<subseteq> set (us_sessions s)"
  shows "delivery_inv cfg acc (evs @ evs') owner given handed s'"
  using assms unfolding delivery_inv_def same_queues_def by (auto intro: list_emb_prefix)

lemma delivery_given:
  assumes "delivery_inv cfg acc evs owner given handed s" and "i < length (us_store s)"
    and "owner i = key" and "datagram cfg acc key ev = [w]"
    and "ses_worker ses = ses_worker (us_store s ! i)" and "ses_out ses = ses_out (us_store s ! i) @ [w]"
  shows "delivery_inv cfg acc (evs @ [ev]) owner (given @ [(i, w)]) handed (s\<lparr>us_store := (us_store s)[i := ses]\<rparr>)"
proof -
  have "subseq (map snd (filter (\<lambda>p. owner (fst p) = k) (given @ [(i, w)]))) (datagrams cfg acc k (evs @ [ev]))" for k
  proof (cases "k = key")
    case True
    then show ?thesis using assms(1,3,4) by (auto simp: delivery_inv_def intro: list_emb_append_mono)
  next
    case False
    then show ?thesis using assms(1,3) by (auto simp: delivery_inv_def intro: list_emb_prefix)
  qed
  then show ?thesis using assms(1,2,5,6)
    unfolding delivery_inv_def by (auto simp: nth_list_update)
qed

lemma delivery_create:
  assumes "delivery_inv cfg acc evs owner given handed s" and "same_queues s s'"
    and "length (us_store s') = Suc (length (us_store s))"
    and "set (us_sessions s') \<subseteq> insert (key, length (us_store s)) (set (us_sessions s))"
    and "ses_out (us_store s' ! length (us_store s)) = []"
  shows "delivery_inv cfg acc evs (owner(length (us_store s) := key)) given handed s'"
proof -
  let ?n = "length (us_store s)"
  have bound: "\<forall>p\<in>set given. fst p < ?n" "\<forall>p\<in>set handed. fst p < ?n" "\<forall>(k, i)\<in>set (us_sessions s). owner i = k \<and> i < ?n"
    using assms(1) by (auto simp: delivery_inv_def)
  have same: "filter (\<lambda>p. (owner(?n := key)) (fst p) = k) given = filter (\<lambda>p. owner (fst p) = k) given" for k
    using bound(1) by (intro filter_cong) auto
  have fresh: "of_session ?n given = []" "of_session ?n handed = []"
    using of_session_fresh bound(1,2) by blast+
  have sessions: "\<forall>(k, i)\<in>set (us_sessions s'). (owner(?n := key)) i = k \<and> i < Suc ?n"
    using assms(4) bound(3) by fastforce
  show ?thesis unfolding delivery_inv_def same assms(3)
    using assms(1,2,5) fresh sessions bound
    unfolding delivery_inv_def same_queues_def by (auto simp: less_Suc_eq)
qed

lemma create_session_queues:
  assumes "create_session scfg key client env s = (r, s', effs)"
  shows "same_queues s s' \<and> (case r of
      Ok i \<Rightarrow> i = length (us_store s) \<and> length (us_store s') = Suc i \<and> ses_out (us_store s' ! i) = [] \<and>
        set (us_sessions s') \<subseteq> insert (key, i) (set (us_sessions s))
    | _ \<Rightarrow> length (us_store s') = length (us_store s) \<and> us_sessions s' = us_sessions s)"
  using assms
  by (auto simp: create_session_def same_queues_def NewSession_def ListenResponses_def clients_put_def Let_def
      nth_append split: prod.splits outcome.splits)

lemma getOrCreateSession_delivery:
  assumes "getOrCreateSession scfg key client env s = (r, s', effs)"
    and "delivery_inv cfg acc evs owner given handed s"
  shows "\<exists>owner. delivery_inv cfg acc evs owner given handed s' \<and> us_cfg s' = us_cfg s \<and>
    (\<forall>i. r = Ok i \<longrightarrow> owner i = key \<and> i < length (us_store s'))"
proof (cases "\<exists>i. map_of (us_sessions s) key = Some i \<and> \<not> session_done s i")
  case True
  then obtain i where i: "map_of (us_sessions s) key = Some i" "\<not> session_done s i" by blast
  then have "owner i = key \<and> i < length (us_store s)"
    using assms(2) map_of_SomeD [OF i(1)] by (auto simp: delivery_inv_def)
  then show ?thesis using assms i by (auto simp: getOrCreateSession_def)
next
  case False
  obtain s0 where s0: "create_session scfg key client env s0 = (r, s', effs)" "same_queues s s0"
    "length (us_store s0) = length (us_store s)" "us_sessions s0 = us_sessions s"
    using assms(1) False by (auto simp: getOrCreateSession_def split: option.splits if_splits)
  then have inv: "delivery_inv cfg acc evs owner given handed s0"
    using delivery_frame [OF assms(2), of s0 "[]"] by simp
  note q = create_session_queues [OF s0(1)]
  have c: "us_cfg s' = us_cfg s" using q s0(2) by (simp add: same_queues_def)
  show ?thesis
  proof (cases r)
    case (Ok i)
    then have q': "same_queues s0 s'" "length (us_store s') = Suc (length (us_store s0))" "i = length (us_store s0)"
      "set (us_sessions s') \<subseteq> insert (key, length (us_store s0)) (set (us_sessions s0))"
      "ses_out (us_store s' ! length (us_store s0)) = []"
      using q by auto
    from delivery_create [OF inv q'(1,2,4,5)] show ?thesis using Ok c q'(2,3)
      by (intro exI [of _ "owner(length (us_store s0) := key)"]) simp
  qed (use q c delivery_frame [OF inv, of s' "[]"] in auto)
qed

lemma packet_delivery:
  assumes "serve_packet scfg key client buf env s = Ok (s', effs)"
    and "delivery_inv cfg acc evs owner given handed s"
  shows "\<exists>owner given. delivery_inv cfg acc (evs @ [UdpPacket key client buf env]) owner given handed s'"
proof (cases "admitted acc client \<and> ses_MaxRequests scfg \<noteq> 1 \<and> (\<exists>w. udp_payload cfg env buf = Ok w)")
  case False
  have acc: "us_access s = acc" "us_cfg s = cfg" using assms(2) by (simp_all add: delivery_inv_def)
  have "same_queues s s' \<and> length (us_store s') = length (us_store s) \<and> us_sessions s' = us_sessions s"
  proof (cases "admitted acc client \<and> ses_MaxRequests scfg = 1")
    case True
    then have f: "fireAndForget client buf env s = Ok (s', effs)"
      using assms(1) acc by (auto simp: serve_packet_def admitted_def split: option.splits)
    then have "us_cfg s' = us_cfg s \<and> us_access s' = us_access s"
      by (auto simp: fireAndForget_def Let_def split: outcome.splits prod.splits option.splits if_splits)
    then show ?thesis using fireAndForget_frame [OF f] by (simp add: same_queues_def)
  next
    case no: False
    have "s' = s"
      using assms(1) False no acc
      by (auto simp: serve_packet_def udp_proxy_def admitted_def split: option.splits if_splits outcome.splits)
    then show ?thesis by simp
  qed
  then have "delivery_inv cfg acc (evs @ [UdpPacket key client buf env]) owner given handed s'"
    by (intro delivery_frame [OF assms(2)]) auto
  then show ?thesis by blast
next
  case True
  then obtain w where w: "udp_payload cfg env buf = Ok w" by blast
  have acc: "us_access s = acc" "us_cfg s = cfg" using assms(2) by (simp_all add: delivery_inv_def)
  have p: "udp_proxy scfg key client buf env s = Ok (s', effs)"
    using assms(1) True acc by (auto simp: serve_packet_def admitted_def split: option.splits if_splits)
  obtain r s1 e1 where g: "getOrCreateSession scfg key client env s = (r, s1, e1)"
    by (cases "getOrCreateSession scfg key client env s") auto
  obtain owner1 where inv: "delivery_inv cfg acc evs owner1 given handed s1"
    and own: "\<And>i. r = Ok i \<Longrightarrow> owner1 i = key \<and> i < length (us_store s1)"
    using getOrCreateSession_delivery [OF g assms(2)] by blast
  let ?ev = "UdpPacket key client buf env"
  have d: "datagram cfg acc key ?ev = [take UDP_PACKET_SIZE w]" using True w by (simp add: datagram_def)
  show ?thesis
  proof (cases r)
    case (Ok i)
    let ?ses = "fst (Session_Write w (us_store s1 ! i))"
    have s': "s' = s1\<lparr>us_store := (us_store s1)[i := ?ses]\<rparr>"
      using p g Ok w acc by (simp add: udp_proxy_def Let_def split: prod.splits)
    show ?thesis
    proof (cases "?ses = us_store s1 ! i")
      case True
      then show ?thesis using delivery_frame [OF inv, of s1 "[?ev]"] s' by auto
    next
      case False
      then have "ses_worker ?ses = ses_worker (us_store s1 ! i)"
        "ses_out ?ses = ses_out (us_store s1 ! i) @ [take UDP_PACKET_SIZE w]"
        by (auto simp: Session_Write_def split: if_splits)
      from delivery_given [OF inv _ _ d this] own [OF Ok] s' show ?thesis by blast
    qed
  next
    case (Err e)
    then have "s' = s1" using p g w acc by (auto simp: udp_proxy_def)
    then show ?thesis using delivery_frame [OF inv, of s1 "[?ev]"] by auto
  qed (use p g w acc in \<open>auto simp: udp_proxy_def\<close>)
qed

lemma ses_step_queue:
  assumes "ses_step e ses = Some (ses', ops)" and "\<not> session_call e"
  shows "(ses_worker ses' = Looping \<longrightarrow> ses_worker ses = Looping \<and> ses_out ses = ses_hands e ses @ ses_out ses') \<and>
    (ses_hands e ses \<noteq> [] \<longrightarrow> ses_worker ses = Looping \<and> prefix (ses_hands e ses) (ses_out ses))"
  using assms
  by (cases e) (auto simp: ses_hands_def session_send_def session_stop_def session_response_def Session_Close_def Let_def
      split: list.splits if_splits option.splits prod.splits)

lemma session_delivery:
  assumes "ses_step e (us_store s ! i) = Some (ses, ops)" and "\<not> session_call e" and "i < length (us_store s)"
    and "delivery_inv cfg acc evs owner given handed s"
  shows "delivery_inv cfg acc (evs @ [UdpSession i e]) owner given
    (handed @ map (Pair i) (ses_hands e (us_store s ! i))) (s\<lparr>us_store := (us_store s)[i := ses]\<rparr>)"
proof -
  let ?h = "ses_hands e (us_store s ! i)"
  note q = ses_step_queue [OF assms(1,2)]
  have g: "ses_worker (us_store s ! i) = Looping \<longrightarrow> of_session i given = of_session i handed @ ses_out (us_store s ! i)"
    "prefix (of_session i handed) (of_session i given)"
    using assms(3,4) by (auto simp: delivery_inv_def)
  have "prefix (of_session i handed @ ?h) (of_session i given)"
    using g q by (cases "?h = []") auto
  moreover have "ses_worker ses = Looping \<longrightarrow> of_session i given = of_session i handed @ ?h @ ses_out ses"
    using g q by auto
  ultimately show ?thesis using assms(3,4) unfolding delivery_inv_def
    by (auto simp: nth_list_update datagram_def)
qed

lemma step_delivery:
  assumes "udp_step scfg ev s = Some (Ok (s', effs))" and "delivery_inv cfg acc evs owner given handed s"
  shows "\<exists>owner given. delivery_inv cfg acc (evs @ [ev]) owner given (handed @ udp_hands ev s) s'"
proof (cases ev)
  case (UdpPacket key client buf env)
  then show ?thesis using assms packet_delivery by (auto simp: udp_hands_def split: if_splits)
next
  case UdpCleanup
  then have "same_queues s s'" "length (us_store s') = length (us_store s)" "set (us_sessions s') \<subseteq> set (us_sessions s)"
    using assms(1) by (auto simp: udp_cleanup_def same_queues_def Let_def split: if_splits)
  from delivery_frame [OF assms(2) this] show ?thesis using UdpCleanup by (auto simp: udp_hands_def)
next
  case (UdpSession i e)
  then show ?thesis using assms session_delivery by (fastforce simp: udp_hands_def split: if_splits)
next
  case UdpStop
  let ?s = "s\<lparr>us_running := False, us_sessions := [], us_connPool := snd (pool_close (us_connPool s))\<rparr>"
  have s': "s' = fold (\<lambda>p s. close_session (snd p) s) (us_sessions s) ?s"
    using UdpStop assms(1) by (auto simp: udp_stop_def split: if_splits prod.splits)
  have "same_queues s ?s" by (simp add: same_queues_def)
  then have "same_queues s s'" using same_queues_trans same_queues_fold_close unfolding s' by blast
  from delivery_frame [OF assms(2) this] show ?thesis using UdpStop by (auto simp: udp_hands_def s' fold_close_session)
qed

lemma exec_delivery:
  "udp_exec scfg evs' s = Some (s', handed') \<Longrightarrow> delivery_inv cfg acc evs owner given handed s \<Longrightarrow>
   \<exists>owner given. delivery_inv cfg acc (evs @ evs') owner given (handed @ handed') s'"
proof (induction evs' arbitrary: s evs owner given handed handed')
  case (Cons ev evs')
  then obtain s1 effs h where e: "udp_step scfg ev s = Some (Ok (s1, effs))" "udp_exec scfg evs' s1 = Some (s', h)"
    "handed' = udp_hands ev s @ h"
    by (auto split: option.splits outcome.splits)
  from step_delivery [OF e(1) Cons.prems(2)] obtain owner given where
    "delivery_inv cfg acc (evs @ [ev]) owner given (handed @ udp_hands ev s) s1" by blast
  from Cons.IH [OF e(2) this] e(3) show ?case by simp
qed auto

lemma delivery_init: "UdpServer_init cfg acc sp = Ok s \<Longrightarrow> delivery_inv cfg acc [] owner [] [] s"
  by (auto simp: UdpServer_init_def delivery_inv_def bind_outcome_Ok_iff)

text \<open>A run from the first event is a run of the step relation.\<close>

lemma udp_run_front:
  "udp_exec scfg evs s = Some (s', handed) \<Longrightarrow> udp_run scfg s0 evs0 s \<Longrightarrow> udp_run scfg s0 (evs0 @ evs) s'"
proof (induction evs arbitrary: s evs0 handed)
  case (Cons ev evs)
  then obtain s1 effs h where e: "udp_step scfg ev s = Some (Ok (s1, effs))" "udp_exec scfg evs s1 = Some (s', h)"
    by (auto split: option.splits outcome.splits)
  from Cons.IH [OF e(2) udp_next [OF Cons.prems(2) e(1)]] show ?case by simp
qed simp

text \<open>The packet loop: it returns at the first read that fails after the stop, and not before.\<close>

lemma serve_loop_returns:
  "serve_loop scfg ts s = Ok (returned, s', effs) \<Longrightarrow> returned \<longleftrightarrow> (True, ReadError) \<in> set ts"
proof (induction ts arbitrary: s returned s' effs)
  case (Cons t ts)
  then show ?case
    by (cases "(scfg, t, s)" rule: serve_turn.cases)
      (auto simp: bind_outcome_Ok_iff split: if_splits prod.splits)
qed simp

end
