(* ===== verification/Udp_Properties.thy ===== *)
theory Udp_Properties
  imports Udp_Delivery Tcp_Properties
begin

text \<open>
  The properties of the UDP server and of its sessions.
\<close>

definition sample_ses_config :: ses_Config where
  "sample_ses_config = \<lparr>ses_MaxRequests = 2, ses_MaxResponses = 1, ses_ClientIdleTimeout = 1000,
     ses_BackendIdleTimeout = 0, ses_Transparent = False\<rparr>"

definition sample_session :: Session where
  "sample_session = ListenResponses (fst (NewSession host_1 sample_ses_config))"

section \<open>Sessions\<close>

text \<open>C12: A session registers its backend when it is created, releases it exactly once, when its
  worker stops, and sends nothing but traffic counts besides, whatever order the packets, the
  responses, the timer, the closes and the stop come in.\<close>

theorem session_balanced:
  assumes "NewSession b cfg = (s, inc)"
    and "ses_run es (if listen then ListenResponses s else s) = Some (s', ops)"
  shows "\<exists>mid late. list_all traffic_op mid \<and> list_all traffic_op late \<and>
     (inc @ ops = Scheduler_IncrementConnection b # mid \<and> \<not> IsDone s' \<or>
      inc @ ops = Scheduler_IncrementConnection b # mid @ Scheduler_DecrementConnection b # late \<and> IsDone s')"
  by (rule session_ops [OF assms])

theorem session_balanced_witness:
  "\<exists>s' ops. ses_run [CallClose, StopBranch] sample_session = Some (s', ops) \<and> IsDone s' \<and>
     (\<exists>mid late. list_all traffic_op mid \<and> list_all traffic_op late \<and>
        Scheduler_IncrementConnection host_1 # ops =
          Scheduler_IncrementConnection host_1 # mid @ Scheduler_DecrementConnection host_1 # late)"
proof -
  obtain s where n: "NewSession host_1 sample_ses_config = (s, [Scheduler_IncrementConnection host_1])"
    by (simp add: NewSession_def)
  obtain s' ops where r: "ses_run [CallClose, StopBranch] (ListenResponses s) = Some (s', ops)" "IsDone s'"
    using n by (auto simp: NewSession_def ListenResponses_def Session_Close_def session_stop_def IsDone_def)
  from session_balanced [OF n, where listen = True, unfolded if_True, OF r(1)] r(2)
  obtain mid late where "list_all traffic_op mid" "list_all traffic_op late"
    "[Scheduler_IncrementConnection host_1] @ ops =
      Scheduler_IncrementConnection host_1 # mid @ Scheduler_DecrementConnection host_1 # late" by blast
  moreover have "sample_session = ListenResponses s" using n by (simp add: sample_session_def)
  ultimately show ?thesis using r unfolding append_Cons append_Nil by metis
qed

text \<open>With a positive \<open>max_responses\<close> a session forwards at most that many responses to its
  client.\<close>

theorem max_responses_enforced:
  assumes "NewSession b cfg = (s, inc)" and "0 < ses_MaxResponses cfg"
    and "ses_run es (ListenResponses s) = Some (s', ops)"
  shows "length (filter forwarded es) \<le> unat (ses_MaxResponses cfg)"
  by (rule session_forwards [OF assms])

theorem max_responses_enforced_witness:
  "ses_run [Response (Some (5, Some 5)), Response (Some (5, Some 5))] sample_session = None \<and>
   ses_run [Response (Some (5, Some 5))] sample_session \<noteq> None \<and>
   length (filter forwarded [Response (Some (5, Some 5))]) \<le> unat (1 :: uint64)"
proof -
  obtain s inc where n: "NewSession host_1 sample_ses_config = (s, inc)" by fastforce
  then have s: "sample_session = ListenResponses s" by (simp add: sample_session_def)
  have r: "ses_run [Response (Some (5, Some 5))] sample_session \<noteq> None"
    "ses_run [Response (Some (5, Some 5)), Response (Some (5, Some 5))] sample_session = None"
    by (simp_all add: sample_session_def NewSession_def ListenResponses_def sample_ses_config_def
        session_response_def Session_Close_def)
  obtain s' ops where "ses_run [Response (Some (5, Some 5))] (ListenResponses s) = Some (s', ops)"
    using r(1) unfolding s by (cases "ses_run [Response (Some (5, Some 5))] (ListenResponses s)") auto
  from max_responses_enforced [OF n _ this]
  have "length (filter forwarded [Response (Some (5, Some 5))]) \<le> unat (1 :: uint64)"
    by (simp add: sample_ses_config_def)
  with r show ?thesis by blast
qed

text \<open>\<open>max_requests\<close> is not enforced: a session that is configured for two requests writes
  three packets to its backend, counts them all, and is not closed.\<close>

theorem max_requests_not_enforced:
  "\<exists>s ops. ses_run [CallWrite ''a'', CallWrite ''b'', CallWrite ''c'', OutBranch (Some 1),
       OutBranch (Some 1), OutBranch (Some 1)] sample_session = Some (s, ops) \<and>
     ops = [Scheduler_IncrementTx host_1 1, Scheduler_IncrementTx host_1 1, Scheduler_IncrementTx host_1 1] \<and> \<not> ses_stopC s \<and> \<not> IsDone s \<and>
     ses_MaxRequests (ses_cfg s) = 2 \<and> ses_sent s = 3"
  by (simp add: sample_session_def NewSession_def ListenResponses_def sample_ses_config_def
      Session_Write_def MAX_PACKETS_QUEUE_def UDP_PACKET_SIZE_def session_send_def IsDone_def)

text \<open>C38: When the idle timer fires and the worker takes a queued packet before the stop request,
  it waits for a tick that never comes: the session is never done, its registration is never
  released, and every later packet of the client is accepted and not sent.\<close>

theorem idle_timeout_blocks_session:
  assumes "NewSession b cfg = (s, inc)" and "0 < ses_ClientIdleTimeout cfg"
    and "ses_run [CallWrite pkt, TimerExpires, TimerBranch, OutBranch w] s = Some (s1, ops1)"
    and "ses_run es s1 = Some (s', ops)"
  shows "\<not> IsDone s' \<and> ses_stopC s1 \<and> list_all traffic_op (ops1 @ ops)"
  by (rule session_blocks [OF assms])

theorem idle_timeout_blocks_session_witness:
  "\<exists>s1 s' ops. ses_run [CallWrite ''a'', TimerExpires, TimerBranch, OutBranch (Some 1)]
       (fst (NewSession host_1 sample_ses_config)) = Some (s1, []) \<and>
     ses_run [CallClose, CallWrite ''b''] s1 = Some (s', ops) \<and> \<not> IsDone s'"
proof -
  let ?s = "fst (NewSession host_1 sample_ses_config)"
  obtain s1 where r1: "ses_run [CallWrite ''a'', TimerExpires, TimerBranch, OutBranch (Some 1)] ?s = Some (s1, [])"
    by (simp add: NewSession_def sample_ses_config_def Session_Write_def MAX_PACKETS_QUEUE_def UDP_PACKET_SIZE_def
        Session_Close_def session_send_def)
  obtain s' ops where r2: "ses_run [CallClose, CallWrite ''b''] s1 = Some (s', ops)"
    by simp
  have "\<not> IsDone s'"
    using idle_timeout_blocks_session [OF _ _ r1 r2, of host_1 sample_ses_config]
    by (simp add: NewSession_def sample_ses_config_def)
  then show ?thesis using r1 r2 by blast
qed

section \<open>The server\<close>

text \<open>C13: No session is lost: in every run of the server each client address has at most one
  entry in the map of sessions, and each session that is not done yet is in the map, so the
  cleanup and the stop reach it.\<close>

theorem no_session_lost:
  assumes "UdpServer_init cfg acc sp = Ok s0" and "udp_run scfg s0 evs s" and "us_running s"
  shows "distinct (map fst (us_sessions s)) \<and>
    (\<forall>i<length (us_store s). \<not> session_done s i \<longrightarrow> i \<in> snd ` set (us_sessions s)) \<and>
    (\<forall>i\<in>snd ` set (us_sessions s). i < length (us_store s))"
  by (rule udp_run_sessions [OF assms])

definition sample_udp_server :: "bool \<Rightarrow> uint64 \<Rightarrow> Server" where
  "sample_udp_server transparent requests = sample_server\<lparr>srv_Protocol := ''udp'',
     srv_Udp := Some \<lparr>udp_MaxRequests = requests, udp_MaxResponses = 1, udp_Transparent = transparent\<rparr>\<rparr>"

definition sample_udp_env :: udp_env where
  "sample_udp_env = \<lparr>ue_elected = Ok host_1, ue_resolve_ok = True, ue_dial_ok = True,
     ue_prepend = (\<lambda>_. None), ue_write = (\<lambda>b. Some (length b))\<rparr>"

definition client_addr :: "uint8 \<Rightarrow> Addr" where
  "client_addr n = \<lparr>addr_IP = [192, 168, 0, n], addr_Port = 4000\<rparr>"

definition sample_packet :: udp_event where
  "sample_packet = UdpPacket ''192.168.0.1:4000'' (client_addr 1) ''hi'' sample_udp_env"

theorem no_session_lost_witness:
  "\<exists>s0 s. UdpServer_init (sample_udp_server False 2) None None = Ok s0 \<and>
     udp_run sample_ses_config s0 [sample_packet] s \<and>
     us_sessions s = [(''192.168.0.1:4000'', 0)] \<and> length (us_store s) = 1 \<and> distinct (map fst (us_sessions s))"
proof -
  define s0 where "s0 = \<lparr>us_cfg = sample_udp_server False 2, us_access = None, us_sourcePool = None,
     us_connPool = None, us_sessions = [], us_store = [], us_running = True\<rparr>"
  have init: "UdpServer_init (sample_udp_server False 2) None None = Ok s0"
    by (simp add: UdpServer_init_def session_config_def sample_udp_server_def sample_server_def
        sample_options_def s0_def)
  have "\<exists>s effs. udp_step sample_ses_config sample_packet s0 = Some (Ok (s, effs)) \<and>
    us_sessions s = [(''192.168.0.1:4000'', 0)] \<and> length (us_store s) = 1 \<and> us_running s"
    by (simp add: s0_def sample_packet_def sample_udp_server_def sample_server_def sample_options_def
        serve_packet_def sample_ses_config_def udp_proxy_def udp_payload_def getOrCreateSession_def
        create_session_def electAndConnect_def sample_udp_env_def pool_get_def pool_put_def
        SourcePool_Next_def NewSession_def clients_put_def Session_Write_def ListenResponses_def MAX_PACKETS_QUEUE_def UDP_PACKET_SIZE_def Let_def)
  then obtain s effs where st: "udp_step sample_ses_config sample_packet s0 = Some (Ok (s, effs))"
    "us_sessions s = [(''192.168.0.1:4000'', 0)]" "length (us_store s) = 1" "us_running s"
    by blast
  have run: "udp_run sample_ses_config s0 [sample_packet] s"
    using udp_run.udp_next [OF udp_run.udp_start st(1)] by simp
  from no_session_lost [OF init run st(4)] run init st(2,3) show ?thesis by blast
qed


definition packet_of :: "uint8 \<Rightarrow> string \<Rightarrow> udp_event" where
  "packet_of n buf = UdpPacket (''192.168.0.'' @ [char_of (48 + unat n)]) (client_addr n) buf sample_udp_env"

definition sample_datagrams :: "udp_event list" where
  "sample_datagrams = [packet_of 1 ''a'', packet_of 2 ''b'', UdpSession 1 (OutBranch (Some 1)), packet_of 1 ''c'',
     UdpSession 0 (OutBranch (Some 1)), UdpSession 0 (OutBranch (Some 1)), packet_of 2 ''d'']"


text \<open>In transparent single-request mode the connection that was opened with the first
  client's address is reused for the next client: the second client's packet reaches the backend
  with the first client's address.\<close>

theorem transparent_pool_mixes_clients:
  "\<exists>s0 s1 s2 e1 conn. UdpServer_init (sample_udp_server True 1) None None = Ok s0 \<and>
     fireAndForget (client_addr 1) ''one'' sample_udp_env s0 = Ok (s1, e1) \<and>
     fireAndForget (client_addr 2) ''two'' sample_udp_env s1 =
       Ok (s2, [UdpSent conn ''two'', UdpOp (Scheduler_IncrementTx host_1 3)]) \<and>
     uc_local conn = FromClient (client_addr 1)"
  by (simp add: UdpServer_init_def session_config_def sample_udp_server_def sample_server_def sample_options_def
      fireAndForget_def udp_payload_def electAndConnect_def sample_udp_env_def pool_get_def pool_put_def
      clients_put_def Let_def SourcePool_Next_def)

end
