(* ===== verification/Backend_Parser.thy ===== *)
theory Backend_Parser
  imports Core Go_Std
begin

text \<open>
  Parsing a line that describes a backend (src/src/utils/parsers/backend.go). The default pattern
  is matched by \<open>default_match\<close>: it is anchored at both ends, its host and port are the first word
  split at its last colon, and each optional group starts with one white space and its own key, so
  that a line matches in at most one way. A pattern of the user's own is a parameter: \<open>None\<close> when
  it does not compile, otherwise its matcher with the named groups.
\<close>

type_synonym matcher = "string \<Rightarrow> (string \<times> string) list option"

definition re_space :: "char \<Rightarrow> bool" where
  "re_space c \<longleftrightarrow> (let n = (of_char c :: nat) in n = 9 \<or> n = 10 \<or> n = 12 \<or> n = 13 \<or> n = 32)"

text \<open>\<open>(\skey=(\d+))?\<close>: the captured digits, empty when the group is skipped, and the rest.\<close>

definition number_group :: "string \<Rightarrow> string \<Rightarrow> string \<times> string" where
  "number_group key s = (case s of [] \<Rightarrow> ([], s)
     | c # cs \<Rightarrow>
         if re_space c \<and> has_prefix cs key \<and> takeWhile is_digit (drop (length key) cs) \<noteq> []
         then (takeWhile is_digit (drop (length key) cs), dropWhile is_digit (drop (length key) cs))
         else ([], s))"

definition word_group :: "string \<Rightarrow> string \<Rightarrow> string \<times> string" where
  "word_group key s = (case s of [] \<Rightarrow> ([], s)
     | c # cs \<Rightarrow>
         if re_space c \<and> has_prefix cs key \<and> takeWhile (\<lambda>c. \<not> re_space c) (drop (length key) cs) \<noteq> []
         then (takeWhile (\<lambda>c. \<not> re_space c) (drop (length key) cs),
               dropWhile (\<lambda>c. \<not> re_space c) (drop (length key) cs))
         else ([], s))"

definition default_match :: matcher where
  "default_match line =
     (case split_last_colon (takeWhile (\<lambda>c. \<not> re_space c) line) of
        None \<Rightarrow> None
      | Some (host, port) \<Rightarrow>
          if host = [] \<or> port = [] \<or> \<not> list_all is_digit port then None
          else
            let s = dropWhile (\<lambda>c. \<not> re_space c) line;
                (weight, s) = number_group ''weight='' s;
                (priority, s) = number_group ''priority='' s;
                (max_connections, s) = number_group ''max_connections='' s;
                (sni, s) = word_group ''sni='' s
            in if s \<noteq> [] then None
               else Some [(''host'', host), (''port'', port), (''weight'', weight), (''priority'', priority),
                          (''max_connections'', max_connections), (''sni'', sni)])"

definition DEFAULT_BACKEND_PATTERN :: string where
  "DEFAULT_BACKEND_PATTERN =
     (let bs = [CHR 0x5C]
      in ''^(?P<host>'' @ bs @ ''S+):(?P<port>'' @ bs @ ''d+)('' @ bs @ ''sweight=(?P<weight>'' @ bs @ ''d+))?('' @
         bs @ ''spriority=(?P<priority>'' @ bs @ ''d+))?('' @ bs @ ''smax_connections=(?P<max_connections>'' @
         bs @ ''d+))?('' @ bs @ ''ssni=(?P<sni>[^'' @ bs @ ''s]+))?$'')"

text \<open>A lookup in a Go map of strings: a missing key reads as the empty string.\<close>

definition group_of :: "(string \<times> string) list \<Rightarrow> string \<Rightarrow> string" where
  "group_of m k = (case map_of m k of None \<Rightarrow> [] | Some v \<Rightarrow> v)"

definition number_or :: "string \<Rightarrow> goint \<Rightarrow> goint" where
  "number_or s d = (case Atoi s of None \<Rightarrow> d | Some n \<Rightarrow> n)"

definition live_stats :: BackendStats where
  "live_stats = zero_stats\<lparr>Live := True\<rparr>"

definition backend_of :: "(string \<times> string) list \<Rightarrow> Backend" where
  "backend_of m = \<lparr>Target = \<lparr>Host = group_of m ''host'', Port = group_of m ''port''\<rparr>,
     Priority = number_or (group_of m ''priority'') 1, Weight = number_or (group_of m ''weight'') 1,
     MaxConnections = number_or (group_of m ''max_connections'') 0, Sni = group_of m ''sni'',
     Stats = live_stats\<rparr>"

definition ParseBackend :: "matcher option \<Rightarrow> string \<Rightarrow> Backend outcome" where
  "ParseBackend pattern line =
     (case pattern of None \<Rightarrow> Panic
      | Some re \<Rightarrow>
          let line = TrimSpace line
          in case re line of
              None \<Rightarrow> Err (''Cant parse '' @ line)
            | Some m \<Rightarrow> Ok (backend_of m))"

definition ParseBackendDefault :: "string \<Rightarrow> Backend outcome" where
  "ParseBackendDefault line = ParseBackend (Some default_match) line"

section \<open>Round trip\<close>

text \<open>The line that describes a backend, as an operator would write it.\<close>

definition show_backend :: "Backend \<Rightarrow> string" where
  "show_backend b = Host (Target b) @ '':'' @ Port (Target b) @ '' weight='' @ Itoa (Weight b) @
     '' priority='' @ Itoa (Priority b) @ '' max_connections='' @ Itoa (MaxConnections b) @
     (if Sni b = [] then [] else '' sni='' @ Sni b)"

lemma digits_val_append: "digits_val a (xs @ ys) = digits_val (digits_val a xs) ys"
  by (induction a xs rule: digits_val.induct) auto

lemma digit_val_char [simp]: "k < 10 \<Longrightarrow> digit_val (char_of (48 + k)) = k"
  by (simp add: digit_val_def)

lemma digits_val_of [simp]: "digits_val 0 (digits_of n) = n"
proof (induction n rule: digits_of.induct)
  case (1 n)
  then show ?case by (cases "n < 10") (simp_all add: digits_of.simps [of n] digits_val_append)
qed

lemma digits_of_nonempty [simp]: "digits_of n \<noteq> []"
  by (simp add: digits_of.simps [of n])

lemma digits_of_all [simp]: "list_all is_digit (digits_of n)"
  by (auto simp: list_all_iff dest: digits_of_digit)

lemma Itoa_nonneg: "0 \<le> i \<Longrightarrow> Itoa i = digits_of (nat i)"
  by (simp add: Itoa_def)

lemma Atoi_Itoa:
  assumes "0 \<le> i" and "int64_range i"
  shows "Atoi (Itoa i) = Some i"
proof -
  have d: "c \<noteq> CHR ''-'' \<and> c \<noteq> CHR ''+''" if "c \<in> set (digits_of (nat i))" for c
    using digits_of_digit [OF that] by (auto simp: is_digit_def Let_def)
  obtain c cs where c: "digits_of (nat i) = c # cs" by (cases "digits_of (nat i)") auto
  then have "c \<noteq> CHR ''-''" "c \<noteq> CHR ''+''" using d by auto
  then have "Atoi (digits_of (nat i)) = (let v = int (digits_val 0 (c # cs)) in if int64_range v then Some v else None)"
    using digits_of_all [of "nat i"] by (simp add: Atoi_def c)
  then show ?thesis using assms c digits_val_of [of "nat i"] by (simp add: Itoa_nonneg del: digits_val_of)
qed

lemma digit_not_space: "is_digit c \<Longrightarrow> \<not> re_space c \<and> \<not> is_space c \<and> c \<noteq> CHR '':''"
  by (auto simp: is_digit_def re_space_def is_space_def Let_def)

lemma span_append:
  assumes "\<forall>c\<in>set xs. P c" and "ys = [] \<or> \<not> P (hd ys)"
  shows "takeWhile P (xs @ ys) = xs \<and> dropWhile P (xs @ ys) = ys"
  using assms by (cases ys) (auto simp: takeWhile_append dropWhile_append takeWhile_eq_all_conv)

lemma number_group_some:
  assumes "list_all is_digit ds" and "ds \<noteq> []" and "rest = [] \<or> \<not> is_digit (hd rest)"
  shows "number_group key (CHR '' '' # key @ ds @ rest) = (ds, rest)"
proof -
  have t: "takeWhile is_digit (ds @ rest) = ds" "dropWhile is_digit (ds @ rest) = rest"
    using assms by (cases rest; auto simp: list_all_iff takeWhile_append dropWhile_append)+
  have "re_space CHR '' ''" by (simp add: re_space_def Let_def)
  then show ?thesis using t assms(2) by (simp add: number_group_def has_prefix_def)
qed

lemma word_group_some:
  assumes "\<forall>c\<in>set w. \<not> re_space c" and "w \<noteq> []"
  shows "word_group key (CHR '' '' # key @ w) = (w, [])"
proof -
  have "takeWhile (\<lambda>c. \<not> re_space c) w = w \<and> dropWhile (\<lambda>c. \<not> re_space c) w = []"
    using span_append [OF assms(1), of "[]"] by simp
  moreover have "re_space CHR '' ''" by (simp add: re_space_def Let_def)
  ultimately show ?thesis using assms(2) unfolding word_group_def has_prefix_def
    by (simp del: takeWhile_eq_all_conv dropWhile_eq_Nil_conv takeWhile_eq_Nil_iff)
qed

lemma TrimSpace_same:
  assumes "s \<noteq> []" and "\<not> is_space (hd s)" and "\<not> is_space (last s)"
  shows "TrimSpace s = s"
proof -
  have "dropWhile is_space s = s" using assms(1,2) by (cases s) auto
  moreover have "dropWhile is_space (rev s) = rev s" using assms(1,3) by (cases s rule: rev_cases) auto
  ultimately show ?thesis by (simp add: TrimSpace_def)
qed

lemma char_space [simp]: "re_space CHR '' ''" "\<not> is_digit CHR '' ''"
  by (simp_all add: re_space_def is_digit_def Let_def)

definition printable :: "Backend \<Rightarrow> bool" where
  "printable b \<longleftrightarrow> Host (Target b) \<noteq> [] \<and> Port (Target b) \<noteq> [] \<and> list_all is_digit (Port (Target b)) \<and>
     (\<forall>c\<in>set (Host (Target b)) \<union> set (Sni b). \<not> re_space c \<and> \<not> is_space c) \<and>
     (\<forall>n\<in>{Weight b, Priority b, MaxConnections b}. 0 \<le> n \<and> int64_range n) \<and> Stats b = live_stats"

lemma default_match_show:
  assumes "printable b"
  shows "default_match (show_backend b) = Some [(''host'', Host (Target b)), (''port'', Port (Target b)),
    (''weight'', Itoa (Weight b)), (''priority'', Itoa (Priority b)),
    (''max_connections'', Itoa (MaxConnections b)), (''sni'', Sni b)]"
proof -
  let ?h = "Host (Target b)" and ?p = "Port (Target b)" and ?ns = "\<lambda>c. \<not> re_space c"
  have digits: "list_all is_digit (Itoa n) \<and> Itoa n \<noteq> []" if "n \<in> {Weight b, Priority b, MaxConnections b}" for n
    using assms that by (auto simp: printable_def Itoa_nonneg)
  have port: "\<forall>c\<in>set ?p. \<not> re_space c \<and> c \<noteq> CHR '':''" using assms digit_not_space
    by (auto simp: printable_def list_all_iff)
  define r4 where "r4 = (if Sni b = [] then [] else CHR '' '' # ''sni='' @ Sni b)"
  define r3 where "r3 = CHR '' '' # ''max_connections='' @ Itoa (MaxConnections b) @ r4"
  define r2 where "r2 = CHR '' '' # ''priority='' @ Itoa (Priority b) @ r3"
  define r1 where "r1 = CHR '' '' # ''weight='' @ Itoa (Weight b) @ r2"
  have line: "show_backend b = (?h @ CHR '':'' # ?p) @ r1"
    by (simp add: show_backend_def r1_def r2_def r3_def r4_def)
  have head: "\<forall>c\<in>set (?h @ CHR '':'' # ?p). ?ns c"
    using assms port by (auto simp: printable_def re_space_def Let_def)
  have tw: "takeWhile ?ns (show_backend b) = ?h @ CHR '':'' # ?p" "dropWhile ?ns (show_backend b) = r1"
    unfolding line using span_append [OF head, of r1] by (simp_all add: r1_def)
  have w: "number_group ''weight='' r1 = (Itoa (Weight b), r2)" unfolding r1_def
    by (rule number_group_some) (use digits in \<open>simp_all add: r2_def\<close>)
  have p: "number_group ''priority='' r2 = (Itoa (Priority b), r3)" unfolding r2_def
    by (rule number_group_some) (use digits in \<open>simp_all add: r3_def\<close>)
  have m: "number_group ''max_connections='' r3 = (Itoa (MaxConnections b), r4)" unfolding r3_def
    by (rule number_group_some) (use digits in \<open>simp_all add: r4_def\<close>)
  have "word_group ''sni='' r4 = (Sni b, [])"
  proof (cases "Sni b = []")
    case True
    then show ?thesis by (simp add: r4_def word_group_def)
  next
    case False
    then show ?thesis unfolding r4_def using assms
      by (simp add: printable_def word_group_some del: append.simps)
  qed
  moreover have "split_last_colon (?h @ CHR '':'' # ?p) = Some (?h, ?p)"
    using port by (intro split_last_colon_append) auto
  ultimately show ?thesis using assms w p m tw by (simp add: default_match_def printable_def Let_def)
qed

lemma ParseBackendDefault_show:
  assumes "printable b"
  shows "ParseBackendDefault (show_backend b) = Ok b"
proof -
  have n: "number_or (Itoa n) d = n" if "n \<in> {Weight b, Priority b, MaxConnections b}" for n d
    using assms that Atoi_Itoa [of n] by (auto simp: printable_def number_or_def)
  have "TrimSpace (show_backend b) = show_backend b"
  proof (rule TrimSpace_same)
    have "is_digit (last (digits_of (nat (MaxConnections b))))"
      by (rule digits_of_digit [of _ "nat (MaxConnections b)"]) simp
    then have "\<not> is_space (last (Itoa (MaxConnections b)))"
      using digit_not_space assms by (simp add: printable_def Itoa_nonneg)
    moreover have "Itoa (MaxConnections b) \<noteq> []" using assms by (auto simp: printable_def Itoa_nonneg)
    ultimately show "\<not> is_space (last (show_backend b))"
      using assms by (auto simp: show_backend_def printable_def last_append)
  qed (use assms in \<open>auto simp: show_backend_def printable_def hd_append\<close>)
  then show ?thesis using default_match_show [OF assms] n assms
    by (simp add: ParseBackendDefault_def ParseBackend_def backend_of_def group_of_def printable_def)
qed

end
