(* ===== verification/Discovery.thy ===== *)
theory Discovery
  imports Backend_Parser Config "HOL-Library.Sublist"
begin

text \<open>
  The discovery goroutine (src/src/discovery/discovery.go): it fetches backends, publishes them on
  \<open>out\<close>, applies the fail policy, and waits for the next round. The program counter names the
  points where the goroutine waits. \<open>stop\<close> is unbuffered, so \<open>Stop\<close> returns only when the
  goroutine receives from it; \<open>stopping\<close> says that a caller is waiting there at a non-blocking
  check. \<open>log.Fatal\<close> ends the process: \<open>Panic\<close>.
\<close>

datatype discovery_kind = KStatic | KSrv | KDocker | KJson | KExec | KPlaintext | KConsul | KLxd

definition registry :: "string \<Rightarrow> discovery_kind option" where
  "registry = map_of
     [(''static'', KStatic), (''srv'', KSrv), (''docker'', KDocker), (''json'', KJson),
      (''exec'', KExec), (''plaintext'', KPlaintext), (''consul'', KConsul), (''lxd'', KLxd)]"

text \<open>Fetching, before the check of \<open>send\<close>, in \<open>this.out <- ..\<close>, in \<open>wait\<close>, returned.\<close>

datatype disc_pc =
    Fetching
  | Checking bool
  | Sending bool
  | Waiting goint
  | Returned

record Discovery =
  dsc_kind :: discovery_kind
  dsc_cfg :: DiscoveryConfig
  dsc_RetryWait :: goint
  dsc_interval :: goint
  dsc_backends :: "Backend list"
  dsc_pc :: disc_pc

definition Discovery_Start :: "Discovery \<Rightarrow> Discovery outcome" where
  "Discovery_Start d =
     (case ParseDuration (disc_Interval (dsc_cfg d)) of
        None \<Rightarrow> Panic
      | Some interval \<Rightarrow> Ok (d\<lparr>dsc_interval := interval, dsc_pc := Fetching\<rparr>))"

datatype disc_event =
    Fetched "Backend list outcome" bool
  | Checked bool
  | Sent
  | TimerFired
  | StopReceived

text \<open>After the fetch: the stop check, then the fail policy or the cache. \<open>True\<close>: a success.\<close>

definition after_fetch :: "Backend list outcome \<Rightarrow> Discovery \<Rightarrow> Discovery" where
  "after_fetch r d = (case r of
       Ok bs \<Rightarrow> d\<lparr>dsc_backends := bs, dsc_pc := Checking True\<rparr>
     | _ \<Rightarrow> if disc_Failpolicy (dsc_cfg d) = ''setempty''
           then d\<lparr>dsc_backends := [], dsc_pc := Checking False\<rparr>
           else d\<lparr>dsc_pc := Waiting (dsc_RetryWait d)\<rparr>)"

definition after_send :: "bool \<Rightarrow> Discovery \<Rightarrow> Discovery" where
  "after_send success d =
     d\<lparr>dsc_pc := (if \<not> success then Waiting (dsc_RetryWait d)
                  else if dsc_interval d = 0 then Returned else Waiting (dsc_interval d))\<rparr>"

text \<open>One step: the new state and what is published. \<open>None\<close>: the event cannot happen now.\<close>

definition disc_step :: "disc_event \<Rightarrow> Discovery \<Rightarrow> (Discovery \<times> Backend list list) option" where
  "disc_step ev d = (case (ev, dsc_pc d) of
       (Fetched r stopping, Fetching) \<Rightarrow>
         Some (if stopping then d\<lparr>dsc_pc := Returned\<rparr> else after_fetch r d, [])
     | (Checked stopping, Checking success) \<Rightarrow>
         Some (d\<lparr>dsc_pc := (if stopping then Returned else Sending success)\<rparr>, [])
     | (Sent, Sending success) \<Rightarrow> Some (after_send success d, [dsc_backends d])
     | (TimerFired, Waiting _) \<Rightarrow> Some (d\<lparr>dsc_pc := Fetching\<rparr>, [])
     | (StopReceived, Waiting _) \<Rightarrow> Some (d\<lparr>dsc_pc := Returned\<rparr>, [])
     | _ \<Rightarrow> None)"

fun disc_run :: "disc_event list \<Rightarrow> Discovery \<Rightarrow> (Discovery \<times> Backend list list) option" where
  "disc_run [] d = Some (d, [])"
| "disc_run (e # es) d = (case disc_step e d of None \<Rightarrow> None
     | Some (d, out) \<Rightarrow> (case disc_run es d of None \<Rightarrow> None | Some (d, out') \<Rightarrow> Some (d, out @ out')))"

text \<open>The events at which a caller of \<open>Stop\<close> is served.\<close>

fun serves_stop :: "disc_event \<Rightarrow> bool" where
  "serves_stop (Fetched r stopping) = stopping"
| "serves_stop (Checked stopping) = stopping"
| "serves_stop StopReceived = True"
| "serves_stop _ = False"

section \<open>What is published\<close>

text \<open>The abstract discovery: each result of a fetch, as the fail policy turns it into an update.\<close>

definition policy :: "string \<Rightarrow> Backend list outcome \<Rightarrow> Backend list list" where
  "policy failpolicy r = (case r of Ok bs \<Rightarrow> [bs] | _ \<Rightarrow> if failpolicy = ''setempty'' then [[]] else [])"

fun fetched :: "disc_event list \<Rightarrow> Backend list outcome list" where
  "fetched [] = []"
| "fetched (Fetched r stopping # es) = (if stopping then [] else [r]) @ fetched es"
| "fetched (_ # es) = fetched es"

definition updates :: "string \<Rightarrow> Backend list outcome list \<Rightarrow> Backend list list" where
  "updates failpolicy rs = concat (map (policy failpolicy) rs)"

definition unsent :: "Discovery \<Rightarrow> Backend list list" where
  "unsent d = (case dsc_pc d of Checking _ \<Rightarrow> [dsc_backends d] | Sending _ \<Rightarrow> [dsc_backends d] | _ \<Rightarrow> [])"

lemma disc_run_Cons:
  "disc_run (e # es) d = Some (d', out) \<longleftrightarrow>
   (\<exists>d1 o1 o2. disc_step e d = Some (d1, o1) \<and> disc_run es d1 = Some (d', o2) \<and> out = o1 @ o2)"
  by (auto split: option.splits)

text \<open>\<open>lost\<close>: an update that was fetched and dropped because the goroutine was asked to stop.\<close>

lemma disc_step_out:
  assumes "disc_step e d = Some (d', out)"
  shows "dsc_cfg d' = dsc_cfg d \<and> dsc_interval d' = dsc_interval d \<and> dsc_RetryWait d' = dsc_RetryWait d \<and>
    (\<exists>lost. unsent d @ updates (disc_Failpolicy (dsc_cfg d)) (fetched [e]) = out @ unsent d' @ lost \<and>
      (dsc_pc d' \<noteq> Returned \<longrightarrow> lost = []))"
proof (cases e)
  case (Fetched r stopping)
  then show ?thesis using assms
    by (cases "dsc_pc d"; cases r) (auto simp: disc_step_def after_fetch_def unsent_def updates_def policy_def)
next
  case (Checked stopping)
  then show ?thesis using assms
    by (cases "dsc_pc d") (auto simp: disc_step_def unsent_def updates_def)
next
  case Sent
  then show ?thesis using assms
    by (cases "dsc_pc d") (auto simp: disc_step_def after_send_def unsent_def updates_def)
next
  case TimerFired
  then show ?thesis using assms by (cases "dsc_pc d") (auto simp: disc_step_def unsent_def updates_def)
next
  case StopReceived
  then show ?thesis using assms by (cases "dsc_pc d") (auto simp: disc_step_def unsent_def updates_def)
qed

lemma disc_returned: "disc_run es d = Some (d', out) \<Longrightarrow> dsc_pc d = Returned \<Longrightarrow> es = [] \<and> d' = d \<and> out = []"
  by (cases es) (auto simp: disc_step_def split: disc_event.splits)

lemma fetched_Cons: "fetched (e # es) = fetched [e] @ fetched es"
  by (cases e) auto

lemma disc_run_out:
  "disc_run es d = Some (d', out) \<Longrightarrow>
   \<exists>lost. unsent d @ updates (disc_Failpolicy (dsc_cfg d)) (fetched es) = out @ unsent d' @ lost \<and>
     (dsc_pc d' \<noteq> Returned \<longrightarrow> lost = [])"
proof (induction es arbitrary: d out)
  case Nil
  then show ?case by (simp add: updates_def)
next
  case (Cons e es)
  let ?p = "disc_Failpolicy (dsc_cfg d)"
  obtain d1 o1 o2 where s: "disc_step e d = Some (d1, o1)" "disc_run es d1 = Some (d', o2)" "out = o1 @ o2"
    using Cons.prems by (auto simp only: disc_run_Cons)
  from disc_step_out [OF s(1)] obtain lost where
    l: "unsent d @ updates ?p (fetched [e]) = o1 @ unsent d1 @ lost" "dsc_pc d1 \<noteq> Returned \<longrightarrow> lost = []"
    and cfg: "dsc_cfg d1 = dsc_cfg d" by blast
  have split: "updates ?p (fetched (e # es)) = updates ?p (fetched [e]) @ updates ?p (fetched es)"
    using fetched_Cons [of e es] by (simp add: updates_def)
  show ?case
  proof (cases "dsc_pc d1 = Returned")
    case True
    then have "es = []" "d' = d1" "o2 = []" using disc_returned [OF s(2)] by auto
    then show ?thesis using l True s(3) by auto
  next
    case False
    from Cons.IH [OF s(2)] obtain lost' where
      "unsent d1 @ updates ?p (fetched es) = o2 @ unsent d' @ lost'" "dsc_pc d' \<noteq> Returned \<longrightarrow> lost' = []"
      using cfg by auto
    moreover have "unsent d @ updates ?p (fetched (e # es)) = o1 @ unsent d1 @ updates ?p (fetched es)"
      using l False by (simp add: split)
    ultimately show ?thesis using s(3) by auto
  qed
qed

section \<open>A discovery that has returned cannot be stopped\<close>

text \<open>With interval 0 the goroutine returns after its first success, and \<open>Stop\<close> waits for ever.\<close>

lemma interval_0_returns:
  assumes "disc_run es d = Some (d', out)" and "dsc_interval d = 0"
    and "disc_step Sent d' = Some (d'', out')" and "dsc_pc d' = Sending True"
  shows "dsc_pc d'' = Returned \<and> (\<forall>e. disc_step e d'' = None)"
proof -
  have "dsc_interval d' = 0" using assms(1,2)
  proof (induction es arbitrary: d out)
    case (Cons e es)
    then obtain d1 o1 o2 where s: "disc_step e d = Some (d1, o1)" "disc_run es d1 = Some (d', o2)"
      by (auto simp only: disc_run_Cons)
    then show ?case using Cons.IH [OF s(2)] disc_step_out [OF s(1)] Cons.prems(2) by simp
  qed simp
  then have "dsc_pc d'' = Returned" using assms(3,4) by (auto simp: disc_step_def after_send_def)
  moreover from this have "disc_step e d'' = None" for e by (simp add: disc_step_def split: disc_event.splits)
  ultimately show ?thesis by blast
qed

end
