(* ===== verification/Fetch.thy ===== *)
theory Fetch
  imports Discovery
begin

text \<open>
  The fetch functions of the kinds of discovery (src/src/discovery/*.go). What a library or the
  network answers is data: the body of an HTTP response, the output of a command, DNS responses, the
  answers of a JSON query library, and the containers or services that an API client lists.
\<close>

text \<open>Reading a promoted field of an embedded pointer that is nil panics.\<close>

definition need :: "'a option \<Rightarrow> ('a \<Rightarrow> 'b outcome) \<Rightarrow> 'b outcome" where
  "need x f = (case x of None \<Rightarrow> Panic | Some v \<Rightarrow> f v)"

definition new_backend :: "string \<Rightarrow> string \<Rightarrow> string \<Rightarrow> Backend" where
  "new_backend host port sni = \<lparr>Target = \<lparr>Host = host, Port = port\<rparr>, Priority = 1, Weight = 1,
     MaxConnections = 0, Sni = sni, Stats = live_stats\<rparr>"

section \<open>Lists of lines: static, exec and plaintext\<close>

text \<open>Lines that do not parse are skipped; \<open>MustCompile\<close> panics at the first line.\<close>

fun parse_lines :: "matcher option \<Rightarrow> string list \<Rightarrow> Backend list outcome" where
  "parse_lines re [] = Ok []"
| "parse_lines re (l # ls) =
     (case ParseBackend re l of
        Panic \<Rightarrow> Panic
      | Err e \<Rightarrow> parse_lines re ls
      | Ok b \<Rightarrow> bind_outcome (parse_lines re ls) (\<lambda>bs. Ok (b # bs)))"

definition staticFetch :: "DiscoveryConfig \<Rightarrow> Backend list outcome" where
  "staticFetch cfg = need (disc_Static cfg) (\<lambda>l. parse_lines (Some default_match) (elems l))"

definition non_empty_lines :: "string \<Rightarrow> string list" where
  "non_empty_lines s = filter (\<lambda>l. l \<noteq> []) (Split s CHR 0x0A)"

text \<open>\<open>output\<close>: what \<open>ExecTimeout\<close> returned for the command, \<open>None\<close> an error.\<close>

definition execFetch :: "(string list \<Rightarrow> string option) \<Rightarrow> DiscoveryConfig \<Rightarrow> Backend list outcome" where
  "execFetch output cfg = need (disc_Exec cfg) (\<lambda>cmd.
     if elems cmd = [] then Panic
     else case output (elems cmd) of None \<Rightarrow> Err ''exec''
     | Some out \<Rightarrow> parse_lines (Some default_match) (non_empty_lines out))"

definition NewPlaintextDiscovery_cfg :: "PlaintextDiscoveryConfig \<Rightarrow> PlaintextDiscoveryConfig" where
  "NewPlaintextDiscovery_cfg p = p\<lparr>PlaintextRegexpPattern :=
     (if PlaintextRegexpPattern p = [] then DEFAULT_BACKEND_PATTERN else PlaintextRegexpPattern p)\<rparr>"

definition plaintextFetch ::
    "(string \<Rightarrow> matcher option) \<Rightarrow> (string \<Rightarrow> string option) \<Rightarrow> DiscoveryConfig \<Rightarrow> Backend list outcome" where
  "plaintextFetch compile http_get cfg = need (disc_Plaintext cfg) (\<lambda>p.
     case http_get (PlaintextEndpoint p) of None \<Rightarrow> Err ''http''
     | Some body \<Rightarrow> parse_lines (if PlaintextRegexpPattern p = DEFAULT_BACKEND_PATTERN then Some default_match
                                 else compile (PlaintextRegexpPattern p)) (non_empty_lines body))"

section \<open>JSON\<close>

text \<open>
  The queries on a parsed document: the length of the top array, a string, the text of any value, an
  integer, a number truncated to an integer. \<open>None\<close> is an error of the query library.
\<close>

record json_doc =
  jd_length :: "nat option"
  jd_string :: "string \<Rightarrow> string option"
  jd_text :: "string \<Rightarrow> string option"
  jd_int :: "string \<Rightarrow> goint option"
  jd_float :: "string \<Rightarrow> goint option"

definition option_or :: "'a option \<Rightarrow> 'a \<Rightarrow> 'a" where
  "option_or x d = (case x of None \<Rightarrow> d | Some v \<Rightarrow> v)"

definition NewJsonDiscovery_cfg :: "JsonDiscoveryConfig \<Rightarrow> JsonDiscoveryConfig" where
  "NewJsonDiscovery_cfg j = (let dflt = (\<lambda>s d. if s = [] then d else s) in
     j\<lparr>JsonHostPattern := dflt (JsonHostPattern j) ''host'', JsonPortPattern := dflt (JsonPortPattern j) ''port'',
       JsonWeightPattern := dflt (JsonWeightPattern j) ''weight'',
       JsonPriorityPattern := dflt (JsonPriorityPattern j) ''priority'',
       JsonSniPattern := dflt (JsonSniPattern j) ''sni'',
       JsonMaxConnectionsPattern := dflt (JsonMaxConnectionsPattern j) ''max_connections''\<rparr>)"

definition json_backend :: "JsonDiscoveryConfig \<Rightarrow> json_doc \<Rightarrow> nat \<Rightarrow> Backend outcome" where
  "json_backend j doc k =
     (let key = ''['' @ Itoa (int k) @ ''].''
      in case jd_string doc (key @ JsonHostPattern j) of None \<Rightarrow> Err ''json host''
         | Some host \<Rightarrow> (case jd_text doc (key @ JsonPortPattern j) of None \<Rightarrow> Err ''json port''
         | Some port \<Rightarrow> Ok \<lparr>Target = \<lparr>Host = host, Port = port\<rparr>,
              Priority = option_or (jd_float doc (key @ JsonPriorityPattern j)) 1,
              Weight = option_or (jd_int doc (key @ JsonWeightPattern j)) 1,
              MaxConnections = option_or (jd_int doc (key @ JsonMaxConnectionsPattern j)) 0,
              Sni = option_or (jd_string doc (key @ JsonSniPattern j)) [],
              Stats = live_stats\<rparr>))"

fun json_backends :: "JsonDiscoveryConfig \<Rightarrow> json_doc \<Rightarrow> nat list \<Rightarrow> Backend list outcome" where
  "json_backends j doc [] = Ok []"
| "json_backends j doc (k # ks) =
     bind_outcome (json_backend j doc k) (\<lambda>b. bind_outcome (json_backends j doc ks) (\<lambda>bs. Ok (b # bs)))"

definition jsonFetch ::
    "(string \<Rightarrow> string option) \<Rightarrow> (string \<Rightarrow> json_doc option) \<Rightarrow> DiscoveryConfig \<Rightarrow> Backend list outcome" where
  "jsonFetch http_get parse cfg = need (disc_Json cfg) (\<lambda>j.
     case http_get (JsonEndpoint j) of None \<Rightarrow> Err ''http''
     | Some body \<Rightarrow> (case parse body of None \<Rightarrow> Err ''json''
     | Some doc \<Rightarrow> (case jd_length doc of None \<Rightarrow> Err ''Unexpected json in response''
     | Some n \<Rightarrow> json_backends j doc [0..<n])))"

section \<open>DNS SRV records\<close>

datatype dns_rr =
    DnsA (rr_name: string) (rr_ip: string)
  | DnsAAAA (rr_name: string) (rr_ip: string)
  | is_DnsSRV: DnsSRV (srv_target: string) (srv_port: nat) (srv_priority: nat) (srv_weight: nat)
  | DnsOther

datatype dns_type = TypeA | TypeAAAA | TypeSRV

text \<open>The answer and the additional section of a query; \<open>None\<close> is an error of the exchange.\<close>

type_synonym dns = "string \<Rightarrow> dns_type \<Rightarrow> (dns_rr list \<times> dns_rr list) option"

fun extra_hosts :: "dns_rr list \<Rightarrow> (string \<times> string) list" where
  "extra_hosts [] = []"
| "extra_hosts (DnsA n ip # rs) = extra_hosts rs @ [(n, ip)]"
| "extra_hosts (DnsAAAA n ip # rs) = extra_hosts rs @ [(n, ''['' @ ip @ '']'')]"
| "extra_hosts (_ # rs) = extra_hosts rs"

text \<open>An error of the lookup and an empty answer both read as no address.\<close>

definition srvIPLookup :: "dns \<Rightarrow> string \<Rightarrow> dns_type \<Rightarrow> string" where
  "srvIPLookup dns pattern typ = (case dns pattern typ of
       None \<Rightarrow> [] | Some ([], _) \<Rightarrow> []
     | Some (DnsA _ ip # _, _) \<Rightarrow> ip
     | Some (DnsAAAA _ ip # _, _) \<Rightarrow> ''['' @ ip @ '']''
     | Some (_ # _, _) \<Rightarrow> [])"

definition trim_right_dots :: "string \<Rightarrow> string" where
  "trim_right_dots s = rev (dropWhile (\<lambda>c. c = CHR ''.'') (rev s))"

definition srv_backend :: "string \<Rightarrow> string \<Rightarrow> nat \<Rightarrow> nat \<Rightarrow> nat \<Rightarrow> Backend" where
  "srv_backend host target port priority weight =
     \<lparr>Target = \<lparr>Host = host, Port = Itoa (int port)\<rparr>, Priority = int priority, Weight = int weight,
      MaxConnections = 0, Sni = trim_right_dots target, Stats = live_stats\<rparr>"

text \<open>The loop over the answer, with the map of host addresses it fills in.\<close>

fun srv_answers :: "dns \<Rightarrow> (string \<times> string) list \<Rightarrow> dns_rr list \<Rightarrow> Backend list outcome" where
  "srv_answers dns hosts [] = Ok []"
| "srv_answers dns hosts (DnsSRV target port priority weight # rs) =
     (case map_of hosts target of
        Some ip \<Rightarrow> bind_outcome (srv_answers dns hosts rs) (\<lambda>bs. Ok (srv_backend ip target port priority weight # bs))
      | None \<Rightarrow>
          let ip4 = srvIPLookup dns target TypeA;
              ip = (if ip4 = [] then srvIPLookup dns target TypeAAAA else ip4)
          in if ip = [] then srv_answers dns hosts rs
             else bind_outcome (srv_answers dns ((target, ip) # hosts) rs)
               (\<lambda>bs. Ok (srv_backend ip target port priority weight # bs)))"
| "srv_answers dns hosts (_ # rs) = Err ''Non-SRV record in SRV answer''"

definition srvFetch :: "(string \<Rightarrow> dns) \<Rightarrow> DiscoveryConfig \<Rightarrow> Backend list outcome" where
  "srvFetch server cfg = need (disc_Srv cfg) (\<lambda>r.
     case server (SrvLookupServer r) (SrvLookupPattern r) TypeSRV of
       None \<Rightarrow> Err ''dns''
     | Some (answer, extra) \<Rightarrow>
         if answer = [] then Ok [] else srv_answers (server (SrvLookupServer r)) (extra_hosts extra) answer)"

section \<open>Docker\<close>

record docker_port =
  dp_IP :: string
  dp_PrivatePort :: goint
  dp_PublicPort :: goint

record docker_container =
  dk_ID :: string
  dk_Ports :: "docker_port list"
  dk_Labels :: "string \<Rightarrow> string option"

text \<open>
  The client: whether it could be made, the containers for a label filter, and the value of a
  variable in a container's environment (\<open>None\<close> when the inspection fails).
\<close>

record docker_client =
  dkc_connect :: bool
  dkc_list :: "string option \<Rightarrow> docker_container list option"
  dkc_env :: "string \<Rightarrow> string \<Rightarrow> string option"

text \<open>
  The host in \<open>(.*?)://(?P<host>[-.A-Za-z0-9]+)/?(.*)\<close>: what follows the first \<open>://\<close> that a host
  character follows.
\<close>

definition is_host_char :: "char \<Rightarrow> bool" where
  "is_host_char c \<longleftrightarrow> (let n = (of_char c :: nat) in
     n = 45 \<or> n = 46 \<or> 48 \<le> n \<and> n \<le> 57 \<or> 65 \<le> n \<and> n \<le> 90 \<or> 97 \<le> n \<and> n \<le> 122)"

fun endpoint_host :: "string \<Rightarrow> string option" where
  "endpoint_host [] = None"
| "endpoint_host (c # cs) =
     (if has_prefix (c # cs) ''://'' \<and> takeWhile is_host_char (drop 3 (c # cs)) \<noteq> []
      then Some (takeWhile is_host_char (drop 3 (c # cs)))
      else endpoint_host cs)"

definition dockerDetermineContainerHost ::
    "docker_client \<Rightarrow> string \<Rightarrow> DockerDiscoveryConfig \<Rightarrow> string \<Rightarrow> string" where
  "dockerDetermineContainerHost client cid cfg portHost =
     (let from_env = (if DockerContainerHostEnvVar cfg = [] then []
                      else option_or (dkc_env client cid (DockerContainerHostEnvVar cfg)) [])
      in if from_env \<noteq> [] then from_env
         else if portHost \<noteq> ''0.0.0.0'' then portHost
         else option_or (endpoint_host (DockerEndpoint cfg)) portHost)"

definition dockerFetch :: "docker_client \<Rightarrow> DiscoveryConfig \<Rightarrow> Backend list outcome" where
  "dockerFetch client dcfg = need (disc_Docker dcfg) (\<lambda>cfg.
     if DockerTlsEnabled cfg \<and> (DockerTlsCertPath cfg = []) \<noteq> (DockerTlsKeyPath cfg = [])
     then Err ''Missing key or certificate required for TLS client validation''
     else if \<not> dkc_connect client then Err ''docker client''
     else (case dkc_list client (if DockerContainerLabel cfg = [] then None else Some (DockerContainerLabel cfg)) of
         None \<Rightarrow> Err ''docker list''
       | Some cs \<Rightarrow> Ok (concat (map (\<lambda>c. map (\<lambda>p.
             new_backend (dockerDetermineContainerHost client (dk_ID c) cfg (dp_IP p)) (Itoa (dp_PublicPort p))
               (option_or (dk_Labels c ''sni'') []))
           (filter (\<lambda>p. dp_PrivatePort p = DockerContainerPrivatePort cfg) (dk_Ports c))) cs))))"

section \<open>Consul\<close>

record consul_entry =
  ce_ServiceAddress :: string
  ce_NodeAddress :: string
  ce_Port :: goint
  ce_Tags :: "string list"

text \<open>The value after the first \<open>=\<close> of the last tag \<open>sni=..\<close>.\<close>

definition tag_sni :: "string \<Rightarrow> string \<Rightarrow> string" where
  "tag_sni sni tag = (if has_prefix tag ''sni='' then drop 4 tag else sni)"

definition consul_backend :: "consul_entry \<Rightarrow> Backend" where
  "consul_backend e = new_backend
     (if ce_ServiceAddress e \<noteq> [] then ce_ServiceAddress e else ce_NodeAddress e)
     (Itoa (ce_Port e)) (foldl tag_sni [] (ce_Tags e))"

text \<open>\<open>tls_ok\<close>: \<open>SetupTLSConfig\<close> succeeds; \<open>query\<close>: the health query by service, tag and state.\<close>

definition consulFetch ::
    "bool \<Rightarrow> (string \<Rightarrow> string \<Rightarrow> bool \<Rightarrow> consul_entry list option) \<Rightarrow> DiscoveryConfig \<Rightarrow> Backend list outcome" where
  "consulFetch tls_ok query dcfg = need (disc_Consul dcfg) (\<lambda>cfg.
     if ConsulTlsEnabled cfg \<and> \<not> tls_ok then Err ''consul tls''
     else (case query (ConsulServiceName cfg) (ConsulServiceTag cfg) (ConsulServicePassingOnly cfg) of
         None \<Rightarrow> Err ''consul''
       | Some entries \<Rightarrow> Ok (map consul_backend entries)))"

section \<open>LXD\<close>

record lxd_container =
  lx_Name :: string
  lx_Status :: string
  lx_Config :: "string \<Rightarrow> string option"

record lxd_address =
  la_Family :: string
  la_Address :: string

text \<open>
  The client of the LXD library after it has been built: the containers, and the addresses of one
  interface of a container (\<open>None\<close> when the state cannot be read, no address when there is no such
  interface).
\<close>

record lxd_client =
  lxc_containers :: "lxd_container list option"
  lxc_addresses :: "string \<Rightarrow> string \<Rightarrow> lxd_address list option"

definition lxdDetermineContainerIP :: "lxd_client \<Rightarrow> string \<Rightarrow> string \<Rightarrow> string \<Rightarrow> string option" where
  "lxdDetermineContainerIP client container iface addrType =
     (let inet = (if addrType = ''IPv4'' then ''inet'' else if addrType = ''IPv6'' then ''inet6'' else [])
      in case lxc_addresses client container iface of
          None \<Rightarrow> None
        | Some as \<Rightarrow>
            (let found = (case find (\<lambda>a. la_Family a = inet) as of None \<Rightarrow> [] | Some a \<Rightarrow> la_Address a);
                 containerIP = (if inet = ''inet6'' then ''['' @ found @ '']'' else found)
             in if containerIP = [] then None else Some containerIP))"

definition lxd_wanted :: "LXDDiscoveryConfig \<Rightarrow> lxd_container \<Rightarrow> bool" where
  "lxd_wanted cfg c \<longleftrightarrow> lx_Status c = ''Running'' \<and>
     (LXDContainerLabelKey cfg \<noteq> [] \<longrightarrow>
       (case lx_Config c (LXDContainerLabelKey cfg) of None \<Rightarrow> False
        | Some v \<Rightarrow> LXDContainerLabelValue cfg = [] \<or> v = LXDContainerLabelValue cfg))"

definition lxd_port :: "LXDDiscoveryConfig \<Rightarrow> lxd_container \<Rightarrow> string" where
  "lxd_port cfg c = (if LXDContainerPortKey cfg = [] then Itoa (LXDContainerPort cfg)
     else option_or (lx_Config c (LXDContainerPortKey cfg)) (Itoa (LXDContainerPort cfg)))"

text \<open>The backend of a container that is not skipped.\<close>

definition lxd_backend :: "lxd_client \<Rightarrow> LXDDiscoveryConfig \<Rightarrow> lxd_container \<Rightarrow> Backend option" where
  "lxd_backend client cfg c =
     (if \<not> lxd_wanted cfg c \<or> lxd_port cfg c = [] then None
      else let iface = option_or (lx_Config c (LXDContainerInterfaceKey cfg)) (LXDContainerInterface cfg)
           in map_option (\<lambda>ip. new_backend ip (lxd_port cfg c) (option_or (lx_Config c (LXDContainerSNIKey cfg)) []))
                (lxdDetermineContainerIP client (lx_Name c) iface (LXDContainerAddressType cfg)))"

text \<open>
  Building a client. What the LXD library and the disk answer: whether a client certificate could be
  generated, whether the server's certificate is on disk, whether \<open>GetInstanceServer\<close> succeeds when it is
  called to probe, before the authentication and at the end, whether the server's certificate could be
  downloaded and saved, the \<open>Auth\<close> field that \<open>GetServer\<close> returns (\<open>None\<close>: an error, and a nil server),
  whether \<open>CreateCertificate\<close> and the \<open>GetServer\<close> after it succeed, and the last \<open>GetServer\<close>.
\<close>

record lxd_env =
  le_generate :: bool
  le_server_cert :: bool
  le_probe :: bool
  le_download :: bool
  le_connect :: bool
  le_auth :: "string option"
  le_create :: bool
  le_recheck :: bool
  le_final :: "lxd_client option"
  le_server :: bool

text \<open>The error of the first \<open>GetServer\<close> is overwritten after its result was dereferenced.\<close>

definition lxdAuthenticateToServer :: "lxd_env \<Rightarrow> unit outcome" where
  "lxdAuthenticateToServer env =
     (case le_auth env of None \<Rightarrow> Panic
      | Some auth \<Rightarrow>
          if auth = ''trusted'' then Ok ()
          else if \<not> le_create env then Err ''Unable to authenticate with remote server''
          else if \<not> le_recheck env then Err ''lxd server''
          else Ok ())"

definition lxd_certificates :: "lxd_env \<Rightarrow> LXDDiscoveryConfig \<Rightarrow> unit outcome" where
  "lxd_certificates env cfg =
     (if LXDGenerateClientCerts cfg \<and> \<not> le_generate env then Err ''lxd client certificate''
      else if le_server_cert env \<or> le_probe env then Ok ()
      else if \<not> LXDAcceptServerCert cfg then Err ''Unable to communicate with LXD server.''
      else if \<not> le_download env then Err ''Could obtain LXD server certificate''
      else Ok ())"

definition lxdBuildClient :: "lxd_env \<Rightarrow> LXDDiscoveryConfig \<Rightarrow> lxd_client outcome" where
  "lxdBuildClient env cfg =
     bind_outcome
       (if has_prefix (LXDServerAddress cfg) ''https:'' then
          bind_outcome (lxd_certificates env cfg) (\<lambda>_.
            if \<not> le_connect env then Err ''lxd connect'' else lxdAuthenticateToServer env)
        else Ok ())
       (\<lambda>_. case le_final env of
            None \<Rightarrow> Err ''lxd client''
          | Some client \<Rightarrow> if le_server env then Ok client else Err ''lxd server'')"

text \<open>
  The configuration of the LXD library that a client is built from. Without one on disk the code takes
  the address of the library's own default, which every such discovery then shares and writes to.
\<close>

record lxd_config =
  lc_ConfigDir :: string
  lc_Remotes :: "string \<rightharpoonup> string"

datatype lxd_ref = DefaultRef | LoadedRef nat

record lxd_store =
  ls_default :: lxd_config
  ls_loaded :: "lxd_config list"

definition lxd_get :: "lxd_store \<Rightarrow> lxd_ref \<Rightarrow> lxd_config" where
  "lxd_get sto r = (case r of DefaultRef \<Rightarrow> ls_default sto | LoadedRef i \<Rightarrow> ls_loaded sto ! i)"

definition lxd_set :: "lxd_ref \<Rightarrow> lxd_config \<Rightarrow> lxd_store \<Rightarrow> lxd_store" where
  "lxd_set r c sto = (case r of
       DefaultRef \<Rightarrow> sto\<lparr>ls_default := c\<rparr>
     | LoadedRef i \<Rightarrow> sto\<lparr>ls_loaded := (ls_loaded sto)[i := c]\<rparr>)"

text \<open>\<open>load\<close>: the library's \<open>LoadConfig\<close>, \<open>None\<close> when it fails.\<close>

definition lxdBuildConfig ::
    "(string \<Rightarrow> lxd_config option) \<Rightarrow> LXDDiscoveryConfig \<Rightarrow> lxd_store \<Rightarrow> lxd_store \<times> lxd_ref" where
  "lxdBuildConfig load cfg sto =
     (let (sto, r) = (case load (LXDConfigDirectory cfg) of
            None \<Rightarrow> (lxd_set DefaultRef ((ls_default sto)\<lparr>lc_ConfigDir := LXDConfigDirectory cfg\<rparr>) sto, DefaultRef)
          | Some conf \<Rightarrow> (sto\<lparr>ls_loaded := ls_loaded sto @ [conf]\<rparr>, LoadedRef (length (ls_loaded sto))));
          c = lxd_get sto r
      in (lxd_set r (c\<lparr>lc_Remotes := (lc_Remotes c)(LXDServerRemoteName cfg \<mapsto> LXDServerAddress cfg)\<rparr>) sto, r))"

text \<open>
  The download of the server's certificate: the file it is written to, and its bytes. The library
  and the disk: the certificate of an address, the path below the configuration's directory,
  whether the directory and the file can be made, and the PEM encoding.
\<close>

record lxd_disk =
  lk_certificate :: "string \<Rightarrow> string option"
  lk_config_path :: "lxd_config \<Rightarrow> string \<Rightarrow> string"
  lk_mkdir :: "string \<Rightarrow> bool"
  lk_create :: "string \<Rightarrow> bool"
  lk_pem :: "string \<Rightarrow> string"

definition lxdGetRemoteCertificate :: "lxd_disk \<Rightarrow> lxd_config \<Rightarrow> string \<Rightarrow> (string \<times> string) outcome" where
  "lxdGetRemoteCertificate disk config remote =
     (case lk_certificate disk (option_or (lc_Remotes config remote) []) of
        None \<Rightarrow> Err ''lxd certificate''
      | Some raw \<Rightarrow>
          (let serverCertDir = lk_config_path disk config ''servercerts'';
               certf = serverCertDir @ ''/'' @ remote @ ''.crt''
           in if \<not> lk_mkdir disk serverCertDir then Err ''Could not create server cert dir: ''
              else if \<not> lk_create disk certf then Err ''create''
              else Ok (certf, lk_pem disk raw)))"

definition lxdFetch :: "lxd_env \<Rightarrow> DiscoveryConfig \<Rightarrow> Backend list outcome" where
  "lxdFetch env dcfg = need (disc_LXD dcfg) (\<lambda>cfg.
     bind_outcome (lxdBuildClient env cfg) (\<lambda>client.
       case lxc_containers client of
         None \<Rightarrow> Err ''lxd containers''
       | Some cs \<Rightarrow> Ok (List.map_filter (lxd_backend client cfg) cs)))"

section \<open>Constructors\<close>

definition second :: goint where
  "second = 1000000000"

text \<open>
  \<open>New\<close>: an unknown kind is a nil function in the registry, whose call panics. The constructors for
  JSON and plain text fill in defaults behind the embedded pointers, which the copy of the
  configuration shares with the server's own: \<open>dsc_cfg\<close> is what both see afterwards.
\<close>

definition discovery_with :: "discovery_kind \<Rightarrow> goint \<Rightarrow> DiscoveryConfig \<Rightarrow> Discovery" where
  "discovery_with fetch wait cfg = \<lparr>dsc_kind = fetch, dsc_cfg = cfg, dsc_RetryWait = wait,
     dsc_interval = 0, dsc_backends = [], dsc_pc = Fetching\<rparr>"

definition NewStaticDiscovery :: "DiscoveryConfig \<Rightarrow> Discovery outcome" where
  "NewStaticDiscovery cfg = Ok (discovery_with KStatic 0 cfg)"

definition NewSrvDiscovery :: "DiscoveryConfig \<Rightarrow> Discovery outcome" where
  "NewSrvDiscovery cfg = Ok (discovery_with KSrv (2 * second) cfg)"

definition NewDockerDiscovery :: "DiscoveryConfig \<Rightarrow> Discovery outcome" where
  "NewDockerDiscovery cfg = Ok (discovery_with KDocker (2 * second) cfg)"

definition NewExecDiscovery :: "DiscoveryConfig \<Rightarrow> Discovery outcome" where
  "NewExecDiscovery cfg = Ok (discovery_with KExec (2 * second) cfg)"

definition NewConsulDiscovery :: "DiscoveryConfig \<Rightarrow> Discovery outcome" where
  "NewConsulDiscovery cfg = Ok (discovery_with KConsul (2 * second) cfg)"

definition NewLXDDiscovery :: "DiscoveryConfig \<Rightarrow> Discovery outcome" where
  "NewLXDDiscovery cfg = Ok (discovery_with KLxd (2 * second) cfg)"

definition NewJsonDiscovery :: "DiscoveryConfig \<Rightarrow> Discovery outcome" where
  "NewJsonDiscovery cfg = need (disc_Json cfg) (\<lambda>j.
     Ok (discovery_with KJson (2 * second) (cfg\<lparr>disc_Json := Some (NewJsonDiscovery_cfg j)\<rparr>)))"

definition NewPlaintextDiscovery :: "DiscoveryConfig \<Rightarrow> Discovery outcome" where
  "NewPlaintextDiscovery cfg = need (disc_Plaintext cfg) (\<lambda>p.
     Ok (discovery_with KPlaintext (2 * second) (cfg\<lparr>disc_Plaintext := Some (NewPlaintextDiscovery_cfg p)\<rparr>)))"

lemmas discovery_constructors [simp] =
  discovery_with_def NewStaticDiscovery_def NewSrvDiscovery_def NewDockerDiscovery_def NewExecDiscovery_def
  NewConsulDiscovery_def NewLXDDiscovery_def NewJsonDiscovery_def NewPlaintextDiscovery_def

definition Discovery_New :: "string \<Rightarrow> DiscoveryConfig \<Rightarrow> Discovery outcome" where
  "Discovery_New strategy cfg = (case registry strategy of
       None \<Rightarrow> Panic
     | Some KStatic \<Rightarrow> NewStaticDiscovery cfg
     | Some KSrv \<Rightarrow> NewSrvDiscovery cfg
     | Some KDocker \<Rightarrow> NewDockerDiscovery cfg
     | Some KJson \<Rightarrow> NewJsonDiscovery cfg
     | Some KExec \<Rightarrow> NewExecDiscovery cfg
     | Some KPlaintext \<Rightarrow> NewPlaintextDiscovery cfg
     | Some KConsul \<Rightarrow> NewConsulDiscovery cfg
     | Some KLxd \<Rightarrow> NewLXDDiscovery cfg)"

section \<open>Lemmas\<close>

text \<open>Two LXD discoveries without a configuration on disk share one: the second moves the first.\<close>

lemma lxd_configs_shared:
  assumes "load (LXDConfigDirectory a) = None" and "load (LXDConfigDirectory b) = None"
    and "lxdBuildConfig load a sto = (sto1, r1)" and "lxdBuildConfig load b sto1 = (sto2, r2)"
  shows "r1 = r2 \<and> lc_ConfigDir (lxd_get sto2 r1) = LXDConfigDirectory b \<and>
    (LXDServerRemoteName a = LXDServerRemoteName b \<longrightarrow>
       lc_Remotes (lxd_get sto2 r1) (LXDServerRemoteName a) = Some (LXDServerAddress b))"
  using assms by (auto simp: lxdBuildConfig_def lxd_get_def lxd_set_def Let_def)

text \<open>Every fetched backend is live, and starts with no traffic and no connections.\<close>

lemma ParseBackend_live: "ParseBackend re l = Ok b \<Longrightarrow> Stats b = live_stats"
  by (auto simp: ParseBackend_def backend_of_def Let_def split: option.splits)

lemma parse_lines_spec:
  assumes "re \<noteq> None"
  shows "parse_lines re ls = Ok (List.map_filter (\<lambda>l. case ParseBackend re l of Ok b \<Rightarrow> Some b | _ \<Rightarrow> None) ls)"
  using assms
  by (induction ls) (auto simp: map_filter_simps ParseBackend_def Let_def split: option.splits)

lemma parse_lines_show:
  "\<forall>b\<in>set bs. printable b \<Longrightarrow> parse_lines (Some default_match) (map show_backend bs) = Ok bs"
proof (induction bs)
  case (Cons b bs)
  then show ?case using ParseBackendDefault_show [of b] by (simp add: ParseBackendDefault_def)
qed simp

lemma staticFetch_show:
  "\<forall>b\<in>set bs. printable b \<Longrightarrow> disc_Static cfg = Some (Some (map show_backend bs)) \<Longrightarrow> staticFetch cfg = Ok bs"
  by (simp add: staticFetch_def need_def parse_lines_show)

end
