(* ===== verification/Discovery_Properties.thy ===== *)
theory Discovery_Properties
  imports Fetch Samples
begin

text \<open>
  The properties of the discovery and of the parser of backend lines.
\<close>

definition sample_discovery :: DiscoveryConfig where
  "sample_discovery = \<lparr>disc_Kind = ''static'', disc_Failpolicy = ''setempty'', disc_Interval = ''0'', disc_Timeout = ''0'',
     disc_Static = Some (Some [''10.0.0.1:80'']), disc_Srv = None, disc_Docker = None, disc_Json = None,
     disc_Exec = None, disc_Plaintext = None, disc_Consul = None, disc_LXD = None\<rparr>"

definition plain_backend :: Backend where
  "plain_backend = \<lparr>Target = \<lparr>Host = ''10.0.0.1'', Port = ''80''\<rparr>, Priority = 1, Weight = 2,
     MaxConnections = 5, Sni = ''a.org'', Stats = live_stats\<rparr>"

lemma plain_backend_printable: "printable plain_backend"
  by (simp add: printable_def plain_backend_def is_digit_def re_space_def is_space_def int64_range_def Let_def)

definition sample_running :: "goint \<Rightarrow> Discovery" where
  "sample_running interval = \<lparr>dsc_kind = KStatic, dsc_cfg = sample_discovery, dsc_RetryWait = 0,
     dsc_interval = interval, dsc_backends = [], dsc_pc = Fetching\<rparr>"

section \<open>Backend lines\<close>

text \<open>C31: A static list that writes each backend out as \<open>host:port weight=.. priority=..
  max_connections=.. sni=..\<close> is read back as exactly these backends, in order, each live and with
  zero statistics.\<close>

theorem static_list_roundtrip:
  assumes "\<forall>b\<in>set bs. printable b" and "disc_Static cfg = Some (Some (map show_backend bs))"
  shows "staticFetch cfg = Ok bs"
  by (rule staticFetch_show [OF assms])

theorem static_list_roundtrip_witness:
  "staticFetch (sample_discovery\<lparr>disc_Static := Some (Some [''10.0.0.1:80 weight=2 priority=1 max_connections=5 sni=a.org''])\<rparr>)
   = Ok [plain_backend]"
proof -
  have line: "show_backend plain_backend = ''10.0.0.1:80 weight=2 priority=1 max_connections=5 sni=a.org''"
    by code_simp
  show ?thesis
    by (intro static_list_roundtrip) (simp_all add: line plain_backend_printable)
qed

section \<open>The discovery goroutine\<close>

text \<open>What discovery publishes is what the fail policy makes of the fetches, in order: every
  success once, every failure as an empty list under \<open>setempty\<close> and not at all under \<open>keeplast\<close>.
  While the goroutine runs, nothing is missing but the update it is about to send; when it was
  stopped, at most the last update is lost.\<close>

theorem discovery_publishes:
  assumes "disc_run es d = Some (d', out)" and "dsc_pc d = Fetching"
  shows "\<exists>lost. updates (disc_Failpolicy (dsc_cfg d)) (fetched es) = out @ unsent d' @ lost \<and>
    (dsc_pc d' \<noteq> Returned \<longrightarrow> lost = [])"
  using disc_run_out [OF assms(1)] assms(2) by (simp add: unsent_def)

theorem discovery_publishes_witness:
  "\<exists>d' lost. disc_run [Fetched (Ok [plain_backend]) False, Checked False, Sent, TimerFired,
       Fetched (Err ''down'') False, Checked False, Sent] (sample_running 5) = Some (d', [[plain_backend], []]) \<and>
     updates ''setempty'' [Ok [plain_backend], Err ''down''] = [[plain_backend], []] @ unsent d' @ lost"
proof -
  let ?es = "[Fetched (Ok [plain_backend]) False, Checked False, Sent, TimerFired,
       Fetched (Err ''down'') False, Checked False, Sent]"
  have "\<exists>d'. disc_run ?es (sample_running 5) = Some (d', [[plain_backend], []])"
    by (simp add: disc_step_def after_fetch_def after_send_def sample_running_def sample_discovery_def)
  then obtain d' where r: "disc_run ?es (sample_running 5) = Some (d', [[plain_backend], []])" by blast
  have pc: "dsc_pc (sample_running 5) = Fetching" by (simp add: sample_running_def)
  from discovery_publishes [OF r pc] show ?thesis using r
    by (auto simp: sample_running_def sample_discovery_def)
qed

text \<open>With interval 0, the default, the goroutine returns once its first result is taken, and
  from then on receives nothing: a caller of \<open>Stop\<close>, which the scheduler is when its server is
  stopped, waits for ever.\<close>

theorem stop_blocks_after_static:
  assumes "disc_run es d = Some (d', out)" and "dsc_interval d = 0" and "dsc_pc d' = Sending True"
  shows "\<exists>d''. disc_step Sent d' = Some (d'', [dsc_backends d']) \<and> dsc_pc d'' = Returned \<and>
    (\<forall>e. disc_step e d'' = None)"
proof -
  have "disc_step Sent d' = Some (after_send True d', [dsc_backends d'])" using assms(3) by (simp add: disc_step_def)
  with interval_0_returns [OF assms(1,2) this assms(3)] show ?thesis by blast
qed

theorem stop_blocks_after_static_witness:
  "\<exists>d' d''. disc_run [Fetched (Ok [plain_backend]) False, Checked False] (sample_running 0) = Some (d', []) \<and>
     disc_step Sent d' = Some (d'', [[plain_backend]]) \<and> disc_step StopReceived d'' = None"
proof -
  have "\<exists>d'. disc_run [Fetched (Ok [plain_backend]) False, Checked False] (sample_running 0) = Some (d', []) \<and>
    dsc_pc d' = Sending True \<and> dsc_backends d' = [plain_backend]"
    by (simp add: disc_step_def after_fetch_def sample_running_def)
  then obtain d' where d: "disc_run [Fetched (Ok [plain_backend]) False, Checked False] (sample_running 0) = Some (d', [])"
    "dsc_pc d' = Sending True" "dsc_backends d' = [plain_backend]" by blast
  have "dsc_interval (sample_running 0) = 0" by (simp add: sample_running_def)
  from stop_blocks_after_static [OF d(1) this d(2)] d show ?thesis by auto
qed

section \<open>DNS\<close>

text \<open>
  The reference: the address of every target is looked up afresh, in the additional section or else
  by an A and then an AAAA query.
\<close>

definition resolve :: "dns \<Rightarrow> (string \<times> string) list \<Rightarrow> string \<Rightarrow> string option" where
  "resolve dns hosts target = (case map_of hosts target of Some ip \<Rightarrow> Some ip
     | None \<Rightarrow> (let ip4 = srvIPLookup dns target TypeA;
                   ip = (if ip4 = [] then srvIPLookup dns target TypeAAAA else ip4)
               in if ip = [] then None else Some ip))"

definition srv_reference :: "dns \<Rightarrow> (string \<times> string) list \<Rightarrow> dns_rr \<Rightarrow> Backend option" where
  "srv_reference dns hosts rr = map_option (\<lambda>ip. srv_backend ip (srv_target rr) (srv_port rr) (srv_priority rr) (srv_weight rr))
     (resolve dns hosts (srv_target rr))"

lemma srv_answers_reference:
  "\<forall>rr\<in>set rs. is_DnsSRV rr \<Longrightarrow> \<forall>t. resolve dns hosts t = resolve dns extra t \<Longrightarrow>
   srv_answers dns hosts rs = Ok (List.map_filter (srv_reference dns extra) rs)"
proof (induction dns hosts rs rule: srv_answers.induct)
  case (2 dns hosts target port priority weight rs)
  let ?ip4 = "srvIPLookup dns target TypeA"
  define ip where "ip = (if ?ip4 = [] then srvIPLookup dns target TypeAAAA else ?ip4)"
  have all: "\<forall>rr\<in>set rs. is_DnsSRV rr" using 2(4) by simp
  have here: "resolve dns extra target = resolve dns hosts target" using 2(5) by simp
  show ?case
  proof (cases "map_of hosts target")
    case (Some a)
    then have "resolve dns extra target = Some a" using here by (simp add: resolve_def)
    then show ?thesis using Some 2(3) [OF Some all 2(5)]
      by (simp add: srv_reference_def map_filter_simps)
  next
    case None
    then have r: "resolve dns extra target = (if ip = [] then None else Some ip)"
      using here by (simp add: resolve_def ip_def Let_def)
    have "\<forall>t. resolve dns ((target, ip) # hosts) t = resolve dns extra t" if "ip \<noteq> []"
      using 2(5) r that by (auto simp: resolve_def)
    then show ?thesis using None 2(1) [OF None refl ip_def _ all 2(5)] 2(2) [OF None refl ip_def _ all] r
      by (auto simp: srv_reference_def map_filter_simps ip_def [symmetric] Let_def simp del: srv_answers.simps(2)
          simp: srv_answers.simps(2) [of dns hosts target port priority weight rs])
  qed
qed (simp_all add: map_filter_simps)

text \<open>C32: Caching the looked up addresses changes nothing: the SRV discovery returns, in the order of
  the answer, the backends that the reference gives, which resolves each target on its own and leaves
  out the targets without an address.\<close>

theorem srv_fetch_reference:
  assumes "disc_Srv cfg = Some r" and "server (SrvLookupServer r) (SrvLookupPattern r) TypeSRV = Some (answer, extra)"
    and "\<forall>rr\<in>set answer. is_DnsSRV rr"
  shows "srvFetch server cfg =
    Ok (List.map_filter (srv_reference (server (SrvLookupServer r)) (extra_hosts extra)) answer)"
  using srv_answers_reference [OF assms(3) allI [OF refl]] assms(1,2)
  by (simp add: srvFetch_def need_def map_filter_simps)

text \<open>A server with one address in the additional section, one found by a query, and one not found.\<close>

definition sample_dns :: "string \<Rightarrow> dns" where
  "sample_dns server name typ =
     (if typ = TypeSRV then Some ([DnsSRV ''a.org.'' 80 1 5, DnsSRV ''b.org.'' 81 1 5, DnsSRV ''c.org.'' 82 1 5, DnsSRV ''b.org.'' 83 1 5],
        [DnsA ''a.org.'' ''10.0.0.1''])
      else if name = ''b.org.'' \<and> typ = TypeAAAA then Some ([DnsAAAA ''b.org.'' ''fe80::1''], [])
      else Some ([], []))"

definition srv_discovery :: DiscoveryConfig where
  "srv_discovery = sample_discovery\<lparr>disc_Srv := Some \<lparr>SrvLookupServer = ''10.0.0.53'', SrvLookupPattern = ''_http._tcp.org.'',
     SrvDnsProtocol = ''udp''\<rparr>\<rparr>"

theorem srv_fetch_reference_witness:
  "srvFetch sample_dns srv_discovery = Ok (map (\<lambda>(h, n, p). srv_backend h n p 1 5)
     [(''10.0.0.1'', ''a.org.'', 80), (''[fe80::1]'', ''b.org.'', 81), (''[fe80::1]'', ''b.org.'', 83)])"
proof -
  let ?answer = "[DnsSRV ''a.org.'' 80 1 5, DnsSRV ''b.org.'' 81 1 5, DnsSRV ''c.org.'' 82 1 5, DnsSRV ''b.org.'' 83 1 5]"
  let ?r = "\<lparr>SrvLookupServer = ''10.0.0.53'', SrvLookupPattern = ''_http._tcp.org.'', SrvDnsProtocol = ''udp''\<rparr>"
  have "disc_Srv srv_discovery = Some ?r" by (simp add: srv_discovery_def)
  moreover have "sample_dns (SrvLookupServer ?r) (SrvLookupPattern ?r) TypeSRV = Some (?answer, [DnsA ''a.org.'' ''10.0.0.1''])"
    by (simp add: sample_dns_def)
  ultimately have "srvFetch sample_dns srv_discovery =
      Ok (List.map_filter (srv_reference (sample_dns (SrvLookupServer ?r)) (extra_hosts [DnsA ''a.org.'' ''10.0.0.1''])) ?answer)"
    by (rule srv_fetch_reference) simp
  then show ?thesis
    by (simp add: map_filter_simps srv_reference_def resolve_def srvIPLookup_def sample_dns_def)
qed

end
