(* ===== verification/Stats.thy ===== *)
theory Stats
  imports Counters
begin

text \<open>
  Server statistics (src/src/stats): the handler of one server, whose goroutine collects what the
  server and its scheduler report, and the store of handlers by server name. A pointer to a handler
  is its index in \<open>sto_objs\<close>. Sends to the handler's goroutine and the counters are steps here;
  metrics are left out.
\<close>

record Stats =
  st_ActiveConnections :: uint64
  st_RxTotal :: uint64
  st_TxTotal :: uint64
  st_RxSecond :: uint64
  st_TxSecond :: uint64
  st_Backends :: "Backend list"

definition zero_server_stats :: Stats where
  "zero_server_stats = \<lparr>st_ActiveConnections = 0, st_RxTotal = 0, st_TxTotal = 0, st_RxSecond = 0,
     st_TxSecond = 0, st_Backends = []\<rparr>"

text \<open>
  \<open>hd_forwarding\<close>: the goroutines that a received delta starts, each before its send to the server
  counter (\<open>False\<close>) or between its two sends (\<open>True\<close>).
\<close>

record Handler =
  hd_Name :: string
  hd_serverCounter :: BandwidthCounter
  hd_BackendsCounter :: counters
  hd_latestStats :: Stats
  hd_forwarding :: "(bool \<times> ReadWriteCount) list"
  hd_running :: bool
  hd_closed :: bool

record Store =
  sto_handlers :: "string \<rightharpoonup> nat"
  sto_objs :: "Handler list"

definition empty_store :: Store where
  "empty_store = \<lparr>sto_handlers = Map.empty, sto_objs = []\<rparr>"

definition NewHandler :: "string \<Rightarrow> Store \<Rightarrow> nat \<times> Store" where
  "NewHandler name sto =
     (let i = length (sto_objs sto);
          h = \<lparr>hd_Name = name, hd_serverCounter = NewBandwidthCounter INTERVAL, hd_BackendsCounter = Map.empty,
               hd_latestStats = zero_server_stats, hd_forwarding = [], hd_running = False, hd_closed = False\<rparr>
      in (i, sto\<lparr>sto_handlers := (sto_handlers sto)(name \<mapsto> i), sto_objs := sto_objs sto @ [h]\<rparr>))"

definition update_handler :: "nat \<Rightarrow> (Handler \<Rightarrow> Handler) \<Rightarrow> Store \<Rightarrow> Store" where
  "update_handler i f sto = sto\<lparr>sto_objs := (sto_objs sto)[i := f (sto_objs sto ! i)]\<rparr>"

definition Handler_Start :: "nat \<Rightarrow> Store \<Rightarrow> Store" where
  "Handler_Start i = update_handler i (\<lambda>h. h\<lparr>hd_running := True\<rparr>)"

text \<open>
  The stop branch. A handler leaves the store only while the store still holds it under its name.
\<close>

definition Handler_stop :: "nat \<Rightarrow> Store \<Rightarrow> Store" where
  "Handler_stop i sto =
     (let name = hd_Name (sto_objs sto ! i);
          sto = update_handler i (\<lambda>h. h\<lparr>hd_running := False, hd_closed := True, hd_BackendsCounter := Map.empty\<rparr>) sto
      in if sto_handlers sto name = Some i then sto\<lparr>sto_handlers := (sto_handlers sto)(name := None)\<rparr> else sto)"

definition handler_server_stats :: "BandwidthStats \<Rightarrow> Handler \<Rightarrow> Handler" where
  "handler_server_stats b h = h\<lparr>hd_latestStats := (hd_latestStats h)\<lparr>st_RxTotal := RxTotal b, st_TxTotal := TxTotal b,
     st_RxSecond := bs_RxSecond b, st_TxSecond := bs_TxSecond b\<rparr>\<rparr>"

definition handler_backends :: "Backend list \<Rightarrow> Handler \<Rightarrow> Handler" where
  "handler_backends bs h = h\<lparr>hd_latestStats := (hd_latestStats h)\<lparr>st_Backends := bs\<rparr>\<rparr>"

definition handler_connections :: "uint64 \<Rightarrow> Handler \<Rightarrow> Handler" where
  "handler_connections n h = h\<lparr>hd_latestStats := (hd_latestStats h)\<lparr>st_ActiveConnections := n\<rparr>\<rparr>"

definition handler_traffic :: "ReadWriteCount \<Rightarrow> Handler \<Rightarrow> Handler" where
  "handler_traffic rwc h = h\<lparr>hd_forwarding := hd_forwarding h @ [(False, rwc)]\<rparr>"

text \<open>
  The next send of the \<open>k\<close>-th forwarding goroutine: to the server counter, then to the counter of
  the backend. The counters' stop closes both channels, and a send on a closed channel panics.
\<close>

definition forward_step :: "nat \<Rightarrow> Handler \<Rightarrow> Handler outcome" where
  "forward_step k h =
     (let (half, rwc) = hd_forwarding h ! k
      in if hd_closed h then Panic
         else if \<not> half then
           Ok (h\<lparr>hd_serverCounter := counter_traffic rwc (hd_serverCounter h),
                 hd_forwarding := (hd_forwarding h)[k := (True, rwc)]\<rparr>)
         else
           Ok (h\<lparr>hd_BackendsCounter := route_traffic rwc (hd_BackendsCounter h),
                 hd_forwarding := take k (hd_forwarding h) @ drop (Suc k) (hd_forwarding h)\<rparr>))"

text \<open>The server counter's tick, and its stats on their way through \<open>ServerStats\<close>.\<close>

definition server_tick :: "Handler \<Rightarrow> Handler outcome" where
  "server_tick h = bind_outcome (counter_tick (hd_serverCounter h))
     (\<lambda>c. Ok (handler_server_stats (bc_Stats c) (h\<lparr>hd_serverCounter := c\<rparr>)))"

datatype handler_event =
    ServerTick
  | GotBackends "Backend list"
  | GotConnections uint64
  | GotTraffic ReadWriteCount
  | Forward nat

definition handler_step :: "handler_event \<Rightarrow> Handler \<Rightarrow> Handler outcome option" where
  "handler_step ev h = (case ev of
       Forward k \<Rightarrow> if k < length (hd_forwarding h) then Some (forward_step k h) else None
     | ServerTick \<Rightarrow> if hd_running h then Some (server_tick h) else None
     | GotBackends bs \<Rightarrow> if hd_running h then Some (Ok (handler_backends bs h)) else None
     | GotConnections n \<Rightarrow> if hd_running h then Some (Ok (handler_connections n h)) else None
     | GotTraffic rwc \<Rightarrow> if hd_running h then Some (Ok (handler_traffic rwc h)) else None)"

inductive handler_run :: "Handler \<Rightarrow> handler_event list \<Rightarrow> Handler \<Rightarrow> bool" for h where
  handler_start: "handler_run h [] h"
| handler_next: "handler_run h evs h' \<Longrightarrow> handler_step ev h' = Some (Ok h'') \<Longrightarrow> handler_run h (evs @ [ev]) h''"

definition GetStats :: "string \<Rightarrow> Store \<Rightarrow> Stats option" where
  "GetStats name sto = map_option (\<lambda>i. hd_latestStats (sto_objs sto ! i)) (sto_handlers sto name)"

section \<open>Lemmas: the store\<close>

text \<open>A name maps to a handler of that name.\<close>

definition store_inv :: "Store \<Rightarrow> bool" where
  "store_inv sto \<longleftrightarrow> (\<forall>name i. sto_handlers sto name = Some i \<longrightarrow>
     i < length (sto_objs sto) \<and> hd_Name (sto_objs sto ! i) = name)"

lemma store_inv_empty: "store_inv empty_store"
  by (simp add: store_inv_def empty_store_def)

lemma store_inv_NewHandler: "store_inv sto \<Longrightarrow> NewHandler name sto = (i, sto') \<Longrightarrow> store_inv sto'"
  by (auto simp: store_inv_def NewHandler_def Let_def nth_append less_Suc_eq split: if_splits)

lemma store_inv_update:
  "store_inv sto \<Longrightarrow> (\<And>h. hd_Name (f h) = hd_Name h) \<Longrightarrow> store_inv (update_handler i f sto)"
  by (auto simp: store_inv_def update_handler_def nth_list_update) (metis nth_list_update_neq nth_list_update_eq)

lemma store_inv_stop: "store_inv sto \<Longrightarrow> store_inv (Handler_stop i sto)"
  using store_inv_update [of sto "\<lambda>h. h\<lparr>hd_running := False, hd_closed := True, hd_BackendsCounter := Map.empty\<rparr>" i]
  by (auto simp: Handler_stop_def Let_def store_inv_def)

lemma handlers_update [simp]: "sto_handlers (update_handler i f sto) = sto_handlers sto"
  by (simp add: update_handler_def)

lemma length_update [simp]: "length (sto_objs (update_handler i f sto)) = length (sto_objs sto)"
  by (simp add: update_handler_def)

lemma handlers_stop:
  assumes "store_inv sto"
  shows "sto_handlers (Handler_stop i sto) n = (if sto_handlers sto n = Some i then None else sto_handlers sto n)"
proof (cases "sto_handlers sto n = Some i")
  case True
  then have "hd_Name (sto_objs sto ! i) = n" using assms by (simp add: store_inv_def)
  then show ?thesis using True by (simp add: Handler_stop_def Let_def)
next
  case False
  then show ?thesis by (auto simp: Handler_stop_def Let_def)
qed

section \<open>Lemmas: one handler\<close>

text \<open>No byte is lost or counted twice: what was received has been counted or is being forwarded.\<close>

definition received :: "handler_event list \<Rightarrow> ReadWriteCount list" where
  "received evs = concat (map (\<lambda>e. case e of GotTraffic rwc \<Rightarrow> [rwc] | _ \<Rightarrow> []) evs)"

definition half_bytes :: "bool \<times> ReadWriteCount \<Rightarrow> uint64" where
  "half_bytes p = (if fst p then 0 else CountRead (snd p))"

definition waiting_bytes :: "Handler \<Rightarrow> uint64" where
  "waiting_bytes h = sum_list (map half_bytes (hd_forwarding h))"

lemma sum_list_at:
  fixes f :: "'a \<Rightarrow> uint64"
  assumes "k < length xs"
  shows "sum_list (map f xs) = sum_list (map f (take k xs)) + f (xs ! k) + sum_list (map f (drop (Suc k) xs))"
proof -
  have "map f xs = map f (take k xs) @ f (xs ! k) # map f (drop (Suc k) xs)"
    using id_take_nth_drop [OF assms] by (metis list.simps(9) map_append)
  then show ?thesis by (simp add: add.assoc)
qed

lemma counter_tick_totals:
  "counter_tick c = Ok c' \<Longrightarrow> RxTotal (bc_Stats c') = RxTotal (bc_Stats c) \<and> TxTotal (bc_Stats c') = TxTotal (bc_Stats c)"
  by (auto simp: counter_tick_def Let_def split: if_splits)

lemma forward_step_bytes:
  assumes "forward_step k h = Ok h'" and "k < length (hd_forwarding h)"
  shows "RxTotal (bc_Stats (hd_serverCounter h')) + waiting_bytes h' = RxTotal (bc_Stats (hd_serverCounter h)) + waiting_bytes h"
proof -
  obtain half rwc where k: "hd_forwarding h ! k = (half, rwc)" by fastforce
  note sum = sum_list_at [OF assms(2), of half_bytes]
  show ?thesis
  proof (cases half)
    case True
    then have "h' = h\<lparr>hd_BackendsCounter := route_traffic rwc (hd_BackendsCounter h),
      hd_forwarding := take k (hd_forwarding h) @ drop (Suc k) (hd_forwarding h)\<rparr>"
      using assms k by (simp add: forward_step_def split: if_splits)
    then show ?thesis using sum k True by (simp add: waiting_bytes_def half_bytes_def)
  next
    case False
    then have h': "h' = h\<lparr>hd_serverCounter := counter_traffic rwc (hd_serverCounter h),
      hd_forwarding := (hd_forwarding h)[k := (True, rwc)]\<rparr>"
      using assms k by (simp add: forward_step_def split: if_splits)
    have "(hd_forwarding h)[k := (True, rwc)] = take k (hd_forwarding h) @ (True, rwc) # drop (Suc k) (hd_forwarding h)"
      using assms(2) by (rule upd_conv_take_nth_drop)
    then show ?thesis using sum k False h' by (simp add: waiting_bytes_def half_bytes_def counter_traffic_def)
  qed
qed

lemma handler_step_bytes:
  assumes "handler_step ev h = Some (Ok h')"
  shows "RxTotal (bc_Stats (hd_serverCounter h')) + waiting_bytes h' =
    RxTotal (bc_Stats (hd_serverCounter h)) + waiting_bytes h + sum_list (map CountRead (received [ev]))"
proof (cases ev)
  case (Forward k)
  then show ?thesis using assms forward_step_bytes [of k h h']
    by (auto simp: handler_step_def received_def split: if_splits)
next
  case ServerTick
  then show ?thesis using assms counter_tick_totals
    by (fastforce simp: handler_step_def server_tick_def handler_server_stats_def waiting_bytes_def received_def
        split: if_splits)
qed (use assms in \<open>auto simp: handler_step_def handler_backends_def handler_connections_def handler_traffic_def
  waiting_bytes_def half_bytes_def received_def split: if_splits\<close>)

lemma handler_run_bytes:
  "handler_run h evs h' \<Longrightarrow> RxTotal (bc_Stats (hd_serverCounter h')) + waiting_bytes h' =
    RxTotal (bc_Stats (hd_serverCounter h)) + waiting_bytes h + sum_list (map CountRead (received evs))"
proof (induction rule: handler_run.induct)
  case (handler_next evs h' ev h'')
  then show ?case using handler_step_bytes [OF handler_next.hyps(2)]
    by (simp add: received_def algebra_simps)
qed (simp add: received_def)

end
