(* ===== verification/Tls_Util.thy ===== *)
theory Tls_Util
  imports Config
begin

text \<open>
  The mapping of TLS settings to \<open>crypto/tls\<close> configurations (src/src/utils/tls/tls.go). The file
  system and the certificate parsers are parameters: \<open>load_pair cert key\<close> is
  \<open>tls.LoadX509KeyPair\<close>, \<open>read_file\<close> is \<open>os.ReadFile\<close>, \<open>pem\<close> is \<open>AppendCertsFromPEM\<close> on a fresh
  pool; \<open>None\<close> is a failure.
\<close>

definition suites :: "string \<Rightarrow> nat" where
  "suites s = (case map_of
     [(''TLS_RSA_WITH_RC4_128_SHA'', 0x0005), (''TLS_RSA_WITH_3DES_EDE_CBC_SHA'', 0x000a),
      (''TLS_RSA_WITH_AES_128_CBC_SHA'', 0x002f), (''TLS_RSA_WITH_AES_256_CBC_SHA'', 0x0035),
      (''TLS_RSA_WITH_AES_128_CBC_SHA256'', 0x003c), (''TLS_RSA_WITH_AES_128_GCM_SHA256'', 0x009c),
      (''TLS_RSA_WITH_AES_256_GCM_SHA384'', 0x009d), (''TLS_ECDHE_ECDSA_WITH_RC4_128_SHA'', 0xc007),
      (''TLS_ECDHE_ECDSA_WITH_AES_128_CBC_SHA'', 0xc009), (''TLS_ECDHE_ECDSA_WITH_AES_256_CBC_SHA'', 0xc00a),
      (''TLS_ECDHE_RSA_WITH_RC4_128_SHA'', 0xc011), (''TLS_ECDHE_RSA_WITH_3DES_EDE_CBC_SHA'', 0xc012),
      (''TLS_ECDHE_RSA_WITH_AES_128_CBC_SHA'', 0xc013), (''TLS_ECDHE_RSA_WITH_AES_256_CBC_SHA'', 0xc014),
      (''TLS_ECDHE_ECDSA_WITH_AES_128_CBC_SHA256'', 0xc023), (''TLS_ECDHE_RSA_WITH_AES_128_CBC_SHA256'', 0xc027),
      (''TLS_ECDHE_RSA_WITH_AES_128_GCM_SHA256'', 0xc02f), (''TLS_ECDHE_ECDSA_WITH_AES_128_GCM_SHA256'', 0xc02b),
      (''TLS_ECDHE_RSA_WITH_AES_256_GCM_SHA384'', 0xc030), (''TLS_ECDHE_ECDSA_WITH_AES_256_GCM_SHA384'', 0xc02c),
      (''TLS_ECDHE_RSA_WITH_CHACHA20_POLY1305_SHA256'', 0xcca8),
      (''TLS_ECDHE_ECDSA_WITH_CHACHA20_POLY1305_SHA256'', 0xcca9),
      (''TLS_AES_128_GCM_SHA256'', 0x1301), (''TLS_AES_256_GCM_SHA384'', 0x1302),
      (''TLS_CHACHA20_POLY1305_SHA256'', 0x1303)] s of None \<Rightarrow> 0 | Some n \<Rightarrow> n)"

definition MapVersion :: "string \<Rightarrow> nat" where
  "MapVersion version = (case map_of
     [(''tls1'', 0x0301), (''tls1.1'', 0x0302), (''tls1.2'', 0x0303), (''tls1.3'', 0x0304)] version of
       None \<Rightarrow> 0 | Some n \<Rightarrow> n)"

definition MapCiphers :: "string slice \<Rightarrow> nat slice" where
  "MapCiphers ciphers =
     (if elems ciphers = [] then None
      else Some (filter (\<lambda>c. c \<noteq> 0) (map suites (elems ciphers))))"

record ('cert, 'pool) TlsConfig =
  tc_CipherSuites :: "nat slice"
  tc_MinVersion :: nat
  tc_MaxVersion :: nat
  tc_SessionTicketsDisabled :: bool
  tc_InsecureSkipVerify :: bool
  tc_Certificates :: "'cert slice"
  tc_RootCAs :: "'pool option"
  tc_GetCertificate :: bool

definition common_tls :: "tlsCommon \<Rightarrow> bool \<Rightarrow> ('cert, 'pool) TlsConfig" where
  "common_tls c skip = \<lparr>tc_CipherSuites = MapCiphers (tls_Ciphers c),
     tc_MinVersion = MapVersion (tls_MinVersion c), tc_MaxVersion = MapVersion (tls_MaxVersion c),
     tc_SessionTicketsDisabled = (\<not> tls_SessionTickets c), tc_InsecureSkipVerify = skip,
     tc_Certificates = None, tc_RootCAs = None, tc_GetCertificate = False\<rparr>"

text \<open>\<open>has_getter\<close>: an external service (ACME) has set \<open>GetCertificate\<close>.\<close>

definition MakeTlsConfig ::
    "(string \<Rightarrow> string \<Rightarrow> 'cert option) \<Rightarrow> Tls option \<Rightarrow> bool \<Rightarrow> ('cert, 'pool) TlsConfig option outcome" where
  "MakeTlsConfig load_pair tlsC has_getter =
     (case tlsC of None \<Rightarrow> Ok None
      | Some t \<Rightarrow>
          if has_getter then Ok (Some ((common_tls (tls_common t) False)\<lparr>tc_GetCertificate := True\<rparr>))
          else (case load_pair (tls_CertPath t) (tls_KeyPath t) of
              None \<Rightarrow> Err ''LoadX509KeyPair''
            | Some crt \<Rightarrow> Ok (Some ((common_tls (tls_common t) False)\<lparr>tc_Certificates := Some [crt]\<rparr>))))"

text \<open>
  \<open>MakeBackendTLSConfig\<close>. When the CA file holds no certificate the source returns
  \<open>nil, err\<close> with an \<open>err\<close> that is nil: \<open>Ok None\<close>.
\<close>

definition MakeBackendTLSConfig ::
    "(string \<Rightarrow> string \<Rightarrow> 'cert option) \<Rightarrow> (string \<Rightarrow> string option) \<Rightarrow> (string \<Rightarrow> 'pool option) \<Rightarrow>
     BackendsTls option \<Rightarrow> ('cert, 'pool) TlsConfig option outcome" where
  "MakeBackendTLSConfig load_pair read_file pem backendsTls =
     (case backendsTls of None \<Rightarrow> Ok None
      | Some b \<Rightarrow>
          bind_outcome
            (case (btls_CertPath b, btls_KeyPath b) of
               (Some c, Some k) \<Rightarrow> (case load_pair c k of
                   None \<Rightarrow> Err ''LoadX509KeyPair''
                 | Some crt \<Rightarrow> Ok ((common_tls (btls_common b) (btls_IgnoreVerify b))
                     \<lparr>tc_Certificates := Some [crt]\<rparr>))
             | _ \<Rightarrow> Ok (common_tls (btls_common b) (btls_IgnoreVerify b)))
            (\<lambda>result.
              case btls_RootCaCertPath b of None \<Rightarrow> Ok (Some result)
              | Some path \<Rightarrow> (case read_file path of
                    None \<Rightarrow> Err ''ReadFile''
                  | Some p \<Rightarrow> (case pem p of
                        None \<Rightarrow> Ok None
                      | Some pool \<Rightarrow> Ok (Some (result\<lparr>tc_RootCAs := Some pool\<rparr>))))))"

section \<open>Lemmas\<close>

text \<open>The configuration of a server that was given TLS to its backends and no error.\<close>

lemma MakeBackendTLSConfig_ok:
  assumes "MakeBackendTLSConfig load_pair read_file pem (Some b) = Ok (Some c)"
  shows "tc_InsecureSkipVerify c = btls_IgnoreVerify b \<and>
    (btls_RootCaCertPath b \<noteq> None \<longrightarrow> tc_RootCAs c \<noteq> None) \<and>
    (btls_CertPath b \<noteq> None \<and> btls_KeyPath b \<noteq> None \<longrightarrow> tc_Certificates c \<noteq> None)"
  using assms
  by (auto simp: MakeBackendTLSConfig_def bind_outcome_Ok_iff common_tls_def split: option.splits)

end
