(* ===== verification/Servers.thy ===== *)
theory Servers
  imports Fetch Stats Tls_Util Udp_Server
begin

text \<open>
  Making, starting and stopping a server (\<open>New\<close>, \<open>Start\<close> and \<open>Stop\<close> of src/src/server/tcp/server.go and
  src/src/server/udp/server.go, with the switch of src/src/server/server.go), and the ACME service
  (src/src/service/acme.go). Loading certificates and files and binding sockets are data.
\<close>

record world =
  w_load_pair :: "string \<Rightarrow> string \<Rightarrow> string option"
  w_read_file :: "string \<Rightarrow> string option"
  w_pem :: "string \<Rightarrow> string option"
  w_listen :: "string \<Rightarrow> string \<Rightarrow> bool"

text \<open>
  A server object of either kind. \<open>as_cfg\<close> is what \<open>Cfg()\<close> shows after the constructor: the defaults
  that the discovery's constructor writes behind shared pointers are in it.
\<close>

record AServer =
  as_name :: string
  as_tcp :: bool
  as_cfg :: Server
  as_handler :: nat
  as_balancer :: Balancer
  as_discovery :: Discovery
  as_healthcheck :: Healthcheck
  as_access :: "Access option"
  as_backendsTls :: "(string, string) TlsConfig option"
  as_sourcePool :: "SourcePool option"
  as_GetCertificate :: bool
  as_tlsConfig :: "(string, string) TlsConfig option"

definition make_access :: "Server \<Rightarrow> Access option outcome" where
  "make_access cfg = (case srv_Access cfg of None \<Rightarrow> Ok None
     | Some a \<Rightarrow> bind_outcome (NewAccess (Some a)) (\<lambda>acc. Ok (Some acc)))"

definition make_sources :: "Server \<Rightarrow> SourcePool option outcome" where
  "make_sources cfg = (case co_Sources (srv_Options cfg) of None \<Rightarrow> Ok None
     | Some s \<Rightarrow> if s = [] then Ok None else NewIPv6SourcePool s)"

definition tcp_New :: "world \<Rightarrow> string \<Rightarrow> Server \<Rightarrow> Store \<Rightarrow> Store \<times> AServer outcome" where
  "tcp_New w name cfg sto =
     (let (hid, sto) = NewHandler name sto
      in (sto,
        need (srv_Healthcheck cfg) (\<lambda>h.
        bind_outcome (Balance_New (srv_Sni cfg) (srv_Balance cfg)) (\<lambda>bal.
        need (srv_Discovery cfg) (\<lambda>dcfg.
        bind_outcome (Discovery_New (disc_Kind dcfg) dcfg) (\<lambda>d.
        bind_outcome (make_access cfg) (\<lambda>acc.
        bind_outcome (MakeBackendTLSConfig (w_load_pair w) (w_read_file w) (w_pem w) (srv_BackendsTls cfg)) (\<lambda>btls.
        bind_outcome (make_sources cfg) (\<lambda>sp.
          Ok \<lparr>as_name = name, as_tcp = True, as_cfg = cfg\<lparr>srv_Discovery := Some (dsc_cfg d)\<rparr>, as_handler = hid,
              as_balancer = bal, as_discovery = d,
              as_healthcheck = Healthcheck_New (h\<lparr>hc_ProxyProtocol := srv_ProxyProtocol cfg\<rparr>),
              as_access = acc, as_backendsTls = btls, as_sourcePool = sp,
              as_GetCertificate = False, as_tlsConfig = None\<rparr>)))))))))"

definition udp_New :: "string \<Rightarrow> Server \<Rightarrow> Store \<Rightarrow> Store \<times> AServer outcome" where
  "udp_New name cfg sto =
     (let (hid, sto) = NewHandler name sto
      in (sto,
        bind_outcome (Balance_New None (srv_Balance cfg)) (\<lambda>bal.
        need (srv_Discovery cfg) (\<lambda>dcfg.
        bind_outcome (Discovery_New (disc_Kind dcfg) dcfg) (\<lambda>d.
        need (srv_Healthcheck cfg) (\<lambda>h.
        bind_outcome (make_sources cfg) (\<lambda>sp.
        bind_outcome (make_access cfg) (\<lambda>acc.
          Ok \<lparr>as_name = name, as_tcp = False, as_cfg = cfg\<lparr>srv_Discovery := Some (dsc_cfg d)\<rparr>, as_handler = hid,
              as_balancer = bal, as_discovery = d, as_healthcheck = Healthcheck_New h,
              as_access = acc, as_backendsTls = None, as_sourcePool = sp,
              as_GetCertificate = False, as_tlsConfig = None\<rparr>))))))))"

definition server_New :: "world \<Rightarrow> string \<Rightarrow> Server \<Rightarrow> Store \<Rightarrow> Store \<times> AServer outcome" where
  "server_New w name cfg sto =
     (if srv_Protocol cfg = ''tls'' \<or> srv_Protocol cfg = ''tcp'' then tcp_New w name cfg sto
      else if srv_Protocol cfg = ''udp'' then udp_New name cfg sto
      else (sto, Err (''Can't create server for protocol '' @ srv_Protocol cfg)))"

section \<open>Start and stop\<close>

text \<open>The goroutines of the stats handler and of the scheduler, whose first step starts discovery.\<close>

definition start_scheduler :: "AServer \<Rightarrow> AServer outcome" where
  "start_scheduler s = bind_outcome (Discovery_Start (as_discovery s)) (\<lambda>d. Ok (s\<lparr>as_discovery := d\<rparr>))"

definition Server_Stop :: "AServer \<Rightarrow> Store \<Rightarrow> Store" where
  "Server_Stop s sto = Handler_stop (as_handler s) sto"

definition tcp_Start :: "world \<Rightarrow> AServer \<Rightarrow> Store \<Rightarrow> Store \<times> AServer outcome" where
  "tcp_Start w s sto =
     (case MakeTlsConfig (w_load_pair w) (srv_Tls (as_cfg s)) (as_GetCertificate s) of
        Err e \<Rightarrow> (sto, Err e)
      | Panic \<Rightarrow> (sto, Panic)
      | Ok tls \<Rightarrow>
          (case start_scheduler (s\<lparr>as_tlsConfig := tls\<rparr>) of
             Err e \<Rightarrow> (sto, Err e)
           | Panic \<Rightarrow> (sto, Panic)
           | Ok s \<Rightarrow>
               (let sto = Handler_Start (as_handler s) sto
                in if w_listen w ''tcp'' (srv_Bind (as_cfg s)) then (sto, Ok s)
                   else (Server_Stop s sto, Err (''listen tcp '' @ srv_Bind (as_cfg s))))))"

definition udp_Start :: "world \<Rightarrow> AServer \<Rightarrow> Store \<Rightarrow> Store \<times> AServer outcome" where
  "udp_Start w s sto =
     (if \<not> w_listen w ''udp'' (srv_Bind (as_cfg s)) then (sto, Err ''Could not start listening UDP: '')
      else (Handler_Start (as_handler s) sto,
            bind_outcome (start_scheduler s) (\<lambda>s. bind_outcome (session_config (as_cfg s)) (\<lambda>_. Ok s))))"

definition Server_Start :: "world \<Rightarrow> AServer \<Rightarrow> Store \<Rightarrow> Store \<times> AServer outcome" where
  "Server_Start w s = (if as_tcp s then tcp_Start w s else udp_Start w s)"

section \<open>The ACME service\<close>

text \<open>\<open>a.hosts\<close> as the set of the hosts that map to true.\<close>

fun claim_hosts :: "string list \<Rightarrow> string set \<Rightarrow> string set \<times> unit outcome" where
  "claim_hosts [] hosts = (hosts, Ok ())"
| "claim_hosts (h # hs) hosts =
     (if h \<in> hosts then (hosts, Err (''Acme host '' @ h @ '' is already configured''))
      else claim_hosts hs (insert h hosts))"

text \<open>\<open>None\<close> is a service that is not there (no \<open>[acme]\<close> section).\<close>

definition Acme_Enable :: "AServer \<Rightarrow> string set option \<Rightarrow> string set option \<times> AServer outcome" where
  "Acme_Enable s acme =
     (case acme of None \<Rightarrow> (None, Ok s)
      | Some hosts \<Rightarrow>
          (case srv_Tls (as_cfg s) of None \<Rightarrow> (Some hosts, Ok s)
           | Some t \<Rightarrow>
               if \<not> as_tcp s then (Some hosts, Ok s)
               else (case claim_hosts (elems (tls_AcmeHosts t)) hosts of
                   (hosts, Ok _) \<Rightarrow> (Some hosts, Ok (s\<lparr>as_GetCertificate := True\<rparr>))
                 | (hosts, Err e) \<Rightarrow> (Some hosts, Err e)
                 | (hosts, Panic) \<Rightarrow> (Some hosts, Panic))))"

definition Acme_Disable :: "AServer \<Rightarrow> string set option \<Rightarrow> string set option" where
  "Acme_Disable s acme =
     (case acme of None \<Rightarrow> None
      | Some hosts \<Rightarrow> Some (case srv_Tls (as_cfg s) of None \<Rightarrow> hosts
          | Some t \<Rightarrow> hosts - set (elems (tls_AcmeHosts t))))"

definition NewAcmeService :: "Config \<Rightarrow> string set option" where
  "NewAcmeService cfg = map_option (\<lambda>_. {}) (cfg_Acme cfg)"

section \<open>Lemmas\<close>

lemma server_New_handler:
  assumes "server_New w name cfg sto = (sto', r)" and "srv_Protocol cfg \<in> {''tcp'', ''tls'', ''udp''}"
  shows "sto' = snd (NewHandler name sto) \<and>
    (\<forall>s. r = Ok s \<longrightarrow> as_name s = name \<and> as_handler s = fst (NewHandler name sto) \<and> as_tcp s = (srv_Protocol cfg \<noteq> ''udp'') \<and>
      as_cfg s = cfg\<lparr>srv_Discovery := srv_Discovery (as_cfg s)\<rparr>)"
  using assms
  by (auto simp: server_New_def tcp_New_def udp_New_def need_def Let_def split: prod.splits option.splits if_splits)

lemma claim_hosts_Ok:
  "claim_hosts hs hosts = (hosts', Ok u) \<longleftrightarrow> hosts' = hosts \<union> set hs \<and> distinct hs \<and> set hs \<inter> hosts = {}"
  by (induction hs arbitrary: hosts) auto

lemma Acme_Enable_Disable:
  assumes "Acme_Enable s (Some hosts) = (acme, Ok s')" and "as_tcp s"
  shows "Acme_Disable s' acme = Some hosts"
  using assms
  by (auto simp: Acme_Enable_def Acme_Disable_def claim_hosts_Ok
      split: option.splits if_splits prod.splits outcome.splits)

lemma Server_Start_frame:
  assumes "Server_Start w s sto = (sto', Ok s')"
  shows "sto' = Handler_Start (as_handler s) sto \<and> as_name s' = as_name s \<and> as_handler s' = as_handler s \<and>
    as_cfg s' = as_cfg s \<and> as_tcp s' = as_tcp s"
  using assms
  by (auto simp: Server_Start_def tcp_Start_def udp_Start_def start_scheduler_def Let_def
      split: outcome.splits if_splits)

end
