(* ===== verification/Expand.thy ===== *)
theory Expand
  imports Config Go_Std
begin

text \<open>
  Expanding a server with several addresses into one server per address (\<open>expandBinds\<close>,
  \<open>formatBindAddress\<close> and \<open>rewriteStaticListPorts\<close> in src/src/manager/manager.go). The map that
  \<open>expandBinds\<close> returns is the list of its entries. \<open>text/template\<close> is a parameter for templates of
  the user's own: parsing one may fail, and so may rendering it; the default template is written out.
\<close>

record bindNameData =
  bnd_Name :: string
  bnd_Host :: string
  bnd_Port :: string
  bnd_Index :: nat

type_synonym "template" = "bindNameData \<Rightarrow> string option"

definition formatBindAddress :: "string \<Rightarrow> string \<Rightarrow> string" where
  "formatBindAddress ip port =
     (if has_char CHR '':'' ip \<and> \<not> has_prefix ip ''['' then ''['' @ ip @ '']:'' @ port
      else JoinHostPort ip port)"

definition rewrite_entry :: "string \<Rightarrow> string \<Rightarrow> string" where
  "rewrite_entry port entry =
     (case Fields entry of [] \<Rightarrow> Join [] '' ''
      | p # ps \<Rightarrow> (case SplitHostPort p of
            None \<Rightarrow> Join (p # ps) '' ''
          | Some (host, _) \<Rightarrow> Join (JoinHostPort host port # ps) '' ''))"

definition rewriteStaticListPorts :: "DiscoveryConfig option \<Rightarrow> string \<Rightarrow> DiscoveryConfig option" where
  "rewriteStaticListPorts d port = (case d of None \<Rightarrow> None
     | Some c \<Rightarrow> if disc_Kind c \<noteq> ''static'' then Some c
         else (case disc_Static c of None \<Rightarrow> Some c
           | Some l \<Rightarrow> Some (c\<lparr>disc_Static := Some (Some (map (rewrite_entry port) (elems l)))\<rparr>)))"

definition default_template :: string where
  "default_template = ''{{.Name}}_{{.Host}}_{{.Port}}''"

definition render_default :: "template" where
  "render_default d = Some (bnd_Name d @ ''_'' @ bnd_Host d @ ''_'' @ bnd_Port d)"

definition bind_template :: "(string \<Rightarrow> template option) \<Rightarrow> Server \<Rightarrow> template option" where
  "bind_template parse cfg =
     (if srv_BindNameTemplate cfg = [] \<or> srv_BindNameTemplate cfg = default_template then Some render_default
      else parse (srv_BindNameTemplate cfg))"

definition child_name :: "template \<Rightarrow> string \<Rightarrow> nat \<Rightarrow> string \<Rightarrow> string \<Rightarrow> string" where
  "child_name tmpl name i host port =
     (case tmpl \<lparr>bnd_Name = name, bnd_Host = ReplaceAll_char host CHR '':'' CHR ''-'', bnd_Port = port, bnd_Index = i\<rparr> of
        None \<Rightarrow> name @ ''_'' @ Itoa (int i)
      | Some s \<Rightarrow> s)"

definition child_server :: "Server \<Rightarrow> string \<Rightarrow> string \<Rightarrow> Server" where
  "child_server cfg addr port =
     (let child = cfg\<lparr>srv_Bind := addr, srv_Binds := None\<rparr>
      in if srv_MatchPort cfg then child\<lparr>srv_Discovery := rewriteStaticListPorts (srv_Discovery child) port\<rparr>
         else child)"

fun expand_loop ::
    "template \<Rightarrow> string \<Rightarrow> Server \<Rightarrow> nat \<Rightarrow> string list \<Rightarrow> (string \<times> Server) list \<Rightarrow>
     (string \<times> Server) list outcome" where
  "expand_loop tmpl name cfg i [] result = Ok result"
| "expand_loop tmpl name cfg i (addr # addrs) result =
     (case SplitHostPort addr of
        None \<Rightarrow> Err (''invalid bind address '' @ addr @ '' in server '' @ name)
      | Some (host, port) \<Rightarrow>
          (let child = child_name tmpl name i host port
           in if map_of result child \<noteq> None
              then Err (''duplicate expanded server name '' @ child @ '' in server '' @ name)
              else expand_loop tmpl name cfg (i + 1) addrs (result @ [(child, child_server cfg addr port)])))"

definition generated_binds :: "Server \<Rightarrow> string list" where
  "generated_binds cfg = concat (map (\<lambda>ip. map (\<lambda>port. formatBindAddress ip (Itoa port)) (elems (srv_BindPorts cfg)))
     (elems (srv_BindIPs cfg)))"

definition expandBinds ::
    "(string \<Rightarrow> template option) \<Rightarrow> string \<Rightarrow> Server \<Rightarrow> (string \<times> Server) list outcome" where
  "expandBinds parse name cfg =
     (let hasBinds = (elems (srv_Binds cfg) \<noteq> []);
          hasIPsPorts = (elems (srv_BindIPs cfg) \<noteq> [] \<or> elems (srv_BindPorts cfg) \<noteq> []);
          hasSingleBind = (srv_Bind cfg \<noteq> [])
      in if hasSingleBind \<and> hasBinds \<or> hasSingleBind \<and> hasIPsPorts \<or> hasBinds \<and> hasIPsPorts
         then Err (''server '' @ name @ '': bind, binds, and bind_ips/bind_ports are mutually exclusive; use only one'')
         else if hasIPsPorts \<and> elems (srv_BindIPs cfg) = []
         then Err (''server '' @ name @ '': bind_ips must be non-empty when bind_ports is specified'')
         else if hasIPsPorts \<and> elems (srv_BindPorts cfg) = []
         then Err (''server '' @ name @ '': bind_ports must be non-empty when bind_ips is specified'')
         else
           let cfg = (if hasIPsPorts then cfg\<lparr>srv_Binds := Some (generated_binds cfg), srv_BindIPs := None,
                        srv_BindPorts := None\<rparr> else cfg)
           in if elems (srv_Binds cfg) = [] then Ok [(name, cfg)]
              else (case bind_template parse cfg of
                  None \<Rightarrow> Err (''invalid bind_name_template for server '' @ name)
                | Some tmpl \<Rightarrow> expand_loop tmpl name cfg 0 (elems (srv_Binds cfg)) []))"

text \<open>The addresses a configuration asks for.\<close>

definition wanted_binds :: "Server \<Rightarrow> string list" where
  "wanted_binds cfg = (if elems (srv_BindIPs cfg) \<noteq> [] then generated_binds cfg
     else if elems (srv_Binds cfg) \<noteq> [] then elems (srv_Binds cfg) else [srv_Bind cfg])"

section \<open>Lemmas\<close>

lemma child_server_simps [simp]:
  "srv_Bind (child_server cfg addr port) = addr" "srv_Binds (child_server cfg addr port) = None"
  "srv_BindIPs (child_server cfg addr port) = srv_BindIPs cfg"
  "srv_BindPorts (child_server cfg addr port) = srv_BindPorts cfg"
  by (simp_all add: child_server_def Let_def)

lemma expand_loop_Ok:
  "expand_loop tmpl name cfg i addrs result = Ok cs \<Longrightarrow> distinct (map fst result) \<Longrightarrow>
   distinct (map fst cs) \<and> (\<exists>new. cs = result @ new \<and> map (srv_Bind \<circ> snd) new = addrs \<and>
     (\<forall>c\<in>snd ` set new. \<exists>a p. c = child_server cfg a p))"
proof (induction tmpl name cfg i addrs result rule: expand_loop.induct)
  case (2 tmpl name cfg i addr addrs result)
  then obtain host port where s: "SplitHostPort addr = Some (host, port)"
    by (auto split: option.splits)
  let ?c = "child_name tmpl name i host port"
  have n: "?c \<notin> fst ` set result" and
    r: "expand_loop tmpl name cfg (i + 1) addrs (result @ [(?c, child_server cfg addr port)]) = Ok cs"
    using 2(2) s by (auto simp: Let_def map_of_eq_None_iff split: if_splits)
  from 2(1) [OF s refl refl _ r] n 2(3) obtain new where
    "distinct (map fst cs)" "cs = (result @ [(?c, child_server cfg addr port)]) @ new"
    "map (srv_Bind \<circ> snd) new = addrs" "\<forall>c\<in>snd ` set new. \<exists>a p. c = child_server cfg a p"
    by (auto simp: map_of_eq_None_iff)
  then show ?case by (intro conjI exI [of _ "(?c, child_server cfg addr port) # new"]) auto
qed auto

lemma expandBinds_Ok:
  assumes "expandBinds parse name cfg = Ok cs"
  shows "distinct (map fst cs) \<and> map (srv_Bind \<circ> snd) cs = wanted_binds cfg \<and>
    (\<forall>c\<in>snd ` set cs. elems (srv_Binds c) = [] \<and> elems (srv_BindIPs c) = [] \<and> elems (srv_BindPorts c) = [])"
proof -
  define cfg' where "cfg' = (if elems (srv_BindIPs cfg) \<noteq> [] \<or> elems (srv_BindPorts cfg) \<noteq> []
    then cfg\<lparr>srv_Binds := Some (generated_binds cfg), srv_BindIPs := None, srv_BindPorts := None\<rparr> else cfg)"
  have ips: "elems (srv_BindIPs cfg) \<noteq> [] \<longleftrightarrow> elems (srv_BindPorts cfg) \<noteq> []"
    and gen: "elems (srv_BindIPs cfg) \<noteq> [] \<longrightarrow> generated_binds cfg \<noteq> []"
    and binds: "wanted_binds cfg = (if elems (srv_Binds cfg') = [] then [srv_Bind cfg] else elems (srv_Binds cfg'))"
    using assms by (auto simp: expandBinds_def Let_def generated_binds_def wanted_binds_def cfg'_def split: if_splits)
  have none: "elems (srv_BindIPs cfg') = []" "elems (srv_BindPorts cfg') = []" "srv_Bind cfg' = srv_Bind cfg"
    using ips by (auto simp: cfg'_def)
  show ?thesis
  proof (cases "elems (srv_Binds cfg') = []")
    case True
    then have "cs = [(name, cfg')]" using assms ips gen
      by (auto simp: expandBinds_def Let_def cfg'_def split: if_splits)
    then show ?thesis using True binds none by simp
  next
    case False
    then obtain tmpl where "expand_loop tmpl name cfg' 0 (elems (srv_Binds cfg')) [] = Ok cs"
      using assms ips by (auto simp: expandBinds_def Let_def cfg'_def split: if_splits option.splits)
    from expand_loop_Ok [OF this] False binds none show ?thesis by fastforce
  qed
qed

lemma SplitHostPort_formatBindAddress:
  assumes "CHR '':'' \<notin> set port" and "\<forall>c\<in>set ip \<union> set port. c \<noteq> CHR ''['' \<and> c \<noteq> CHR '']''"
  shows "SplitHostPort (formatBindAddress ip port) = Some (ip, port)"
  using SplitHostPort_Join [OF assms] SplitHostPort_bracketed [OF assms] by (simp add: formatBindAddress_def)

end
