(* ===== verification/Prepare.thy ===== *)
theory Prepare
  imports Config Go_Std Source_Pool
begin

text \<open>
  Preparing a server's configuration (src/src/manager/manager.go): the defaults, and
  \<open>prepareConfig\<close>, which validates a server and fills in what it leaves out. \<open>prepareConfig\<close> gets
  the server by value, but its discovery, health check and SNI records by pointer, and writes to
  them even when it fails later; so a check returns the changed record together with its verdict.
  The messages of library errors are left out. \<open>os.ExpandEnv\<close> and \<open>regexp.Compile\<close> are parameters.
\<close>

record prepare_env =
  pe_home :: string
  pe_regexp_ok :: "string \<Rightarrow> bool"

section \<open>Defaults\<close>

definition normalizeDefaults :: "ConnectionOptions \<Rightarrow> ConnectionOptions" where
  "normalizeDefaults v =
     \<lparr>co_MaxConnections = Some (case co_MaxConnections v of None \<Rightarrow> 0 | Some x \<Rightarrow> x),
      co_ClientIdleTimeout = Some (case co_ClientIdleTimeout v of None \<Rightarrow> ''0'' | Some x \<Rightarrow> x),
      co_BackendIdleTimeout = Some (case co_BackendIdleTimeout v of None \<Rightarrow> ''0'' | Some x \<Rightarrow> x),
      co_BackendConnectionTimeout = Some (case co_BackendConnectionTimeout v of None \<Rightarrow> ''0'' | Some x \<Rightarrow> x),
      co_ClientTcpKeepalive = Some (case co_ClientTcpKeepalive v of None \<Rightarrow> True | Some x \<Rightarrow> x),
      co_ClientTcpKeepalivePeriod = Some (case co_ClientTcpKeepalivePeriod v of None \<Rightarrow> ''15s'' | Some x \<Rightarrow> x),
      co_BackendTcpKeepalive = Some (case co_BackendTcpKeepalive v of None \<Rightarrow> True | Some x \<Rightarrow> x),
      co_BackendTcpKeepalivePeriod = Some (case co_BackendTcpKeepalivePeriod v of None \<Rightarrow> ''15s'' | Some x \<Rightarrow> x),
      co_Sources = Some (case co_Sources v of None \<Rightarrow> [] | Some x \<Rightarrow> x)\<rparr>"

definition or_else :: "string \<Rightarrow> string \<Rightarrow> string" where
  "or_else s d = (if s = [] then d else s)"

definition initAcme :: "AcmeConfig \<Rightarrow> AcmeConfig" where
  "initAcme a = \<lparr>acme_Challenge = or_else (acme_Challenge a) ''http'',
     acme_HttpBind = or_else (acme_HttpBind a) ''0.0.0.0:80'',
     acme_CacheDir = or_else (acme_CacheDir a) ''/tmp''\<rparr>"

definition initConfigGlobals :: "Config \<Rightarrow> Config" where
  "initConfigGlobals cfg = cfg\<lparr>cfg_Acme := map_option initAcme (cfg_Acme cfg)\<rparr>"

section \<open>Checks\<close>

type_synonym 's check = "'s \<Rightarrow> 's \<times> unit outcome"

fun in_order :: "'s check list \<Rightarrow> 's check" where
  "in_order [] s = (s, Ok ())"
| "in_order (f # fs) s = (case f s of (s', Ok _) \<Rightarrow> in_order fs s' | (s', Err e) \<Rightarrow> (s', Err e) | (s', Panic) \<Rightarrow> (s', Panic))"

text \<open>A guard that changes nothing, and a default that cannot fail.\<close>

definition guard :: "('s \<Rightarrow> bool) \<Rightarrow> ('s \<Rightarrow> string) \<Rightarrow> 's check" where
  "guard ok msg s = (s, if ok s then Ok () else Err (msg s))"

definition set_default :: "('s \<Rightarrow> 's) \<Rightarrow> 's check" where
  "set_default f s = (f s, Ok ())"

text \<open>A check of a record behind a pointer; a nil pointer panics.\<close>

definition behind :: "('s \<Rightarrow> 'r option) \<Rightarrow> ('r \<Rightarrow> 's \<Rightarrow> 's) \<Rightarrow> 'r check \<Rightarrow> 's check" where
  "behind get put f s = (case get s of None \<Rightarrow> (s, Panic)
     | Some r \<Rightarrow> (case f r of (r', v) \<Rightarrow> (put r' s, v)))"

definition on_condition :: "('s \<Rightarrow> bool) \<Rightarrow> 's check \<Rightarrow> 's check" where
  "on_condition c f s = (if c s then f s else (s, Ok ()))"

section \<open>The health check\<close>

definition no_healthcheck :: HealthcheckConfig where
  "no_healthcheck = \<lparr>hc_Kind = ''none'', hc_Interval = ''0'', hc_Passes = 0, hc_Fails = 0, hc_Timeout = ''0'',
     hc_ProxyProtocol = None, hc_InitialStatus = None, hc_Exec = None, hc_Probe = None\<rparr>"

definition put_probe :: "ProbeHealthcheckConfig \<Rightarrow> HealthcheckConfig \<Rightarrow> HealthcheckConfig" where
  "put_probe p h = h\<lparr>hc_Probe := Some p\<rparr>"

text \<open>\<open>x, err = strconv.Unquote(..)\<close> assigns the empty string when it fails.\<close>

definition unquote_send :: "ProbeHealthcheckConfig check" where
  "unquote_send p = (case unquote_body (ProbeSend p) of
       None \<Rightarrow> (p\<lparr>ProbeSend := []\<rparr>, Err ''probe_send has invalid syntax '')
     | Some s \<Rightarrow> (p\<lparr>ProbeSend := s\<rparr>, Ok ()))"

definition unquote_recv :: "ProbeHealthcheckConfig check" where
  "unquote_recv p = (case unquote_body (ProbeRecv p) of
       None \<Rightarrow> (p\<lparr>ProbeRecv := []\<rparr>, Err ''probe_recv has invalid syntax '')
     | Some s \<Rightarrow> (p\<lparr>ProbeRecv := s\<rparr>, Ok ()))"

definition probe_strategy :: "prepare_env \<Rightarrow> ProbeHealthcheckConfig check" where
  "probe_strategy env p =
     (if ProbeStrategy p = ''starts_with'' then
        in_order [guard (\<lambda>p. \<not> ProbeRecvLen p > 0) (\<lambda>_. ''probe_recv_len is redundant for starts_with strategy''),
                  unquote_recv] p
      else if ProbeStrategy p = ''regexp'' then
        in_order [guard (\<lambda>p. ProbeRecvLen p \<noteq> 0) (\<lambda>_. ''probe_recv_len required''),
                  guard (\<lambda>p. pe_regexp_ok env (ProbeRecv p)) (\<lambda>_. ''probe_recv has invalid syntax '')] p
      else (p, Err (''Unsupported probe_strategy '' @ ProbeStrategy p)))"

definition check_probe :: "prepare_env \<Rightarrow> ProbeHealthcheckConfig check" where
  "check_probe env = in_order
     [guard (\<lambda>p. ProbeProtocol p \<in> {''tcp'', ''udp'', ''tls''}) (\<lambda>_. ''Unsupported probe_protocol''),
      guard (\<lambda>p. ProbeSend p \<noteq> [] \<and> ProbeRecv p \<noteq> [])
        (\<lambda>_. ''probe healthcheck should have both probe_send and probe_recv specified''),
      set_default (\<lambda>p. p\<lparr>ProbeStrategy := or_else (ProbeStrategy p) ''starts_with''\<rparr>),
      unquote_send,
      probe_strategy env]"

definition default_healthcheck :: "HealthcheckConfig \<Rightarrow> HealthcheckConfig" where
  "default_healthcheck h = h\<lparr>hc_Interval := or_else (hc_Interval h) ''0'', hc_Timeout := or_else (hc_Timeout h) ''0'',
     hc_Fails := (if hc_Fails h \<le> 0 then 1 else hc_Fails h),
     hc_Passes := (if hc_Passes h \<le> 0 then 1 else hc_Passes h)\<rparr>"

definition initial_status_ok :: "HealthcheckConfig \<Rightarrow> bool" where
  "initial_status_ok h = (case hc_InitialStatus h of None \<Rightarrow> True | Some st \<Rightarrow> st \<in> {''healthy'', ''unhealthy''})"

definition check_interval :: "HealthcheckConfig check" where
  "check_interval = in_order
     [guard (\<lambda>h. ParseDuration (hc_Interval h) \<noteq> None) (\<lambda>_. ''Could not parse healtcheck interval: ''),
      guard (\<lambda>h. 0 < the (ParseDuration (hc_Interval h))) (\<lambda>_. ''Healthcheck interval should be greater than 0s'')]"

definition check_healthcheck :: "prepare_env \<Rightarrow> HealthcheckConfig check" where
  "check_healthcheck env = in_order
     [guard (\<lambda>h. hc_Kind h \<in> {''ping'', ''probe'', ''exec'', ''none''})
        (\<lambda>h. ''Not supported healthcheck type '' @ hc_Kind h),
      set_default default_healthcheck,
      on_condition (\<lambda>h. hc_Kind h \<noteq> ''none'') check_interval,
      guard initial_status_ok (\<lambda>_. ''Unsupported healthcheck initial_status''),
      on_condition (\<lambda>h. hc_Kind h = ''probe'') (behind hc_Probe put_probe (check_probe env))]"

definition check_hc_durations :: "HealthcheckConfig check" where
  "check_hc_durations = in_order
     [guard (\<lambda>h. ParseDuration (hc_Timeout h) \<noteq> None) (\<lambda>_. ''timeout parsing error''),
      guard (\<lambda>h. ParseDuration (hc_Interval h) \<noteq> None) (\<lambda>_. ''interval parsing error'')]"

section \<open>PROXY protocol, SNI, TLS and sources\<close>

definition check_proxy_protocol :: "Server check" where
  "check_proxy_protocol s = (case srv_ProxyProtocol s of None \<Rightarrow> (s, Ok ())
   | Some pp \<Rightarrow> in_order
     [guard (\<lambda>_. pp_Version pp \<noteq> []) (\<lambda>_. ''version field for proxy_protocol is not specified''),
      guard (\<lambda>_. pp_Version pp \<in> {''1'', ''2''}) (\<lambda>_. ''Unsupported proxy_protocol version '' @ pp_Version pp),
      guard (\<lambda>s. srv_Protocol s \<in> {''tcp'', ''udp''})
        (\<lambda>s. ''proxy_protocol may be used only with tcp or udp protocol, not with '' @ srv_Protocol s),
      guard (\<lambda>s. srv_Protocol s = ''udp'' \<longrightarrow> pp_Version pp = ''2'')
        (\<lambda>_. ''proxy_protocol version 2 is required for udp protocol'')] s)"

definition check_sni :: "SniConfig check" where
  "check_sni = in_order
     [set_default (\<lambda>n. n\<lparr>sni_ReadTimeout := or_else (sni_ReadTimeout n) ''2s'',
        sni_UnexpectedHostnameStrategy := or_else (sni_UnexpectedHostnameStrategy n) ''default''\<rparr>),
      guard (\<lambda>n. sni_UnexpectedHostnameStrategy n \<in> {''default'', ''reject'', ''any''})
        (\<lambda>n. ''Not supported sni unexprected hostname strategy '' @ sni_UnexpectedHostnameStrategy n),
      set_default (\<lambda>n. n\<lparr>sni_HostnameMatchingStrategy := or_else (sni_HostnameMatchingStrategy n) ''exact''\<rparr>),
      guard (\<lambda>n. sni_HostnameMatchingStrategy n \<in> {''exact'', ''regexp''})
        (\<lambda>n. ''Not supported sni matching '' @ sni_HostnameMatchingStrategy n),
      guard (\<lambda>n. ParseDuration (sni_ReadTimeout n) \<noteq> None) (\<lambda>_. ''timeout parsing error'')]"

definition tls_pair_ok :: "Server \<Rightarrow> bool" where
  "tls_pair_ok s = (case srv_BackendsTls s of None \<Rightarrow> True
     | Some b \<Rightarrow> (btls_KeyPath b = None) = (btls_CertPath b = None))"

definition tls_source_ok :: "Server \<Rightarrow> bool" where
  "tls_source_ok s = (case srv_Tls s of None \<Rightarrow> True
     | Some t \<Rightarrow> elems (tls_AcmeHosts t) \<noteq> [] \<or> tls_KeyPath t \<noteq> [] \<and> tls_CertPath t \<noteq> [])"

definition has_sources :: "Server \<Rightarrow> bool" where
  "has_sources s \<longleftrightarrow> co_Sources (srv_Options s) \<noteq> None \<and> the (co_Sources (srv_Options s)) \<noteq> []"

definition check_sources :: "Server check" where
  "check_sources s =
     (if has_sources s then
        (case NewIPv6SourcePool (the (co_Sources (srv_Options s))) of
           Ok _ \<Rightarrow> (s, Ok ()) | Err e \<Rightarrow> (s, Err e) | Panic \<Rightarrow> (s, Panic))
      else (s, Ok ()))"

section \<open>Protocol, balance and discovery\<close>

definition check_udp :: "Server check" where
  "check_udp = in_order
     [guard (\<lambda>s. srv_BackendsTls s = None) (\<lambda>_. ''backends_tls should not be enabled for udp protocol''),
      set_default (\<lambda>s. s\<lparr>srv_Udp := Some (case srv_Udp s of None \<Rightarrow>
        \<lparr>udp_MaxRequests = 0, udp_MaxResponses = 0, udp_Transparent = False\<rparr> | Some u \<Rightarrow> u)\<rparr>),
      guard (\<lambda>s. \<not> (udp_MaxRequests (the (srv_Udp s)) = 0 \<and> udp_MaxResponses (the (srv_Udp s)) = 0 \<and>
          co_ClientIdleTimeout (srv_Options s) = None \<and> co_BackendIdleTimeout (srv_Options s) = None))
        (\<lambda>_. ''udp protocol requires to specify at least one of (client|backend)_idle_timeout, udp.max_requests, udp.max_responses''),
      guard (\<lambda>s. \<not> (udp_Transparent (the (srv_Udp s)) \<and> has_sources s))
        (\<lambda>_. ''sources should not be enabled for udp transparent mode'')]"

definition check_protocol :: "Server check" where
  "check_protocol s =
     (if srv_Protocol s = [] then (s\<lparr>srv_Protocol := ''tcp''\<rparr>, Ok ())
      else if srv_Protocol s = ''tls'' then
        (s, if srv_Tls s = None then Err ''Need tls section for tls protocol'' else Ok ())
      else if srv_Protocol s = ''tcp'' then (s, Ok ())
      else if srv_Protocol s = ''udp'' then check_udp s
      else (s, Err (''Not supported protocol '' @ srv_Protocol s)))"

definition balance_kinds :: "string set" where
  "balance_kinds = {''weight'', ''leastconn'', ''roundrobin'', ''leastbandwidth'', ''iphash1'', ''iphash''}"

definition check_balance :: "Server check" where
  "check_balance = in_order
     [set_default (\<lambda>s. s\<lparr>srv_Balance := or_else (srv_Balance s) ''weight''\<rparr>),
      guard (\<lambda>s. srv_Balance s \<in> balance_kinds) (\<lambda>s. ''Not supported balance type '' @ srv_Balance s)]"

definition put_srv :: "SrvDiscoveryConfig \<Rightarrow> DiscoveryConfig \<Rightarrow> DiscoveryConfig" where
  "put_srv r d = d\<lparr>disc_Srv := Some r\<rparr>"

definition put_lxd :: "LXDDiscoveryConfig \<Rightarrow> DiscoveryConfig \<Rightarrow> DiscoveryConfig" where
  "put_lxd r d = d\<lparr>disc_LXD := Some r\<rparr>"

definition check_srv :: "SrvDiscoveryConfig check" where
  "check_srv = in_order
     [set_default (\<lambda>r. r\<lparr>SrvDnsProtocol := or_else (SrvDnsProtocol r) ''udp''\<rparr>),
      guard (\<lambda>r. SrvDnsProtocol r \<in> {''udp'', ''tcp''}) (\<lambda>r. ''Not supported srv_dns_protocol '' @ SrvDnsProtocol r)]"

definition check_lxd :: "prepare_env \<Rightarrow> LXDDiscoveryConfig check" where
  "check_lxd env = in_order
     [guard (\<lambda>l. LXDServerAddress l \<noteq> []) (\<lambda>_. ''lxd_server_address is required''),
      guard (\<lambda>l. has_prefix (LXDServerAddress l) ''https:'' \<or> has_prefix (LXDServerAddress l) ''unix:'')
        (\<lambda>l. ''lxd_server_address should start with either unix:// or https:// but got '' @ LXDServerAddress l),
      set_default (\<lambda>l. l\<lparr>LXDServerRemoteName := or_else (LXDServerRemoteName l) ''local'',
        LXDConfigDirectory := or_else (LXDConfigDirectory l) (pe_home env @ ''/.config/lxc''),
        LXDContainerInterface := or_else (LXDContainerInterface l) ''eth0'',
        LXDContainerAddressType := or_else (LXDContainerAddressType l) ''IPv4''\<rparr>),
      guard (\<lambda>l. LXDContainerAddressType l \<in> {''IPv4'', ''IPv6''})
        (\<lambda>_. ''Invalid lxd_container_address_type. Must be IPv4 or IPv6'')]"

definition default_discovery :: "DiscoveryConfig \<Rightarrow> DiscoveryConfig" where
  "default_discovery d = d\<lparr>disc_Interval := or_else (disc_Interval d) ''0'', disc_Timeout := or_else (disc_Timeout d) ''0''\<rparr>"

definition check_discovery :: "prepare_env \<Rightarrow> DiscoveryConfig check" where
  "check_discovery env = in_order
     [set_default (\<lambda>d. d\<lparr>disc_Failpolicy := or_else (disc_Failpolicy d) ''keeplast''\<rparr>),
      guard (\<lambda>d. disc_Failpolicy d \<in> {''keeplast'', ''setempty''})
        (\<lambda>d. ''Not supported failpolicy '' @ disc_Failpolicy d),
      set_default default_discovery,
      on_condition (\<lambda>d. disc_Kind d = ''srv'') (behind disc_Srv put_srv check_srv),
      on_condition (\<lambda>d. disc_Kind d = ''lxd'') (behind disc_LXD put_lxd (check_lxd env))]"

section \<open>Connection options\<close>

definition inherit :: "'a option \<Rightarrow> 'a option \<Rightarrow> 'a option outcome" where
  "inherit own dflt = (case own of Some v \<Rightarrow> Ok (Some v)
     | None \<Rightarrow> (case dflt of None \<Rightarrow> Panic | Some v \<Rightarrow> Ok (Some v)))"

definition inherit_options :: "ConnectionOptions \<Rightarrow> ConnectionOptions \<Rightarrow> ConnectionOptions outcome" where
  "inherit_options o1 d =
     bind_outcome (inherit (co_MaxConnections o1) (co_MaxConnections d)) (\<lambda>mc.
     bind_outcome (inherit (co_ClientIdleTimeout o1) (co_ClientIdleTimeout d)) (\<lambda>ci.
     bind_outcome (inherit (co_BackendIdleTimeout o1) (co_BackendIdleTimeout d)) (\<lambda>bi.
     bind_outcome (inherit (co_BackendConnectionTimeout o1) (co_BackendConnectionTimeout d)) (\<lambda>bc.
     bind_outcome (inherit (co_ClientTcpKeepalive o1) (co_ClientTcpKeepalive d)) (\<lambda>ck.
     bind_outcome (inherit (co_ClientTcpKeepalivePeriod o1) (co_ClientTcpKeepalivePeriod d)) (\<lambda>cp.
     bind_outcome (inherit (co_BackendTcpKeepalive o1) (co_BackendTcpKeepalive d)) (\<lambda>bk.
     bind_outcome (inherit (co_BackendTcpKeepalivePeriod o1) (co_BackendTcpKeepalivePeriod d)) (\<lambda>bp.
     bind_outcome (inherit (co_Sources o1) (co_Sources d)) (\<lambda>src.
       Ok \<lparr>co_MaxConnections = mc, co_ClientIdleTimeout = ci, co_BackendIdleTimeout = bi,
           co_BackendConnectionTimeout = bc, co_ClientTcpKeepalive = ck, co_ClientTcpKeepalivePeriod = cp,
           co_BackendTcpKeepalive = bk, co_BackendTcpKeepalivePeriod = bp, co_Sources = src\<rparr>)))))))))"

definition no_keepalive :: "ConnectionOptions \<Rightarrow> ConnectionOptions" where
  "no_keepalive o1 = o1\<lparr>co_ClientTcpKeepalive := None, co_ClientTcpKeepalivePeriod := None,
     co_BackendTcpKeepalive := None, co_BackendTcpKeepalivePeriod := None\<rparr>"

definition take_options :: "ConnectionOptions \<Rightarrow> Server check" where
  "take_options d s = (case inherit_options (srv_Options s) d of
       Ok o1 \<Rightarrow> (s\<lparr>srv_Options := (if srv_Protocol s = ''udp'' then no_keepalive o1 else o1)\<rparr>, Ok ())
     | Err e \<Rightarrow> (s, Err e) | Panic \<Rightarrow> (s, Panic))"

section \<open>prepareConfig\<close>

definition put_healthcheck :: "HealthcheckConfig \<Rightarrow> Server \<Rightarrow> Server" where
  "put_healthcheck h s = s\<lparr>srv_Healthcheck := Some h\<rparr>"

definition put_discovery :: "DiscoveryConfig \<Rightarrow> Server \<Rightarrow> Server" where
  "put_discovery d s = s\<lparr>srv_Discovery := Some d\<rparr>"

definition check_required :: "string \<Rightarrow> Server check" where
  "check_required name = in_order
     [guard (\<lambda>s. srv_Bind s \<noteq> []) (\<lambda>_. ''No bind specified for server '' @ name),
      guard (\<lambda>s. elems (srv_Binds s) = [])
        (\<lambda>_. ''Cannot use both bind and binds for server '' @ name @ ''; use one or the other''),
      guard (\<lambda>s. srv_Discovery s \<noteq> None) (\<lambda>_. ''No .discovery specified for server '' @ name),
      set_default (\<lambda>s. s\<lparr>srv_Healthcheck := Some (case srv_Healthcheck s of None \<Rightarrow> no_healthcheck | Some h \<Rightarrow> h)\<rparr>)]"

definition check_sni_section :: "Server check" where
  "check_sni_section s = (case srv_Sni s of None \<Rightarrow> (s, Ok ())
     | Some n \<Rightarrow> (case check_sni n of (n', v) \<Rightarrow> (s\<lparr>srv_Sni := Some n'\<rparr>, v)))"

definition prepare_checks :: "prepare_env \<Rightarrow> string \<Rightarrow> ConnectionOptions \<Rightarrow> Server check list" where
  "prepare_checks env name defaults =
     [check_required name,
      behind srv_Healthcheck put_healthcheck (check_healthcheck env),
      check_proxy_protocol,
      check_sni_section,
      behind srv_Healthcheck put_healthcheck check_hc_durations,
      guard tls_pair_ok (\<lambda>_. ''backend_tls.cert_path and .key_path should be specified together''),
      guard tls_source_ok (\<lambda>_. ''tls requires specify either acme hosts or both key and cert paths''),
      check_sources,
      check_protocol,
      guard (\<lambda>s. \<not> (map_option hc_Kind (srv_Healthcheck s) = Some ''ping'' \<and> srv_Protocol s = ''udp''))
        (\<lambda>_. ''Cant use ping healthcheck with udp server''),
      check_balance,
      behind srv_Discovery put_discovery (check_discovery env),
      take_options defaults]"

text \<open>What the caller's copy looks like afterwards: the records behind pointers it shares.\<close>

definition write_back :: "Server \<Rightarrow> Server \<Rightarrow> Server" where
  "write_back raw s = raw\<lparr>
     srv_Discovery := (if srv_Discovery raw = None then None else srv_Discovery s),
     srv_Healthcheck := (if srv_Healthcheck raw = None then None else srv_Healthcheck s),
     srv_Sni := (if srv_Sni raw = None then None else srv_Sni s)\<rparr>"

definition prepareConfig ::
    "prepare_env \<Rightarrow> string \<Rightarrow> Server \<Rightarrow> ConnectionOptions \<Rightarrow> Server \<times> Server outcome" where
  "prepareConfig env name raw defaults =
     (case in_order (prepare_checks env name defaults) raw of
        (s, Ok _) \<Rightarrow> (write_back raw s, Ok s)
      | (s, Err e) \<Rightarrow> (write_back raw s, Err e)
      | (s, Panic) \<Rightarrow> (write_back raw s, Panic))"

end
