(* ===== verification/Prepare_Correct.thy ===== *)
theory Prepare_Correct
  imports Prepare
begin

text \<open>
  What \<open>prepareConfig\<close> guarantees: a predicate \<open>ready\<close> that each accepted configuration satisfies
  and that makes every check the identity, so that preparing twice is preparing once where the
  checks have no effect that accumulates.
\<close>

section \<open>Inversion of the checks\<close>

lemma in_order_Cons_Ok:
  "in_order (f # fs) s = (s', Ok u) \<longleftrightarrow> (\<exists>t. f s = (t, Ok ()) \<and> in_order fs t = (s', Ok ()))"
proof -
  obtain t v where "f s = (t, v)" by fastforce
  then show ?thesis by (cases v) auto
qed

lemma guard_Ok: "guard ok msg s = (s', Ok u) \<longleftrightarrow> ok s \<and> s' = s"
  by (auto simp: guard_def)

lemma set_default_Ok: "set_default f s = (s', Ok u) \<longleftrightarrow> s' = f s"
  by (auto simp: set_default_def)

lemma behind_Ok:
  "behind get put f s = (s', Ok u) \<longleftrightarrow> (\<exists>r r'. get s = Some r \<and> f r = (r', Ok ()) \<and> s' = put r' s)"
  by (auto simp: behind_def split: option.splits prod.splits)

lemma on_condition_Ok:
  "on_condition c f s = (s', Ok u) \<longleftrightarrow> (if c s then f s = (s', Ok ()) else s' = s)"
  by (auto simp: on_condition_def)

lemmas check_Ok = in_order_Cons_Ok guard_Ok set_default_Ok behind_Ok on_condition_Ok

declare in_order.simps(2) [simp del]

lemma or_else_Nil [simp]: "or_else s d = [] \<longleftrightarrow> s = [] \<and> d = []"
  by (simp add: or_else_def)

lemma or_else_same [simp]: "s \<noteq> [] \<Longrightarrow> or_else s d = s"
  by (simp add: or_else_def)

section \<open>Well-formed configurations\<close>

definition ready_probe :: "prepare_env \<Rightarrow> ProbeHealthcheckConfig \<Rightarrow> bool" where
  "ready_probe env p \<longleftrightarrow> ProbeProtocol p \<in> {''tcp'', ''udp'', ''tls''} \<and>
     (ProbeStrategy p = ''starts_with'' \<and> ProbeRecvLen p \<le> 0 \<or>
      ProbeStrategy p = ''regexp'' \<and> ProbeRecvLen p \<noteq> 0 \<and> pe_regexp_ok env (ProbeRecv p))"

definition ready_healthcheck :: "prepare_env \<Rightarrow> HealthcheckConfig \<Rightarrow> bool" where
  "ready_healthcheck env h \<longleftrightarrow> hc_Kind h \<in> {''ping'', ''probe'', ''exec'', ''none''} \<and>
     hc_Interval h \<noteq> [] \<and> hc_Timeout h \<noteq> [] \<and> 0 < hc_Fails h \<and> 0 < hc_Passes h \<and>
     (hc_Kind h \<noteq> ''none'' \<longrightarrow> (\<exists>d>0. ParseDuration (hc_Interval h) = Some d)) \<and>
     initial_status_ok h \<and>
     (hc_Kind h = ''probe'' \<longrightarrow> (\<exists>p. hc_Probe h = Some p \<and> ready_probe env p))"

definition ready_sni :: "SniConfig \<Rightarrow> bool" where
  "ready_sni n \<longleftrightarrow> sni_UnexpectedHostnameStrategy n \<in> {''default'', ''reject'', ''any''} \<and>
     sni_HostnameMatchingStrategy n \<in> {''exact'', ''regexp''} \<and> sni_ReadTimeout n \<noteq> [] \<and>
     ParseDuration (sni_ReadTimeout n) \<noteq> None"

definition ready_lxd :: "LXDDiscoveryConfig \<Rightarrow> bool" where
  "ready_lxd l \<longleftrightarrow> LXDServerAddress l \<noteq> [] \<and>
     (has_prefix (LXDServerAddress l) ''https:'' \<or> has_prefix (LXDServerAddress l) ''unix:'') \<and>
     LXDServerRemoteName l \<noteq> [] \<and> LXDConfigDirectory l \<noteq> [] \<and> LXDContainerInterface l \<noteq> [] \<and>
     LXDContainerAddressType l \<in> {''IPv4'', ''IPv6''}"

definition ready_discovery :: "DiscoveryConfig \<Rightarrow> bool" where
  "ready_discovery d \<longleftrightarrow> disc_Failpolicy d \<in> {''keeplast'', ''setempty''} \<and>
     disc_Interval d \<noteq> [] \<and> disc_Timeout d \<noteq> [] \<and>
     (disc_Kind d = ''srv'' \<longrightarrow> (\<exists>r. disc_Srv d = Some r \<and> SrvDnsProtocol r \<in> {''udp'', ''tcp''})) \<and>
     (disc_Kind d = ''lxd'' \<longrightarrow> (\<exists>l. disc_LXD d = Some l \<and> ready_lxd l))"

definition ready_protocol :: "Server \<Rightarrow> bool" where
  "ready_protocol s \<longleftrightarrow> srv_Protocol s = ''tcp'' \<or> srv_Protocol s = ''tls'' \<and> srv_Tls s \<noteq> None \<or>
     srv_Protocol s = ''udp'' \<and> srv_Udp s \<noteq> None \<and> srv_BackendsTls s = None"

definition ready_options :: "bool \<Rightarrow> ConnectionOptions \<Rightarrow> bool" where
  "ready_options udp o1 \<longleftrightarrow> co_MaxConnections o1 \<noteq> None \<and> co_ClientIdleTimeout o1 \<noteq> None \<and>
     co_BackendIdleTimeout o1 \<noteq> None \<and> co_BackendConnectionTimeout o1 \<noteq> None \<and> co_Sources o1 \<noteq> None \<and>
     (if udp then co_ClientTcpKeepalive o1 = None \<and> co_ClientTcpKeepalivePeriod o1 = None \<and>
        co_BackendTcpKeepalive o1 = None \<and> co_BackendTcpKeepalivePeriod o1 = None
      else co_ClientTcpKeepalive o1 \<noteq> None \<and> co_ClientTcpKeepalivePeriod o1 \<noteq> None \<and>
        co_BackendTcpKeepalive o1 \<noteq> None \<and> co_BackendTcpKeepalivePeriod o1 \<noteq> None)"

definition ready_proxy_protocol :: "Server \<Rightarrow> bool" where
  "ready_proxy_protocol s \<longleftrightarrow> (case srv_ProxyProtocol s of None \<Rightarrow> True
     | Some pp \<Rightarrow> srv_Protocol s = ''tcp'' \<and> pp_Version pp \<in> {''1'', ''2''} \<or>
         srv_Protocol s = ''udp'' \<and> pp_Version pp = ''2'')"

definition ready :: "prepare_env \<Rightarrow> Server \<Rightarrow> bool" where
  "ready env s \<longleftrightarrow> srv_Bind s \<noteq> [] \<and> elems (srv_Binds s) = [] \<and>
     (\<exists>d. srv_Discovery s = Some d \<and> ready_discovery d) \<and>
     (\<exists>h. srv_Healthcheck s = Some h \<and> ready_healthcheck env h \<and> ParseDuration (hc_Timeout h) \<noteq> None \<and>
        ParseDuration (hc_Interval h) \<noteq> None \<and> \<not> (hc_Kind h = ''ping'' \<and> srv_Protocol s = ''udp'')) \<and>
     (\<forall>n. srv_Sni s = Some n \<longrightarrow> ready_sni n) \<and> ready_proxy_protocol s \<and> tls_pair_ok s \<and> tls_source_ok s \<and>
     ready_protocol s \<and> srv_Balance s \<in> balance_kinds \<and>
     ready_options (srv_Protocol s = ''udp'') (srv_Options s)"

section \<open>Each check establishes its part\<close>

lemma unquote_send_frame:
  "unquote_send p = (p', Ok u) \<Longrightarrow> ProbeProtocol p' = ProbeProtocol p \<and> ProbeStrategy p' = ProbeStrategy p"
  by (auto simp: unquote_send_def split: option.splits)

lemma probe_strategy_ready:
  "probe_strategy env p = (p', Ok u) \<Longrightarrow> ProbeProtocol p \<in> {''tcp'', ''udp'', ''tls''} \<Longrightarrow> ready_probe env p'"
  by (simp only: probe_strategy_def check_Ok in_order.simps(1) ready_probe_def split: if_splits)
    (auto simp: unquote_recv_def split: option.splits)

lemma check_probe_ready:
  assumes "check_probe env p = (p', Ok u)"
  shows "ready_probe env p'"
proof -
  obtain q r where "ProbeProtocol p \<in> {''tcp'', ''udp'', ''tls''}" "q = p\<lparr>ProbeStrategy := or_else (ProbeStrategy p) ''starts_with''\<rparr>"
    "unquote_send q = (r, Ok ())" "probe_strategy env r = (p', Ok ())"
    using assms unfolding check_probe_def by (auto simp only: check_Ok in_order.simps(1) prod.inject)
  then show ?thesis using unquote_send_frame [of q r] probe_strategy_ready [of env r p'] by simp
qed

lemma default_healthcheck_simps [simp]:
  "hc_Kind (default_healthcheck h) = hc_Kind h" "hc_Interval (default_healthcheck h) \<noteq> []"
  "hc_Timeout (default_healthcheck h) \<noteq> []" "0 < hc_Fails (default_healthcheck h)"
  "0 < hc_Passes (default_healthcheck h)"
  by (simp_all add: default_healthcheck_def)

lemma check_interval_Ok:
  "check_interval h = (h', Ok u) \<longleftrightarrow> h' = h \<and> (\<exists>d>0. ParseDuration (hc_Interval h) = Some d)"
  by (auto simp: check_interval_def check_Ok)

lemma check_healthcheck_ready:
  assumes "check_healthcheck env h = (h', Ok u)"
  shows "ready_healthcheck env h'"
proof -
  let ?h = "default_healthcheck h"
  have k: "hc_Kind h \<in> {''ping'', ''probe'', ''exec'', ''none''}"
    "hc_Kind h \<noteq> ''none'' \<longrightarrow> (\<exists>d>0. ParseDuration (hc_Interval ?h) = Some d)" "initial_status_ok ?h"
    "on_condition (\<lambda>h. hc_Kind h = ''probe'') (behind hc_Probe put_probe (check_probe env)) ?h = (h', Ok ())"
    using assms unfolding check_healthcheck_def in_order_Cons_Ok guard_Ok set_default_Ok in_order.simps(1)
      on_condition_Ok [of _ check_interval] check_interval_Ok
    by (metis default_healthcheck_simps(1))+
  show ?thesis
  proof (cases "hc_Kind h = ''probe''")
    case True
    then obtain p p' where "check_probe env p = (p', Ok ())" "h' = put_probe p' ?h"
      using k(4) by (auto simp: check_Ok)
    then show ?thesis using k check_probe_ready [of env p p']
      by (simp add: ready_healthcheck_def put_probe_def True initial_status_ok_def)
  next
    case False
    then have "h' = ?h" using k(4) by (simp add: on_condition_Ok)
    then show ?thesis using k False by (simp add: ready_healthcheck_def)
  qed
qed

lemma check_hc_durations_Ok:
  "check_hc_durations h = (h', Ok u) \<longleftrightarrow>
   h' = h \<and> ParseDuration (hc_Timeout h) \<noteq> None \<and> ParseDuration (hc_Interval h) \<noteq> None"
  by (auto simp: check_hc_durations_def check_Ok)

lemma check_sni_ready: "check_sni n = (n', Ok u) \<Longrightarrow> ready_sni n'"
  by (auto simp: check_sni_def check_Ok ready_sni_def)

lemma check_lxd_ready: "check_lxd env l = (l', Ok u) \<Longrightarrow> ready_lxd l'"
  by (auto simp: check_lxd_def check_Ok ready_lxd_def)

lemma check_srv_ready: "check_srv r = (r', Ok u) \<Longrightarrow> SrvDnsProtocol r' \<in> {''udp'', ''tcp''}"
  unfolding check_srv_def by (auto simp only: check_Ok in_order.simps(1) prod.inject)

lemma default_discovery_simps [simp]:
  "disc_Kind (default_discovery d) = disc_Kind d" "disc_Interval (default_discovery d) \<noteq> []"
  "disc_Timeout (default_discovery d) \<noteq> []"
  "disc_Failpolicy (default_discovery d) = disc_Failpolicy d"
  by (simp_all add: default_discovery_def)

lemma check_discovery_ready:
  assumes "check_discovery env d = (d', Ok u)"
  shows "ready_discovery d'"
proof -
  obtain e where e: "disc_Failpolicy e \<in> {''keeplast'', ''setempty''}" "disc_Interval e \<noteq> []" "disc_Timeout e \<noteq> []"
    "in_order [on_condition (\<lambda>d. disc_Kind d = ''srv'') (behind disc_Srv put_srv check_srv),
       on_condition (\<lambda>d. disc_Kind d = ''lxd'') (behind disc_LXD put_lxd (check_lxd env))] e = (d', Ok ())"
    using assms unfolding check_discovery_def in_order_Cons_Ok [of "guard _ _"] in_order_Cons_Ok [of "set_default _"]
      guard_Ok set_default_Ok by (metis default_discovery_simps(2-4))
  consider "disc_Kind e = ''srv''" | "disc_Kind e = ''lxd''" | "disc_Kind e \<noteq> ''srv''" "disc_Kind e \<noteq> ''lxd''" by blast
  then show ?thesis
  proof cases
    case 1
    then obtain r r' where "check_srv r = (r', Ok ())" "d' = put_srv r' e"
      using e(4) by (auto simp: check_Ok put_srv_def)
    then show ?thesis using e(1-3) 1 check_srv_ready [of r r'] by (simp add: ready_discovery_def put_srv_def)
  next
    case 2
    then obtain r r' where "check_lxd env r = (r', Ok ())" "d' = put_lxd r' e"
      using e(4) by (auto simp: check_Ok)
    then show ?thesis using e(1-3) 2 check_lxd_ready [of env r r'] by (simp add: ready_discovery_def put_lxd_def)
  next
    case 3
    then have "d' = e" using e(4) by (simp add: check_Ok)
    then show ?thesis using e(1-3) 3 by (simp add: ready_discovery_def)
  qed
qed

lemma inherit_Ok: "inherit a d = Ok x \<Longrightarrow> x \<noteq> None"
  by (auto simp: inherit_def split: option.splits)

lemma inherit_options_ready:
  "inherit_options o1 d = Ok o2 \<Longrightarrow> ready_options False o2 \<and> ready_options True (no_keepalive o2)"
  by (auto simp: inherit_options_def ready_options_def no_keepalive_def dest!: inherit_Ok)

section \<open>The server level\<close>

lemma check_required_Ok:
  "check_required name s = (t, Ok u) \<longleftrightarrow> srv_Bind s \<noteq> [] \<and> elems (srv_Binds s) = [] \<and> srv_Discovery s \<noteq> None \<and>
     t = s\<lparr>srv_Healthcheck := Some (case srv_Healthcheck s of None \<Rightarrow> no_healthcheck | Some h \<Rightarrow> h)\<rparr>"
  by (auto simp: check_required_def check_Ok)

lemma check_proxy_protocol_Ok:
  "check_proxy_protocol s = (t, Ok u) \<longleftrightarrow> t = s \<and> ready_proxy_protocol s"
  by (auto simp: check_proxy_protocol_def check_Ok ready_proxy_protocol_def split: option.splits)

lemma check_sni_section_Ok:
  "check_sni_section s = (t, Ok u) \<Longrightarrow>
   t = s\<lparr>srv_Sni := srv_Sni t\<rparr> \<and> (\<forall>m. srv_Sni t = Some m \<longrightarrow> ready_sni m)"
  by (cases "srv_Sni s") (auto simp: check_sni_section_def dest: check_sni_ready split: prod.splits)

lemma check_hc_section_Ok:
  "behind srv_Healthcheck put_healthcheck check_hc_durations s = (t, Ok u) \<longleftrightarrow>
   t = s \<and> (\<exists>h. srv_Healthcheck s = Some h \<and> ParseDuration (hc_Timeout h) \<noteq> None \<and> ParseDuration (hc_Interval h) \<noteq> None)"
  by (auto simp: behind_Ok check_hc_durations_Ok put_healthcheck_def)

lemma check_sources_Ok:
  "check_sources s = (t, Ok u) \<longleftrightarrow> t = s \<and>
   (has_sources s \<longrightarrow> (\<exists>p. NewIPv6SourcePool (the (co_Sources (srv_Options s))) = Ok p))"
  by (auto simp: check_sources_def split: outcome.splits)

lemma check_protocol_Ok:
  assumes "check_protocol s = (t, Ok u)"
  shows "ready_protocol t \<and> t = s\<lparr>srv_Protocol := srv_Protocol t, srv_Udp := srv_Udp t\<rparr> \<and>
    (srv_Protocol s \<noteq> [] \<longrightarrow> srv_Protocol t = srv_Protocol s)"
proof (cases "srv_Protocol s = ''udp''")
  case True
  then have "check_udp s = (t, Ok ())" using assms by (simp add: check_protocol_def)
  then have "srv_BackendsTls s = None \<and> (\<exists>v. t = s\<lparr>srv_Udp := Some v\<rparr>)"
    unfolding check_udp_def in_order_Cons_Ok guard_Ok set_default_Ok in_order.simps(1) by auto
  then show ?thesis using True by (auto simp: ready_protocol_def)
next
  case False
  then have t: "t = s\<lparr>srv_Protocol := or_else (srv_Protocol s) ''tcp''\<rparr>"
    "srv_Protocol t = ''tcp'' \<or> srv_Protocol t = ''tls'' \<and> srv_Tls t \<noteq> None"
    using assms by (auto simp: check_protocol_def or_else_def split: if_splits)
  then have "ready_protocol t" by (auto simp: ready_protocol_def)
  then show ?thesis using t(1) by simp
qed

lemma check_balance_Ok:
  "check_balance s = (t, Ok u) \<longleftrightarrow> t = s\<lparr>srv_Balance := or_else (srv_Balance s) ''weight''\<rparr> \<and>
   or_else (srv_Balance s) ''weight'' \<in> balance_kinds"
  unfolding check_balance_def in_order_Cons_Ok guard_Ok set_default_Ok in_order.simps(1) by auto

lemma take_options_Ok:
  "take_options d s = (t, Ok u) \<Longrightarrow>
   \<exists>o1. t = s\<lparr>srv_Options := o1\<rparr> \<and> ready_options (srv_Protocol s = ''udp'') o1"
  by (auto simp: take_options_def dest: inherit_options_ready split: outcome.splits if_splits)

lemma prepare_checks_ready:
  assumes "in_order (prepare_checks env name d) raw = (s, Ok u)"
  shows "ready env s"
proof -
  note p = assms [unfolded prepare_checks_def in_order_Cons_Ok in_order.simps(1)]
  then obtain s1 s2 s3 s4 s5 s6 s7 s8 where
    s: "check_required name raw = (s1, Ok ())"
    "behind srv_Healthcheck put_healthcheck (check_healthcheck env) s1 = (s2, Ok ())"
    "check_proxy_protocol s2 = (s2, Ok ())" "check_sni_section s2 = (s3, Ok ())"
    "behind srv_Healthcheck put_healthcheck check_hc_durations s3 = (s3, Ok ())"
    "tls_pair_ok s3" "tls_source_ok s3" "check_protocol s3 = (s4, Ok ())"
    "\<not> (map_option hc_Kind (srv_Healthcheck s4) = Some ''ping'' \<and> srv_Protocol s4 = ''udp'')"
    "check_balance s4 = (s5, Ok ())"
    "behind srv_Discovery put_discovery (check_discovery env) s5 = (s6, Ok ())"
    "take_options d s6 = (s, Ok ())"
    unfolding guard_Ok check_proxy_protocol_Ok check_hc_section_Ok check_sources_Ok by blast
  from s(1) have s1: "srv_Bind s1 \<noteq> []" "elems (srv_Binds s1) = []" by (simp_all add: check_required_Ok)
  from s(2) obtain h where h: "s2 = put_healthcheck h s1" "ready_healthcheck env h"
    by (auto simp: behind_Ok dest: check_healthcheck_ready)
  from s(3) have pp: "ready_proxy_protocol s2" by (simp add: check_proxy_protocol_Ok)
  from check_sni_section_Ok [OF s(4)] obtain n where n: "s3 = s2\<lparr>srv_Sni := n\<rparr>" "\<forall>m. n = Some m \<longrightarrow> ready_sni m"
    by blast
  from s(5) have dur: "ParseDuration (hc_Timeout h) \<noteq> None" "ParseDuration (hc_Interval h) \<noteq> None"
    by (simp_all add: check_hc_section_Ok n h put_healthcheck_def)
  from check_protocol_Ok [OF s(8)] obtain pr v where pr: "ready_protocol s4" "s4 = s3\<lparr>srv_Protocol := pr, srv_Udp := v\<rparr>"
    "srv_Protocol s3 \<noteq> [] \<longrightarrow> pr = srv_Protocol s3" by blast
  from s(10) have b: "s5 = s4\<lparr>srv_Balance := or_else (srv_Balance s4) ''weight''\<rparr>"
    "or_else (srv_Balance s4) ''weight'' \<in> balance_kinds" by (simp_all add: check_balance_Ok)
  from s(11) obtain di where di: "s6 = put_discovery di s5" "ready_discovery di"
    by (auto simp: behind_Ok dest: check_discovery_ready)
  from take_options_Ok [OF s(12)] obtain o1 where o1: "s = s6\<lparr>srv_Options := o1\<rparr>"
    "ready_options (srv_Protocol s6 = ''udp'') o1" by blast
  note eqs = o1(1) di(1) b(1) pr(2) n(1) h(1)
  have "ready_proxy_protocol s"
    using pp pr(3) by (auto simp: eqs ready_proxy_protocol_def put_discovery_def put_healthcheck_def split: option.splits)
  moreover have "ready_protocol s" using pr(1) by (simp add: eqs ready_protocol_def put_discovery_def)
  moreover have "tls_pair_ok s" "tls_source_ok s" using s(6,7)
    by (simp_all add: eqs tls_pair_ok_def tls_source_ok_def put_discovery_def)
  ultimately show ?thesis
    using s1 h(2) dur n(2) b(2) di(2) o1(2) s(9)
    by (simp add: ready_def eqs put_discovery_def put_healthcheck_def)
qed

lemma prepareConfig_ready: "prepareConfig env name raw d = (raw', Ok s) \<Longrightarrow> ready env s"
  unfolding prepareConfig_def using prepare_checks_ready [of env name d raw] by (auto split: prod.splits outcome.splits)

section \<open>A prepared configuration stays as it is\<close>

text \<open>
  Two checks are not idempotent: unquoting the probe strings, and the validation of \<open>sources\<close>, which
  looks at the server's own setting only and so lets an inherited one pass the first time.
\<close>

definition steady_probe :: "ProbeHealthcheckConfig \<Rightarrow> bool" where
  "steady_probe p \<longleftrightarrow> ProbeSend p \<noteq> [] \<and> ProbeRecv p \<noteq> [] \<and> unquote_body (ProbeSend p) = Some (ProbeSend p) \<and>
     (ProbeStrategy p = ''starts_with'' \<longrightarrow> unquote_body (ProbeRecv p) = Some (ProbeRecv p))"

definition steady :: "Server \<Rightarrow> bool" where
  "steady s \<longleftrightarrow> (\<forall>h p. srv_Healthcheck s = Some h \<and> hc_Kind h = ''probe'' \<and> hc_Probe h = Some p \<longrightarrow> steady_probe p) \<and>
     (has_sources s \<longrightarrow> (\<exists>pool. NewIPv6SourcePool (the (co_Sources (srv_Options s))) = Ok pool) \<and>
        \<not> (\<exists>u. srv_Udp s = Some u \<and> udp_Transparent u))"

lemma in_order_same: "\<forall>f\<in>set fs. f s = (s, Ok ()) \<Longrightarrow> in_order fs s = (s, Ok ())"
  by (induction fs) (simp_all add: in_order.simps)

lemma guard_same: "ok s \<Longrightarrow> guard ok msg s = (s, Ok ())"
  by (simp add: guard_def)

lemma set_default_same: "f s = s \<Longrightarrow> set_default f s = (s, Ok ())"
  by (simp add: set_default_def)

lemma behind_same: "get s = Some r \<Longrightarrow> f r = (r, Ok ()) \<Longrightarrow> put r s = s \<Longrightarrow> behind get put f s = (s, Ok ())"
  by (simp add: behind_def)

lemma on_condition_same: "(c s \<Longrightarrow> f s = (s, Ok ())) \<Longrightarrow> on_condition c f s = (s, Ok ())"
  by (simp add: on_condition_def)

lemmas check_same = guard_same set_default_same on_condition_same

lemma check_probe_same:
  assumes "ready_probe env p" and "steady_probe p"
  shows "check_probe env p = (p, Ok ())"
proof -
  have "unquote_send p = (p, Ok ())" using assms(2) by (simp add: unquote_send_def steady_probe_def)
  moreover have "unquote_recv p = (p, Ok ())" if "ProbeStrategy p = ''starts_with''"
    using assms(2) that by (simp add: unquote_recv_def steady_probe_def)
  moreover have "ProbeStrategy p \<noteq> []" using assms(1) by (auto simp: ready_probe_def)
  ultimately show ?thesis using assms
    by (auto simp: check_probe_def probe_strategy_def ready_probe_def steady_probe_def
        intro!: in_order_same check_same)
qed

lemma check_healthcheck_same:
  assumes "ready_healthcheck env h"
    and "\<And>p. hc_Kind h = ''probe'' \<Longrightarrow> hc_Probe h = Some p \<Longrightarrow> steady_probe p"
  shows "check_healthcheck env h = (h, Ok ())"
proof -
  have "default_healthcheck h = h" using assms(1)
    by (auto simp: default_healthcheck_def ready_healthcheck_def)
  moreover have "check_interval h = (h, Ok ())" if "hc_Kind h \<noteq> ''none''"
    using assms(1) that by (simp add: check_interval_Ok ready_healthcheck_def)
  moreover have "behind hc_Probe put_probe (check_probe env) h = (h, Ok ())" if "hc_Kind h = ''probe''"
    using assms that by (auto simp: ready_healthcheck_def put_probe_def intro!: behind_same check_probe_same)
  ultimately show ?thesis using assms(1)
    by (simp add: check_healthcheck_def ready_healthcheck_def in_order_same check_same)
qed

lemma check_sni_same: "ready_sni n \<Longrightarrow> check_sni n = (n, Ok ())"
  unfolding check_sni_def ready_sni_def by (rule in_order_same) (auto intro!: check_same)

lemma check_discovery_same:
  assumes "ready_discovery d"
  shows "check_discovery env d = (d, Ok ())"
proof -
  have "default_discovery d = d" using assms by (simp add: default_discovery_def ready_discovery_def)
  moreover have "behind disc_Srv put_srv check_srv d = (d, Ok ())" if k: "disc_Kind d = ''srv''"
  proof -
    obtain r where r: "disc_Srv d = Some r" "SrvDnsProtocol r \<in> {''udp'', ''tcp''}"
      using assms k by (auto simp: ready_discovery_def)
    then have "check_srv r = (r, Ok ())" unfolding check_srv_def by (intro in_order_same) (auto intro!: check_same)
    then show ?thesis using r by (simp add: behind_same put_srv_def)
  qed
  moreover have "behind disc_LXD put_lxd (check_lxd env) d = (d, Ok ())" if k: "disc_Kind d = ''lxd''"
  proof -
    obtain l where l: "disc_LXD d = Some l" "ready_lxd l" using assms k by (auto simp: ready_discovery_def)
    then have "check_lxd env l = (l, Ok ())" unfolding check_lxd_def ready_lxd_def
      by (intro in_order_same) (auto intro!: check_same)
    then show ?thesis using l by (simp add: behind_same put_lxd_def)
  qed
  moreover have "disc_Failpolicy d \<noteq> []" using assms by (auto simp: ready_discovery_def)
  ultimately show ?thesis using assms
    by (simp add: check_discovery_def ready_discovery_def in_order_same check_same)
qed

lemma inherit_own: "own \<noteq> None \<Longrightarrow> inherit own d = Ok own"
  by (auto simp: inherit_def)

lemma inherit_None [simp]: "inherit None (Some v) = Ok (Some v)"
  by (simp add: inherit_def)

lemma take_options_same:
  assumes "ready_options (srv_Protocol s = ''udp'') (srv_Options s)"
  shows "take_options (normalizeDefaults d) s = (s, Ok ())"
  using assms
  by (auto simp: take_options_def inherit_options_def ready_options_def inherit_own no_keepalive_def
      normalizeDefaults_def split: if_splits)

lemma check_protocol_same:
  assumes "ready_protocol s" and "ready_options (srv_Protocol s = ''udp'') (srv_Options s)" and "steady s"
  shows "check_protocol s = (s, Ok ())"
proof (cases "srv_Protocol s = ''udp''")
  case True
  then obtain u where "srv_Udp s = Some u" "srv_BackendsTls s = None"
    "co_ClientIdleTimeout (srv_Options s) \<noteq> None"
    using assms by (auto simp: ready_protocol_def ready_options_def)
  then have "check_udp s = (s, Ok ())" using assms(3) unfolding check_udp_def
    by (intro in_order_same) (auto simp: steady_def intro!: check_same)
  then show ?thesis using True by (simp add: check_protocol_def)
qed (use assms in \<open>auto simp: check_protocol_def ready_protocol_def\<close>)

lemma prepare_checks_same:
  assumes "ready env s" and "steady s"
  shows "in_order (prepare_checks env name (normalizeDefaults d)) s = (s, Ok ())"
proof -
  obtain di h where di: "srv_Discovery s = Some di" "ready_discovery di"
    and h: "srv_Healthcheck s = Some h" "ready_healthcheck env h" "ParseDuration (hc_Timeout h) \<noteq> None"
      "ParseDuration (hc_Interval h) \<noteq> None" "\<not> (hc_Kind h = ''ping'' \<and> srv_Protocol s = ''udp'')"
    using assms(1) by (auto simp: ready_def)
  have "behind srv_Healthcheck put_healthcheck (check_healthcheck env) s = (s, Ok ())"
    using h assms(2) by (auto simp: steady_def put_healthcheck_def intro!: behind_same check_healthcheck_same)
  moreover have "behind srv_Discovery put_discovery (check_discovery env) s = (s, Ok ())"
    using di by (auto simp: put_discovery_def intro!: behind_same check_discovery_same)
  moreover have "check_required name s = (s, Ok ())" using assms(1) by (auto simp: check_required_Ok ready_def)
  moreover have "check_sni_section s = (s, Ok ())" using assms(1)
    by (auto simp: ready_def check_sni_section_def check_sni_same split: option.splits prod.splits)
  moreover have "check_sources s = (s, Ok ())" using assms(2) by (auto simp: check_sources_Ok steady_def)
  moreover have "srv_Balance s \<noteq> []" using assms(1) by (auto simp: ready_def balance_kinds_def)
  ultimately show ?thesis unfolding prepare_checks_def
    using assms h
    by (intro in_order_same)
      (auto simp: ready_def check_proxy_protocol_Ok check_hc_section_Ok check_balance_Ok
        intro!: check_same take_options_same check_protocol_same)
qed

lemma prepareConfig_same:
  assumes "ready env s" and "steady s"
  shows "prepareConfig env name s (normalizeDefaults d) = (s, Ok s)"
proof -
  have "write_back s s = s" using assms(1) by (auto simp: write_back_def ready_def)
  then show ?thesis using prepare_checks_same [OF assms] by (simp add: prepareConfig_def)
qed

end
