(* ===== verification/Manager.thy ===== *)
theory Manager
  imports Servers Expand Prepare_Correct
begin

text \<open>
  The manager (src/src/manager/manager.go): the running servers, creating and deleting one, and
  reloading the configuration. A configuration struct is copied by value, but the discovery, health
  check and SNI records hang behind pointers, which copies share and \<open>prepareConfig\<close> writes to; so
  these records live in a heap, and a \<open>ServerRef\<close> is a copy of the struct with its pointers. Go maps
  are association lists with distinct keys, in the order of their iteration.
\<close>

section \<open>Configurations with shared records\<close>

record Heap =
  hp_Discovery :: "DiscoveryConfig list"
  hp_Healthcheck :: "HealthcheckConfig list"
  hp_Sni :: "SniConfig list"

record ServerRef =
  ref_val :: Server
  ref_Discovery :: "nat option"
  ref_Healthcheck :: "nat option"
  ref_Sni :: "nat option"

definition load :: "Heap \<Rightarrow> ServerRef \<Rightarrow> Server" where
  "load h r = (ref_val r)\<lparr>srv_Discovery := map_option (nth (hp_Discovery h)) (ref_Discovery r),
     srv_Healthcheck := map_option (nth (hp_Healthcheck h)) (ref_Healthcheck r),
     srv_Sni := map_option (nth (hp_Sni h)) (ref_Sni r)\<rparr>"

text \<open>Write a record through its pointer, or behind a fresh pointer when there was none.\<close>

definition point :: "'a list \<Rightarrow> nat option \<Rightarrow> 'a option \<Rightarrow> 'a list \<times> nat option" where
  "point xs p v = (case v of None \<Rightarrow> (xs, None)
     | Some x \<Rightarrow> (case p of None \<Rightarrow> (xs @ [x], Some (length xs)) | Some i \<Rightarrow> (xs[i := x], Some i)))"

definition repoint :: "Heap \<Rightarrow> ServerRef \<Rightarrow> Server \<Rightarrow> Heap \<times> ServerRef" where
  "repoint h r s =
     (let (ds, d) = point (hp_Discovery h) (ref_Discovery r) (srv_Discovery s);
          (hcs, hc) = point (hp_Healthcheck h) (ref_Healthcheck r) (srv_Healthcheck s);
          (ns, n) = point (hp_Sni h) (ref_Sni r) (srv_Sni s)
      in (\<lparr>hp_Discovery = ds, hp_Healthcheck = hcs, hp_Sni = ns\<rparr>,
          \<lparr>ref_val = s, ref_Discovery = d, ref_Healthcheck = hc, ref_Sni = n\<rparr>))"

text \<open>A freshly decoded configuration has pointers of its own.\<close>

definition fresh_ref :: "Heap \<Rightarrow> Server \<Rightarrow> Heap \<times> ServerRef" where
  "fresh_ref h s = repoint h \<lparr>ref_val = s, ref_Discovery = None, ref_Healthcheck = None, ref_Sni = None\<rparr> s"

definition prepare_ref ::
    "prepare_env \<Rightarrow> string \<Rightarrow> ServerRef \<Rightarrow> ConnectionOptions \<Rightarrow> Heap \<Rightarrow> Heap \<times> ServerRef outcome" where
  "prepare_ref env name r d h =
     (case prepareConfig env name (load h r) d of
        (raw, Ok s) \<Rightarrow> (case repoint h r s of (h, r) \<Rightarrow> (h, Ok r))
      | (raw, Err e) \<Rightarrow> (fst (repoint h r raw), Err e)
      | (raw, Panic) \<Rightarrow> (h, Panic))"

text \<open>The list that \<open>rewriteStaticListPorts\<close> copies is behind a new pointer.\<close>

definition rewrites_list :: "Server \<Rightarrow> bool" where
  "rewrites_list s \<longleftrightarrow> srv_MatchPort s \<and> (case srv_Discovery s of None \<Rightarrow> False
     | Some d \<Rightarrow> disc_Kind d = ''static'' \<and> disc_Static d \<noteq> None)"

fun child_refs :: "bool \<Rightarrow> ServerRef \<Rightarrow> (string \<times> Server) list \<Rightarrow> Heap \<Rightarrow> Heap \<times> (string \<times> ServerRef) list" where
  "child_refs new r [] h = (h, [])"
| "child_refs new r ((n, c) # cs) h =
     (let (h, rc) = repoint h (if new then r\<lparr>ref_Discovery := None\<rparr> else r) c;
          (h, rest) = child_refs new r cs h
      in (h, (n, rc) # rest))"

definition expand_ref ::
    "(string \<Rightarrow> template option) \<Rightarrow> string \<Rightarrow> ServerRef \<Rightarrow> Heap \<Rightarrow> Heap \<times> (string \<times> ServerRef) list outcome" where
  "expand_ref parse name r h =
     (case expandBinds parse name (load h r) of
        Ok cs \<Rightarrow> (case child_refs (rewrites_list (load h r) \<and> (elems (srv_Binds (load h r)) \<noteq> [] \<or> elems (srv_BindIPs (load h r)) \<noteq> [])) r cs h of
            (h, rs) \<Rightarrow> (h, Ok rs))
      | Err e \<Rightarrow> (h, Err e)
      | Panic \<Rightarrow> (h, Panic))"

fun add_expanded :: "(string \<times> 'a) list \<Rightarrow> (string \<times> 'a) list \<Rightarrow> (string \<times> 'a) list outcome" where
  "add_expanded result [] = Ok result"
| "add_expanded result ((n, c) # cs) =
     (if map_of result n \<noteq> None then Err (''server with this name already exists: '' @ n)
      else add_expanded (result @ [(n, c)]) cs)"

fun rawExpandedServers ::
    "(string \<Rightarrow> template option) \<Rightarrow> (string \<times> ServerRef) list \<Rightarrow> (string \<times> ServerRef) list \<Rightarrow> Heap \<Rightarrow>
     Heap \<times> (string \<times> ServerRef) list outcome" where
  "rawExpandedServers parse [] result h = (h, Ok result)"
| "rawExpandedServers parse ((name, r) # srvs) result h =
     (case expand_ref parse name r h of
        (h, Ok cs) \<Rightarrow> (case add_expanded result cs of
            Ok result \<Rightarrow> rawExpandedServers parse srvs result h
          | Err e \<Rightarrow> (h, Err e)
          | Panic \<Rightarrow> (h, Panic))
      | (h, Err e) \<Rightarrow> (h, Err e)
      | (h, Panic) \<Rightarrow> (h, Panic))"

fun prepare_all ::
    "prepare_env \<Rightarrow> ConnectionOptions \<Rightarrow> (string \<times> ServerRef) list \<Rightarrow> Heap \<Rightarrow> Heap \<times> (string \<times> ServerRef) list outcome" where
  "prepare_all env d [] h = (h, Ok [])"
| "prepare_all env d ((n, r) # rs) h =
     (case prepare_ref env n r d h of
        (h, Ok p) \<Rightarrow> (case prepare_all env d rs h of
            (h, Ok ps) \<Rightarrow> (h, Ok ((n, p) # ps)) | (h, Err e) \<Rightarrow> (h, Err e) | (h, Panic) \<Rightarrow> (h, Panic))
      | (h, Err e) \<Rightarrow> (h, Err e)
      | (h, Panic) \<Rightarrow> (h, Panic))"

section \<open>The manager's state\<close>

record menv =
  me_prepare :: prepare_env
  me_world :: world
  me_template :: "string \<Rightarrow> template option"

text \<open>\<open>cfg_Servers\<close> of \<open>rc_cfg\<close> is not used: \<open>rc_servers\<close> holds the servers with their pointers.\<close>

record RawConfig =
  rc_cfg :: Config
  rc_servers :: "(string \<times> ServerRef) list"

record Manager =
  mg_servers :: "(string \<times> (AServer \<times> ServerRef)) list"
  mg_defaults :: ConnectionOptions
  mg_originalCfg :: RawConfig
  mg_acme :: "string set option"
  mg_store :: Store
  mg_heap :: Heap

definition server_names :: "Manager \<Rightarrow> string list" where
  "server_names m = map fst (mg_servers m)"

definition Manager_Get :: "string \<Rightarrow> Manager \<Rightarrow> Server option" where
  "Manager_Get name m = map_option (\<lambda>(s, r). load (mg_heap m) r) (map_of (mg_servers m) name)"

definition Manager_All :: "Manager \<Rightarrow> (string \<times> Server) list" where
  "Manager_All m = map (\<lambda>(n, s, r). (n, load (mg_heap m) r)) (mg_servers m)"

section \<open>Create and delete\<close>

text \<open>What the discovery's constructor leaves behind the server's own pointer.\<close>

definition discovery_defaults :: "DiscoveryConfig \<Rightarrow> DiscoveryConfig" where
  "discovery_defaults d = (case Discovery_New (disc_Kind d) d of Ok x \<Rightarrow> dsc_cfg x | _ \<Rightarrow> d)"

definition start_new :: "menv \<Rightarrow> string \<Rightarrow> ServerRef \<Rightarrow> AServer \<Rightarrow> Manager \<Rightarrow> Manager \<times> unit outcome" where
  "start_new env name r s m =
     (case Acme_Enable s (mg_acme m) of
        (acme, Err e) \<Rightarrow> (m\<lparr>mg_acme := acme\<rparr>, Err e)
      | (acme, Panic) \<Rightarrow> (m, Panic)
      | (acme, Ok s) \<Rightarrow>
          (case Server_Start (me_world env) s (mg_store m) of
             (sto, Err e) \<Rightarrow> (m\<lparr>mg_acme := acme, mg_store := sto\<rparr>, Err e)
           | (sto, Panic) \<Rightarrow> (m, Panic)
           | (sto, Ok s) \<Rightarrow>
               (m\<lparr>mg_acme := acme, mg_store := sto, mg_servers := (name, s, r) # mg_servers m\<rparr>, Ok ())))"

definition create_server ::
    "menv \<Rightarrow> string \<Rightarrow> ServerRef \<Rightarrow> ConnectionOptions \<Rightarrow> Manager \<Rightarrow> Manager \<times> unit outcome" where
  "create_server env name raw d m =
     (if map_of (mg_servers m) name \<noteq> None then (m, Err (''Server with this name already exists: '' @ name))
      else (case prepare_ref (me_prepare env) name raw d (mg_heap m) of
          (h, Err e) \<Rightarrow> (m\<lparr>mg_heap := h\<rparr>, Err e)
        | (h, Panic) \<Rightarrow> (m, Panic)
        | (h, Ok r) \<Rightarrow>
            (let cfg = load h r;
                 (h, r) = repoint h r (cfg\<lparr>srv_Discovery := map_option discovery_defaults (srv_Discovery cfg)\<rparr>)
             in case server_New (me_world env) name cfg (mg_store m) of
                 (sto, Err e) \<Rightarrow> (m\<lparr>mg_heap := h, mg_store := sto\<rparr>, Err e)
               | (sto, Panic) \<Rightarrow> (m, Panic)
               | (sto, Ok s) \<Rightarrow> start_new env name r s (m\<lparr>mg_heap := h, mg_store := sto\<rparr>))))"

definition deleteServer :: "string \<Rightarrow> Manager \<Rightarrow> Manager \<times> unit outcome" where
  "deleteServer name m =
     (case map_of (mg_servers m) name of
        None \<Rightarrow> (m, Err ''Server not found'')
      | Some (s, r) \<Rightarrow>
          (m\<lparr>mg_store := Server_Stop s (mg_store m), mg_servers := clients_delete name (mg_servers m),
             mg_acme := Acme_Disable s (mg_acme m)\<rparr>, Ok ()))"

section \<open>Reload\<close>

record reloadPlan =
  rp_Added :: "string list"
  rp_Modified :: "string list"
  rp_Removed :: "string list"

definition planReload :: "(string \<times> Server) list \<Rightarrow> (string \<times> Server) list \<Rightarrow> reloadPlan" where
  "planReload current desired =
     \<lparr>rp_Added = sort (map fst (filter (\<lambda>p. map_of current (fst p) = None) desired)),
      rp_Modified = sort (map fst (filter (\<lambda>p. case map_of desired (fst p) of
          None \<Rightarrow> False | Some s \<Rightarrow> snd p \<noteq> s) current)),
      rp_Removed = sort (map fst (filter (\<lambda>p. map_of desired (fst p) = None) current))\<rparr>"

definition mergeReloadableConfig :: "RawConfig \<Rightarrow> RawConfig \<Rightarrow> RawConfig" where
  "mergeReloadableConfig current next =
     \<lparr>rc_cfg = (rc_cfg current)\<lparr>cfg_Logging := cfg_Logging (rc_cfg next), cfg_Defaults := cfg_Defaults (rc_cfg next)\<rparr>,
      rc_servers = rc_servers next\<rparr>"

definition warnUnsupportedReloadChanges :: "Config \<Rightarrow> Config \<Rightarrow> string list" where
  "warnUnsupportedReloadChanges current next =
     (if cfg_Api current \<noteq> cfg_Api next
      then [''Reload does not reconfigure the API server; restart required for [api] changes''] else []) @
     (if cfg_Metrics current \<noteq> cfg_Metrics next
      then [''Reload does not reconfigure metrics; restart required for [metrics] changes''] else []) @
     (if cfg_Profiler current \<noteq> cfg_Profiler next
      then [''Reload does not reconfigure profiler; restart required for [profiler] changes''] else []) @
     (if cfg_Acme current \<noteq> cfg_Acme next
      then [''Reload does not reinitialize ACME settings; restart required for top-level [acme] changes''] else [])"

fun delete_all :: "string list \<Rightarrow> Manager \<Rightarrow> Manager \<times> unit outcome" where
  "delete_all [] m = (m, Ok ())"
| "delete_all (n # ns) m = (case deleteServer n m of
     (m, Ok _) \<Rightarrow> delete_all ns m | (m, Err e) \<Rightarrow> (m, Err e) | (m, Panic) \<Rightarrow> (m, Panic))"

text \<open>Create the listed servers; an error starts with the name of the server, and comes with the names
  created so far.\<close>

fun create_all ::
    "menv \<Rightarrow> (string \<times> ServerRef) list \<Rightarrow> ConnectionOptions \<Rightarrow> string list \<Rightarrow> string list \<Rightarrow> Manager \<Rightarrow>
     Manager \<times> string list \<times> unit outcome" where
  "create_all env raw d [] created m = (m, created, Ok ())"
| "create_all env raw d (n # ns) created m =
     (case map_of raw n of
        None \<Rightarrow> (m, created, Err (n @ '': No bind specified for server '' @ n))
      | Some r \<Rightarrow> (case create_server env n r d m of
          (m, Ok _) \<Rightarrow> create_all env raw d ns (created @ [n]) m
        | (m, Err e) \<Rightarrow> (m, created, Err (n @ '': '' @ e))
        | (m, Panic) \<Rightarrow> (m, created, Panic)))"

fun restore_all ::
    "menv \<Rightarrow> (string \<times> ServerRef) list \<Rightarrow> ConnectionOptions \<Rightarrow> string list \<Rightarrow> Manager \<Rightarrow> Manager \<times> unit outcome" where
  "restore_all env raw d [] m = (m, Ok ())"
| "restore_all env raw d (n # ns) m =
     (case map_of raw n of
        None \<Rightarrow> restore_all env raw d ns m
      | Some r \<Rightarrow> (case create_server env n r d m of
          (m, Ok _) \<Rightarrow> restore_all env raw d ns m
        | (m, Err e) \<Rightarrow> (m, Err e)
        | (m, Panic) \<Rightarrow> (m, Panic)))"

definition rollbackReload ::
    "menv \<Rightarrow> string list \<Rightarrow> string list \<Rightarrow> (string \<times> ServerRef) list \<Rightarrow> ConnectionOptions \<Rightarrow> Manager \<Rightarrow>
     Manager \<times> unit outcome" where
  "rollbackReload env created replaced currentRaw d m =
     (case delete_all (rev created) m of
        (m, Ok _) \<Rightarrow> restore_all env currentRaw d replaced m
      | (m, Err e) \<Rightarrow> (m, Err e)
      | (m, Panic) \<Rightarrow> (m, Panic))"

text \<open>The part of \<open>Reload\<close> that changes servers.\<close>

definition apply_plan ::
    "menv \<Rightarrow> reloadPlan \<Rightarrow> (string \<times> ServerRef) list \<Rightarrow> (string \<times> ServerRef) list \<Rightarrow> ConnectionOptions \<Rightarrow>
     Manager \<Rightarrow> Manager \<times> unit outcome" where
  "apply_plan env plan nextRaw currentRaw nextDefaults m =
     (let replaced = rp_Modified plan @ rp_Removed plan
      in case delete_all replaced m of
          (m, Err e) \<Rightarrow> (m, Err e)
        | (m, Panic) \<Rightarrow> (m, Panic)
        | (m, Ok _) \<Rightarrow>
            (case create_all env nextRaw nextDefaults (rp_Added plan @ rp_Modified plan) [] m of
               (m, created, Ok _) \<Rightarrow> (m, Ok ())
             | (m, created, Panic) \<Rightarrow> (m, Panic)
             | (m, created, Err e) \<Rightarrow>
                 (case rollbackReload env created replaced currentRaw (mg_defaults m) m of
                    (m, Ok _) \<Rightarrow> (m, Err (''reload failed for '' @ e))
                  | (m, Err e') \<Rightarrow> (m, Err (''reload failed for '' @ e @ '' (rollback failed: '' @ e' @ '')''))
                  | (m, Panic) \<Rightarrow> (m, Panic))))"

text \<open>
  The first half of \<open>Reload\<close>, which only reads: the next and the current servers as they are written,
  and the plan. The preparation writes behind the pointers of the next configuration.
\<close>

definition reload_prepare ::
    "menv \<Rightarrow> RawConfig \<Rightarrow> Manager \<Rightarrow>
     Manager \<times> ((string \<times> ServerRef) list \<times> (string \<times> ServerRef) list \<times> reloadPlan) outcome" where
  "reload_prepare env next m =
     (case rawExpandedServers (me_template env) (rc_servers next) [] (mg_heap m) of
        (h, Err e) \<Rightarrow> (m\<lparr>mg_heap := h\<rparr>, Err e)
      | (h, Panic) \<Rightarrow> (m, Panic)
      | (h, Ok nextRaw) \<Rightarrow>
        (case prepare_all (me_prepare env) (normalizeDefaults (cfg_Defaults (rc_cfg next))) nextRaw h of
           (h, Err e) \<Rightarrow> (m\<lparr>mg_heap := h\<rparr>, Err e)
         | (h, Panic) \<Rightarrow> (m, Panic)
         | (h, Ok nextPrepared) \<Rightarrow>
           (case rawExpandedServers (me_template env) (rc_servers (mg_originalCfg m)) [] h of
              (h, Err e) \<Rightarrow> (m\<lparr>mg_heap := h\<rparr>, Err e)
            | (h, Panic) \<Rightarrow> (m, Panic)
            | (h, Ok currentRaw) \<Rightarrow>
                (let m = m\<lparr>mg_heap := h\<rparr>
                 in (m, Ok (nextRaw, currentRaw,
                       planReload (Manager_All m) (map (\<lambda>(n, r). (n, load h r)) nextPrepared)))))))"

definition empty_plan :: "reloadPlan \<Rightarrow> bool" where
  "empty_plan plan \<longleftrightarrow> rp_Added plan = [] \<and> rp_Modified plan = [] \<and> rp_Removed plan = []"

definition finish_reload :: "RawConfig \<Rightarrow> Manager \<Rightarrow> Manager" where
  "finish_reload next m = m\<lparr>mg_defaults := normalizeDefaults (cfg_Defaults (rc_cfg next)),
     mg_originalCfg := mergeReloadableConfig (mg_originalCfg m) next\<rparr>"

definition Reload :: "menv \<Rightarrow> RawConfig \<Rightarrow> Manager \<Rightarrow> Manager \<times> unit outcome" where
  "Reload env next m =
     (case reload_prepare env next m of
        (m, Err e) \<Rightarrow> (m, Err e)
      | (m, Panic) \<Rightarrow> (m, Panic)
      | (m, Ok (nextRaw, currentRaw, plan)) \<Rightarrow>
          if empty_plan plan then (finish_reload next m, Ok ())
          else (case apply_plan env plan nextRaw currentRaw (normalizeDefaults (cfg_Defaults (rc_cfg next))) m of
              (m, Err e) \<Rightarrow> (m, Err e)
            | (m, Panic) \<Rightarrow> (m, Panic)
            | (m, Ok _) \<Rightarrow> (finish_reload next m, Ok ())))"

section \<open>Initialize and the API's operations\<close>

fun initialize_servers :: "menv \<Rightarrow> (string \<times> ServerRef) list \<Rightarrow> Manager \<Rightarrow> Manager \<times> unit outcome" where
  "initialize_servers env [] m = (m, Ok ())"
| "initialize_servers env ((name, r) # srvs) m =
     (case expand_ref (me_template env) name r (mg_heap m) of
        (h, Ok cs) \<Rightarrow>
          (case create_all env cs (mg_defaults m) (map fst cs) [] (m\<lparr>mg_heap := h\<rparr>) of
             (m, _, Ok _) \<Rightarrow> initialize_servers env srvs m
           | (m, _, _) \<Rightarrow> (m, Panic))
      | (h, _) \<Rightarrow> (m, Panic))"

text \<open>
  A failure is \<open>log.Fatal\<close>. The defaults of the \<open>[acme]\<close> section are written behind a pointer that
  \<open>originalCfg\<close> shares.
\<close>

definition Initialize :: "menv \<Rightarrow> RawConfig \<Rightarrow> Heap \<Rightarrow> Manager \<times> unit outcome" where
  "Initialize env cfg h =
     initialize_servers env (rc_servers cfg)
       \<lparr>mg_servers = [], mg_defaults = normalizeDefaults (cfg_Defaults (rc_cfg cfg)), mg_originalCfg = cfg\<lparr>rc_cfg := initConfigGlobals (rc_cfg cfg)\<rparr>,
        mg_acme = NewAcmeService (initConfigGlobals (rc_cfg cfg)), mg_store = empty_store, mg_heap = h\<rparr>"

text \<open>The address at which \<open>Initialize\<close> starts the profiler's HTTP endpoint, when it does.\<close>

definition initProfiler :: "Config \<Rightarrow> string option" where
  "initProfiler cfg = (case cfg_Profiler cfg of
       None \<Rightarrow> None
     | Some p \<Rightarrow> if prof_Enabled p then Some (prof_Bind p) else None)"

text \<open>\<open>Stats\<close> of the manager: the server object of a name.\<close>

definition Manager_Stats :: "string \<Rightarrow> Manager \<Rightarrow> AServer option" where
  "Manager_Stats name m = map_option fst (map_of (mg_servers m) name)"

definition Manager_Create :: "menv \<Rightarrow> string \<Rightarrow> Server \<Rightarrow> Manager \<Rightarrow> Manager \<times> unit outcome" where
  "Manager_Create env name cfg m =
     (case fresh_ref (mg_heap m) cfg of (h, r) \<Rightarrow> create_server env name r (mg_defaults m) (m\<lparr>mg_heap := h\<rparr>))"

definition Manager_Delete :: "string \<Rightarrow> Manager \<Rightarrow> Manager \<times> unit outcome" where
  "Manager_Delete name m = deleteServer name m"

text \<open>\<open>DumpConfig\<close> replaces the servers of the original configuration by the running ones.\<close>

definition DumpConfig :: "Manager \<Rightarrow> Manager" where
  "DumpConfig m = m\<lparr>mg_originalCfg := (mg_originalCfg m)
     \<lparr>rc_servers := map (\<lambda>(n, s, r). (n, r)) (mg_servers m)\<rparr>\<rparr>"

section \<open>Runs\<close>

text \<open>The decoder allocates the records of a configuration file.\<close>

fun fresh_refs :: "(string \<times> Server) list \<Rightarrow> Heap \<Rightarrow> Heap \<times> (string \<times> ServerRef) list" where
  "fresh_refs [] h = (h, [])"
| "fresh_refs ((n, s) # ss) h =
     (let (h, r) = fresh_ref h s; (h, rs) = fresh_refs ss h in (h, (n, r) # rs))"

definition decode_config :: "Config \<Rightarrow> (string \<times> Server) list \<Rightarrow> Heap \<Rightarrow> Heap \<times> RawConfig" where
  "decode_config cfg servers h = (case fresh_refs servers h of (h, rs) \<Rightarrow> (h, \<lparr>rc_cfg = cfg, rc_servers = rs\<rparr>))"

definition empty_heap :: Heap where
  "empty_heap = \<lparr>hp_Discovery = [], hp_Healthcheck = [], hp_Sni = []\<rparr>"

definition boot :: "menv \<Rightarrow> Config \<Rightarrow> (string \<times> Server) list \<Rightarrow> Manager \<times> unit outcome" where
  "boot env cfg servers = (case decode_config cfg servers empty_heap of (h, rc) \<Rightarrow> Initialize env rc h)"

datatype mg_event =
    OpCreate string Server
  | OpDelete string
  | OpReload Config "(string \<times> Server) list"
  | OpDump

fun mg_step :: "menv \<Rightarrow> mg_event \<Rightarrow> Manager \<Rightarrow> Manager \<times> unit outcome" where
  "mg_step env (OpCreate name cfg) m = Manager_Create env name cfg m"
| "mg_step env (OpDelete name) m = Manager_Delete name m"
| "mg_step env (OpReload cfg servers) m =
     (case decode_config cfg servers (mg_heap m) of (h, rc) \<Rightarrow> Reload env rc (m\<lparr>mg_heap := h\<rparr>))"
| "mg_step env OpDump m = (DumpConfig m, Ok ())"

text \<open>The states that the operations reach, whether they succeed or return an error.\<close>

inductive mg_reachable :: "menv \<Rightarrow> Manager \<Rightarrow> bool" for env where
  mg_boot: "boot env cfg servers = (m, Ok u) \<Longrightarrow> mg_reachable env m"
| mg_op: "mg_reachable env m \<Longrightarrow> mg_step env ev m = (m', res) \<Longrightarrow> res \<noteq> Panic \<Longrightarrow> mg_reachable env m'"

end
