(* ===== verification/Manager_Correct.thy ===== *)
theory Manager_Correct
  imports Manager
begin

text \<open>
  Lemmas on the manager: what each operation does to the map of servers, the invariant that ties the
  running servers to the store of statistics, and the effect of a reload plan.
\<close>

section \<open>Create and delete\<close>

lemma start_new_cases:
  assumes "start_new env name r s m = (m', res)"
  shows "mg_defaults m' = mg_defaults m \<and> mg_originalCfg m' = mg_originalCfg m \<and>
    (case res of Ok _ \<Rightarrow> \<exists>s'. mg_servers m' = (name, s', r) # mg_servers m \<and> as_handler s' = as_handler s \<and>
        as_name s' = as_name s \<and> as_cfg s' = as_cfg s \<and> as_tcp s' = as_tcp s \<and>
        mg_store m' = Handler_Start (as_handler s) (mg_store m)
     | Err _ \<Rightarrow> mg_servers m' = mg_servers m \<and> (mg_store m' = mg_store m \<or> mg_store m' = Handler_stop (as_handler s) (Handler_Start (as_handler s) (mg_store m)))
     | Panic \<Rightarrow> m' = m)"
proof -
  obtain acme en where en: "Acme_Enable s (mg_acme m) = (acme, en)" by fastforce
  show ?thesis
  proof (cases en)
    case (Ok s1)
    have s1: "as_handler s1 = as_handler s" "as_name s1 = as_name s" "as_cfg s1 = as_cfg s" "as_tcp s1 = as_tcp s"
      using en Ok by (auto simp: Acme_Enable_def split: option.splits if_splits prod.splits outcome.splits)
    obtain sto st where st: "Server_Start (me_world env) s1 (mg_store m) = (sto, st)" by fastforce
    show ?thesis
    proof (cases st)
      case (Ok s2)
      with Server_Start_frame [of _ s1 _ sto s2] st s1 en \<open>en = Ok s1\<close> assms show ?thesis
        by (auto simp: start_new_def)
    next
      case (Err e)
      have "sto = mg_store m \<or> sto = Handler_stop (as_handler s) (Handler_Start (as_handler s) (mg_store m))"
        using st Err s1
        by (auto simp: Server_Start_def tcp_Start_def udp_Start_def start_scheduler_def Server_Stop_def Let_def
            Discovery_Start_def session_config_def split: outcome.splits if_splits option.splits)
      then show ?thesis using assms en \<open>en = Ok s1\<close> st Err by (auto simp: start_new_def)
    qed (use assms en Ok st in \<open>auto simp: start_new_def\<close>)
  qed (use assms en in \<open>auto simp: start_new_def\<close>)
qed

text \<open>
  Names are unique, and the store shows, under the name of a running server, that server's handler.
\<close>

definition mg_inv :: "Manager \<Rightarrow> bool" where
  "mg_inv m \<longleftrightarrow> distinct (server_names m) \<and> store_inv (mg_store m) \<and>
     (\<forall>(n, s, r) \<in> set (mg_servers m). as_name s = n \<and> sto_handlers (mg_store m) n = Some (as_handler s))"

lemma running_handler:
  "mg_inv m \<Longrightarrow> (n, s, r) \<in> set (mg_servers m) \<Longrightarrow>
   as_name s = n \<and> sto_handlers (mg_store m) n = Some (as_handler s) \<and> as_handler s < length (sto_objs (mg_store m)) \<and>
   hd_Name (sto_objs (mg_store m) ! as_handler s) = n"
  unfolding mg_inv_def store_inv_def by fastforce

lemma NewHandler_simps:
  "fst (NewHandler name sto) = length (sto_objs sto)"
  "sto_handlers (snd (NewHandler name sto)) = (sto_handlers sto)(name \<mapsto> length (sto_objs sto))"
  by (simp_all add: NewHandler_def Let_def)

lemma store_inv_New: "store_inv sto \<Longrightarrow> store_inv (snd (NewHandler name sto))"
  using store_inv_NewHandler [of sto name] by (cases "NewHandler name sto") auto

lemma store_inv_Start: "store_inv sto \<Longrightarrow> store_inv (Handler_Start i sto)"
  unfolding Handler_Start_def by (erule store_inv_update) simp

lemma handlers_Start [simp]: "sto_handlers (Handler_Start i sto) = sto_handlers sto"
  by (simp add: Handler_Start_def)

lemma server_New_store:
  assumes "server_New w name cfg sto = (sto', res)"
  shows "sto' = sto \<and> (\<forall>s. res \<noteq> Ok s) \<or> sto' = snd (NewHandler name sto)"
  using assms by (auto simp: server_New_def tcp_New_def udp_New_def Let_def split: if_splits prod.splits)

lemma server_New_Ok:
  assumes "server_New w name cfg sto = (sto', Ok s)"
  shows "sto' = snd (NewHandler name sto) \<and> as_name s = name \<and> as_handler s = length (sto_objs sto) \<and>
    as_tcp s = (srv_Protocol cfg \<noteq> ''udp'') \<and> as_cfg s = cfg\<lparr>srv_Discovery := srv_Discovery (as_cfg s)\<rparr>"
proof -
  have "srv_Protocol cfg \<in> {''tcp'', ''tls'', ''udp''}" using assms by (auto simp: server_New_def split: if_splits)
  from server_New_handler [OF assms this] show ?thesis by (simp add: NewHandler_simps)
qed

text \<open>The effect of \<open>create\<close> on everything but the heap.\<close>

lemma create_server_cases:
  assumes "create_server env name raw d m = (m', res)"
  shows "mg_defaults m' = mg_defaults m \<and> mg_originalCfg m' = mg_originalCfg m \<and>
    (case res of
       Ok _ \<Rightarrow> name \<notin> set (server_names m) \<and> (\<exists>s r. mg_servers m' = (name, s, r) # mg_servers m \<and>
         as_name s = name \<and> as_handler s = length (sto_objs (mg_store m)) \<and>
         mg_store m' = Handler_Start (as_handler s) (snd (NewHandler name (mg_store m))))
     | _ \<Rightarrow> mg_servers m' = mg_servers m \<and>
         (mg_store m' = mg_store m \<or> name \<notin> set (server_names m) \<and>
           (mg_store m' = snd (NewHandler name (mg_store m)) \<or>
            mg_store m' = Handler_stop (length (sto_objs (mg_store m)))
              (Handler_Start (length (sto_objs (mg_store m))) (snd (NewHandler name (mg_store m)))))))"
proof (cases "map_of (mg_servers m) name = None")
  case False
  then show ?thesis using assms by (auto simp: create_server_def)
next
  case True
  then have fresh: "name \<notin> set (server_names m)" by (simp add: map_of_eq_None_iff server_names_def)
  obtain h pr where pr: "prepare_ref (me_prepare env) name raw d (mg_heap m) = (h, pr)" by fastforce
  show ?thesis
  proof (cases pr)
    case (Ok r)
    let ?cfg = "load h r"
    obtain h' r' where rp: "repoint h r (?cfg\<lparr>srv_Discovery := map_option discovery_defaults (srv_Discovery ?cfg)\<rparr>) = (h', r')"
      by fastforce
    obtain sto sv where sv: "server_New (me_world env) name ?cfg (mg_store m) = (sto, sv)" by fastforce
    show ?thesis
    proof (cases sv)
      case (Ok s)
      have st: "start_new env name r' s (m\<lparr>mg_heap := h', mg_store := sto\<rparr>) = (m', res)"
        using assms True pr \<open>pr = Ok r\<close> rp sv Ok by (simp add: create_server_def)
      from start_new_cases [OF st] server_New_Ok [OF sv [unfolded Ok]] fresh show ?thesis
        by (auto split: outcome.splits)
    next
      case (Err e)
      then show ?thesis using assms True pr \<open>pr = Ok r\<close> rp sv fresh server_New_store [OF sv]
        by (auto simp: create_server_def)
    next
      case Panic
      then show ?thesis using assms True pr \<open>pr = Ok r\<close> rp sv by (auto simp: create_server_def)
    qed
  qed (use assms True pr in \<open>auto simp: create_server_def\<close>)
qed

lemma create_server_inv:
  assumes "create_server env name raw d m = (m', res)" and "mg_inv m"
  shows "mg_inv m'"
proof -
  let ?sto = "mg_store m" and ?i = "length (sto_objs (mg_store m))"
  let ?new = "snd (NewHandler name ?sto)"
  have inv: "store_inv ?sto" "store_inv ?new" "store_inv (Handler_Start ?i ?new)"
    using assms(2) store_inv_New store_inv_Start by (auto simp: mg_inv_def)
  have kept: "sto_handlers ?new n = Some (as_handler s) \<and>
      sto_handlers (Handler_stop ?i (Handler_Start ?i ?new)) n = Some (as_handler s)"
    if "(n, s, r) \<in> set (mg_servers m)" "name \<notin> set (server_names m)" for n s r
  proof -
    have "n \<noteq> name" using that by (force simp: server_names_def)
    then show ?thesis using running_handler [OF assms(2) that(1)] inv
      by (simp add: NewHandler_simps handlers_stop)
  qed
  note c = create_server_cases [OF assms(1)]
  show ?thesis
  proof (cases res)
    case (Ok u)
    then obtain s r where s: "name \<notin> set (server_names m)" "mg_servers m' = (name, s, r) # mg_servers m"
      "as_name s = name" "as_handler s = ?i" "mg_store m' = Handler_Start ?i ?new" using c by auto
    then show ?thesis using assms(2) kept inv unfolding mg_inv_def
      by (auto simp: server_names_def NewHandler_simps)
  next
    case (Err e)
    then have "mg_servers m' = mg_servers m" "mg_store m' = ?sto \<or> name \<notin> set (server_names m) \<and>
      (mg_store m' = ?new \<or> mg_store m' = Handler_stop ?i (Handler_Start ?i ?new))" using c by auto
    then show ?thesis using assms(2) kept inv store_inv_stop [OF inv(3)] unfolding mg_inv_def
      by (auto simp: server_names_def)
  next
    case Panic
    then have "mg_servers m' = mg_servers m" "mg_store m' = ?sto \<or> name \<notin> set (server_names m) \<and>
      (mg_store m' = ?new \<or> mg_store m' = Handler_stop ?i (Handler_Start ?i ?new))" using c by auto
    then show ?thesis using assms(2) kept inv store_inv_stop [OF inv(3)] unfolding mg_inv_def
      by (auto simp: server_names_def)
  qed
qed

lemma deleteServer_cases:
  assumes "deleteServer name m = (m', res)"
  shows "mg_defaults m' = mg_defaults m \<and> mg_originalCfg m' = mg_originalCfg m \<and> mg_heap m' = mg_heap m \<and>
    (case res of Ok _ \<Rightarrow> \<exists>s r. map_of (mg_servers m) name = Some (s, r) \<and>
        mg_servers m' = clients_delete name (mg_servers m) \<and> mg_store m' = Server_Stop s (mg_store m)
     | Err _ \<Rightarrow> m' = m \<and> name \<notin> set (server_names m) | Panic \<Rightarrow> False)"
  using assms by (auto simp: deleteServer_def map_of_eq_None_iff server_names_def split: option.splits)

lemma deleteServer_inv:
  assumes "deleteServer name m = (m', res)" and "mg_inv m"
  shows "mg_inv m'"
proof (cases res)
  case (Ok u)
  then obtain s r where s: "map_of (mg_servers m) name = Some (s, r)" "mg_servers m' = clients_delete name (mg_servers m)"
    "mg_store m' = Server_Stop s (mg_store m)"
    using deleteServer_cases [OF assms(1)] by auto
  then have in_m: "(name, s, r) \<in> set (mg_servers m)" by (simp add: map_of_SomeD)
  have kept: "sto_handlers (mg_store m') n = Some (as_handler t)"
    if "(n, t, q) \<in> set (mg_servers m)" "n \<noteq> name" for n t q
  proof -
    have "as_handler t \<noteq> as_handler s"
      using running_handler [OF assms(2) in_m] running_handler [OF assms(2) that(1)] that(2) by auto
    then show ?thesis using running_handler [OF assms(2) that(1)] assms(2) s(3)
      by (auto simp: mg_inv_def Server_Stop_def handlers_stop)
  qed
  show ?thesis using assms(2) s kept store_inv_stop unfolding mg_inv_def
    by (auto simp: server_names_def clients_delete_def distinct_map_filter Server_Stop_def)
next
  case (Err e)
  then show ?thesis using deleteServer_cases [OF assms(1)] assms(2) by simp
next
  case Panic
  then show ?thesis using deleteServer_cases [OF assms(1)] by simp
qed

section \<open>Carrying out a plan\<close>

lemma delete_all_cases:
  "delete_all ns m = (m', res) \<Longrightarrow> mg_inv m \<Longrightarrow>
   mg_inv m' \<and> mg_defaults m' = mg_defaults m \<and> mg_originalCfg m' = mg_originalCfg m \<and>
   (\<forall>u. res = Ok u \<longrightarrow> mg_servers m' = filter (\<lambda>p. fst p \<notin> set ns) (mg_servers m))"
proof (induction ns arbitrary: m)
  case (Cons n ns)
  obtain m1 r1 where d: "deleteServer n m = (m1, r1)" by fastforce
  note c = deleteServer_cases [OF d] and inv = deleteServer_inv [OF d Cons.prems(2)]
  show ?case
  proof (cases r1)
    case (Ok u)
    then have "delete_all ns m1 = (m', res)" using Cons.prems(1) d by simp
    from Cons.IH [OF this inv] c Ok show ?thesis
      by (auto simp: clients_delete_def)
  qed (use Cons.prems(1) d c inv in auto)
qed auto

lemma create_all_cases:
  "create_all env raw d ns created m = (m', created', res) \<Longrightarrow> mg_inv m \<Longrightarrow>
   mg_inv m' \<and> mg_defaults m' = mg_defaults m \<and> mg_originalCfg m' = mg_originalCfg m \<and>
   (\<exists>dn. created' = created @ dn \<and> (\<exists>new. mg_servers m' = new @ mg_servers m \<and> map fst new = rev dn) \<and>
     (\<exists>rest. ns = dn @ rest \<and> (\<forall>u. res = Ok u \<longrightarrow> rest = [])))"
proof (induction ns arbitrary: created m)
  case Nil
  then show ?case by (auto intro!: exI [of _ "[]"])
next
  case (Cons n ns)
  show ?case
  proof (cases "map_of raw n")
    case None
    then show ?thesis using Cons.prems by (auto intro!: exI [of _ "[]"])
  next
    case (Some r)
    obtain m1 r1 where cr: "create_server env n r d m = (m1, r1)" by fastforce
    note c = create_server_cases [OF cr] and inv = create_server_inv [OF cr Cons.prems(2)]
    show ?thesis
    proof (cases r1)
      case (Ok u)
      then have "create_all env raw d ns (created @ [n]) m1 = (m', created', res)" using Cons.prems(1) Some cr by simp
      from Cons.IH [OF this inv] obtain dn new rest where
        i: "mg_inv m'" "mg_defaults m' = mg_defaults m1" "mg_originalCfg m' = mg_originalCfg m1"
          "created' = (created @ [n]) @ dn" "mg_servers m' = new @ mg_servers m1" "map fst new = rev dn"
          "ns = dn @ rest" "\<forall>u. res = Ok u \<longrightarrow> rest = []" by blast
      from c Ok obtain s q where s: "mg_servers m1 = (n, s, q) # mg_servers m" by auto
      have "mg_servers m' = (new @ [(n, s, q)]) @ mg_servers m" using i(5) s by simp
      moreover have "map fst (new @ [(n, s, q)]) = rev (n # dn)" using i(6) by simp
      moreover have "created' = created @ n # dn" "n # ns = (n # dn) @ rest" using i(4,7) by simp_all
      ultimately have "\<exists>dn. created' = created @ dn \<and> (\<exists>new. mg_servers m' = new @ mg_servers m \<and> map fst new = rev dn) \<and>
        (\<exists>rest. n # ns = dn @ rest \<and> (\<forall>u. res = Ok u \<longrightarrow> rest = []))"
        using i(8) by (intro exI [of _ "n # dn"] conjI exI [of _ "new @ [(n, s, q)]"] exI [of _ rest])
      then show ?thesis using i(1-3) c by simp
    next
      case (Err e)
      then show ?thesis using Cons.prems Some cr c inv by (auto intro!: exI [of _ "[]"])
    next
      case Panic
      then show ?thesis using Cons.prems Some cr c inv by (auto intro!: exI [of _ "[]"])
    qed
  qed
qed

lemma restore_all_cases:
  "restore_all env raw d ns m = (m', res) \<Longrightarrow> mg_inv m \<Longrightarrow>
   mg_inv m' \<and> mg_defaults m' = mg_defaults m \<and> mg_originalCfg m' = mg_originalCfg m \<and>
   (\<exists>new. mg_servers m' = new @ mg_servers m \<and>
     (\<forall>u. res = Ok u \<longrightarrow> map fst new = rev (filter (\<lambda>n. map_of raw n \<noteq> None) ns)))"
proof (induction ns arbitrary: m)
  case (Cons n ns)
  show ?case
  proof (cases "map_of raw n")
    case None
    then show ?thesis using Cons by simp
  next
    case (Some r)
    obtain m1 r1 where cr: "create_server env n r d m = (m1, r1)" by fastforce
    note c = create_server_cases [OF cr] and inv = create_server_inv [OF cr Cons.prems(2)]
    show ?thesis
    proof (cases r1)
      case (Ok u)
      then have "restore_all env raw d ns m1 = (m', res)" using Cons.prems(1) Some cr by simp
      from Cons.IH [OF this inv] obtain new where
        i: "mg_inv m'" "mg_defaults m' = mg_defaults m1" "mg_originalCfg m' = mg_originalCfg m1"
          "mg_servers m' = new @ mg_servers m1"
          "\<forall>u. res = Ok u \<longrightarrow> map fst new = rev (filter (\<lambda>n. map_of raw n \<noteq> None) ns)" by blast
      from c Ok obtain s q where "mg_servers m1 = (n, s, q) # mg_servers m" by auto
      then show ?thesis using i c Some by (intro conjI exI [of _ "new @ [(n, s, q)]"]) auto
    qed (use Cons.prems Some cr c inv in auto)
  qed
qed auto

section \<open>The plan\<close>

lemma planReload_sets:
  "set (rp_Added (planReload current desired)) = fst ` set desired - fst ` set current"
  "set (rp_Removed (planReload current desired)) = fst ` set current - fst ` set desired"
  "set (rp_Modified (planReload current desired)) \<subseteq> fst ` set current \<inter> fst ` set desired"
proof -
  show "set (rp_Added (planReload current desired)) = fst ` set desired - fst ` set current"
    "set (rp_Removed (planReload current desired)) = fst ` set current - fst ` set desired"
    by (auto simp: planReload_def map_of_eq_None_iff)
  have "n \<in> fst ` set current \<inter> fst ` set desired" if "n \<in> set (rp_Modified (planReload current desired))" for n
  proof -
    from that obtain c d where "(n, c) \<in> set current" "map_of desired n = Some d"
      by (auto simp: planReload_def split: option.splits)
    then show ?thesis by (force dest: map_of_SomeD)
  qed
  then show "set (rp_Modified (planReload current desired)) \<subseteq> fst ` set current \<inter> fst ` set desired" by blast
qed

lemma planReload_Modified:
  assumes "distinct (map fst current)"
  shows "n \<in> set (rp_Modified (planReload current desired)) \<longleftrightarrow>
    (\<exists>c d. map_of current n = Some c \<and> map_of desired n = Some d \<and> c \<noteq> d)"
  using assms by (force simp: planReload_def split: option.splits)

lemma planReload_sorted:
  assumes "distinct (map fst current)" and "distinct (map fst desired)" and "plan = planReload current desired"
  shows "sorted (rp_Added plan) \<and> sorted (rp_Modified plan) \<and> sorted (rp_Removed plan) \<and>
    distinct (rp_Added plan) \<and> distinct (rp_Modified plan) \<and> distinct (rp_Removed plan)"
  using assms by (simp add: planReload_def distinct_map_filter)

lemma sort_mset_eq: "mset xs = mset ys \<Longrightarrow> sort xs = sort ys"
  by (rule properties_for_sort) simp_all

lemma planReload_order:
  assumes "mset current = mset current'" and "mset desired = mset desired'"
    and "distinct (map fst current)" and "distinct (map fst desired)"
  shows "planReload current desired = planReload current' desired'"
proof -
  have eq: "map_of xs = map_of ys" if "mset xs = mset ys" "distinct (map fst xs)" for xs ys :: "(string \<times> Server) list"
  proof -
    have "mset (map fst xs) = mset (map fst ys)" using that(1) by simp
    then have "distinct (map fst ys)" using that(2) mset_eq_imp_distinct_iff by blast
    moreover have "set xs = set ys" using that(1) mset_eq_setD by blast
    ultimately show ?thesis using that(2) by (simp add: map_of_inject_set)
  qed
  have "map_of current = map_of current'" "map_of desired = map_of desired'" using eq assms by blast+
  then show ?thesis using assms(1,2) by (auto simp: planReload_def intro!: sort_mset_eq)
qed

section \<open>Reload\<close>

lemma prepare_all_names: "prepare_all env d rs h = (h', Ok ps) \<Longrightarrow> map fst ps = map fst rs"
  by (induction rs arbitrary: h h' ps) (auto split: prod.splits outcome.splits)

lemma add_expanded_distinct:
  "add_expanded result cs = Ok r \<Longrightarrow> distinct (map fst result) \<Longrightarrow> distinct (map fst r)"
  by (induction result cs rule: add_expanded.induct) (auto simp: map_of_eq_None_iff split: if_splits)

lemma rawExpandedServers_distinct:
  "rawExpandedServers parse srvs result h = (h', Ok r) \<Longrightarrow> distinct (map fst result) \<Longrightarrow> distinct (map fst r)"
  by (induction parse srvs result h rule: rawExpandedServers.induct)
    (auto split: prod.splits outcome.splits dest: add_expanded_distinct)

lemma Manager_All_names: "map fst (Manager_All m) = server_names m"
  by (auto simp: Manager_All_def server_names_def)

lemma reload_prepare_Ok:
  assumes "reload_prepare env next m = (m1, Ok (nextRaw, currentRaw, plan))"
  shows "(\<exists>h. m1 = m\<lparr>mg_heap := h\<rparr>) \<and> distinct (map fst nextRaw) \<and>
    (\<exists>desired. map fst desired = map fst nextRaw \<and> plan = planReload (Manager_All m1) desired)"
proof -
  obtain h1 h2 h3 ps where
    s: "rawExpandedServers (me_template env) (rc_servers next) [] (mg_heap m) = (h1, Ok nextRaw)"
    "prepare_all (me_prepare env) (normalizeDefaults (cfg_Defaults (rc_cfg next))) nextRaw h1 = (h2, Ok ps)"
    "m1 = m\<lparr>mg_heap := h3\<rparr>" "plan = planReload (Manager_All m1) (map (\<lambda>(n, r). (n, load h3 r)) ps)"
    using assms by (auto simp: reload_prepare_def Let_def split: prod.splits outcome.splits)
  have "map fst (map (\<lambda>(n, r). (n, load h3 r)) ps) = map fst nextRaw"
    using prepare_all_names [OF s(2)] by (auto simp: comp_def split_beta)
  moreover have "distinct (map fst nextRaw)" using rawExpandedServers_distinct [OF s(1)] by simp
  ultimately show ?thesis using s(3,4) by blast
qed

lemma reload_prepare_frame:
  assumes "reload_prepare env next m = (m1, res)"
  shows "\<exists>h. m1 = m\<lparr>mg_heap := h\<rparr>"
  using assms by (auto simp: reload_prepare_def Let_def split: prod.splits outcome.splits intro: exI [of _ "mg_heap m"])

lemma mg_inv_heap [simp]: "mg_inv (m\<lparr>mg_heap := h\<rparr>) \<longleftrightarrow> mg_inv m"
  by (simp add: mg_inv_def server_names_def)

lemma mg_inv_finish [simp]: "mg_inv (finish_reload next m) \<longleftrightarrow> mg_inv m"
  by (simp add: mg_inv_def server_names_def finish_reload_def)

lemma rollbackReload_cases:
  assumes "rollbackReload env created replaced raw d m = (m', res)" and "mg_inv m"
  shows "mg_inv m' \<and> mg_defaults m' = mg_defaults m \<and> mg_originalCfg m' = mg_originalCfg m \<and>
    (\<forall>u. res = Ok u \<longrightarrow> (\<exists>new. mg_servers m' = new @ filter (\<lambda>p. fst p \<notin> set created) (mg_servers m) \<and>
       map fst new = rev (filter (\<lambda>n. map_of raw n \<noteq> None) replaced)))"
proof -
  obtain m1 r1 where d: "delete_all (rev created) m = (m1, r1)" by fastforce
  note c = delete_all_cases [OF d assms(2)]
  show ?thesis
  proof (cases r1)
    case (Ok u)
    then have r: "restore_all env raw d replaced m1 = (m', res)" using assms(1) d by (simp add: rollbackReload_def)
    from restore_all_cases [OF r] c Ok show ?thesis by auto
  qed (use assms d c in \<open>auto simp: rollbackReload_def\<close>)
qed

lemma apply_plan_cases:
  assumes "apply_plan env plan nextRaw currentRaw d m = (m', res)" and "mg_inv m"
  shows "mg_inv m' \<and> mg_defaults m' = mg_defaults m \<and> mg_originalCfg m' = mg_originalCfg m \<and>
    (\<forall>u. res = Ok u \<longrightarrow> (\<exists>new. map fst new = rev (rp_Added plan @ rp_Modified plan) \<and>
       mg_servers m' = new @ filter (\<lambda>p. fst p \<notin> set (rp_Modified plan @ rp_Removed plan)) (mg_servers m)))"
proof -
  let ?replaced = "rp_Modified plan @ rp_Removed plan"
  obtain m1 r1 where d: "delete_all ?replaced m = (m1, r1)" by fastforce
  note c = delete_all_cases [OF d assms(2)]
  show ?thesis
  proof (cases r1)
    case (Ok u)
    obtain m2 created r2 where cr: "create_all env nextRaw d (rp_Added plan @ rp_Modified plan) [] m1 = (m2, created, r2)"
      by (metis prod_cases3)
    from c have inv1: "mg_inv m1" by blast
    note cc = create_all_cases [OF cr inv1]
    show ?thesis
    proof (cases r2)
      case (Ok v)
      then have "m' = m2" "res = Ok ()" using assms(1) d cr \<open>r1 = Ok u\<close> by (auto simp: apply_plan_def)
      with cc c Ok \<open>r1 = Ok u\<close> show ?thesis by fastforce
    next
      case (Err e)
      obtain m3 r3 where rb: "rollbackReload env created ?replaced currentRaw (mg_defaults m2) m2 = (m3, r3)" by fastforce
      have "m' = m3" "\<forall>u. res \<noteq> Ok u" using assms(1) d cr Err \<open>r1 = Ok u\<close> rb
        by (auto simp: apply_plan_def split: outcome.splits)
      with rollbackReload_cases [OF rb] cc c show ?thesis by auto
    qed (use assms(1) d cr \<open>r1 = Ok u\<close> cc c in \<open>auto simp: apply_plan_def\<close>)
  qed (use assms(1) d c in \<open>auto simp: apply_plan_def\<close>)
qed

lemma Reload_inv:
  assumes "Reload env next m = (m', res)" and "mg_inv m"
  shows "mg_inv m'"
proof -
  obtain m1 r1 where p: "reload_prepare env next m = (m1, r1)" by fastforce
  from reload_prepare_frame [OF p] have inv1: "mg_inv m1" using assms(2) by auto
  show ?thesis
  proof (cases r1)
    case (Ok x)
    obtain nextRaw currentRaw plan where x: "x = (nextRaw, currentRaw, plan)" by (cases x) auto
    obtain m2 r2 where ap: "apply_plan env plan nextRaw currentRaw (normalizeDefaults (cfg_Defaults (rc_cfg next))) m1 = (m2, r2)"
      by fastforce
    from apply_plan_cases [OF ap inv1] assms(1) p Ok x ap inv1 show ?thesis
      by (auto simp: Reload_def split: if_splits outcome.splits)
  qed (use assms(1) p inv1 in \<open>auto simp: Reload_def\<close>)
qed

text \<open>A reload that succeeds leaves exactly the servers of the next configuration running.\<close>

lemma Reload_Ok:
  assumes "reload_prepare env next m = (m1, Ok (nextRaw, currentRaw, plan))"
    and "Reload env next m = (m', Ok u)" and "mg_inv m"
  shows "set (server_names m') = fst ` set nextRaw \<and> distinct (server_names m') \<and>
    (\<forall>p \<in> set (mg_servers m). fst p \<notin> set (rp_Modified plan @ rp_Removed plan) \<longrightarrow> p \<in> set (mg_servers m')) \<and>
    mg_defaults m' = normalizeDefaults (cfg_Defaults (rc_cfg next)) \<and>
    mg_originalCfg m' = mergeReloadableConfig (mg_originalCfg m) next"
proof -
  from reload_prepare_Ok [OF assms(1)] obtain h desired where p: "m1 = m\<lparr>mg_heap := h\<rparr>"
    "map fst desired = map fst nextRaw" "plan = planReload (Manager_All m1) desired" by blast
  have names: "fst ` set (Manager_All m1) = set (server_names m)" "fst ` set desired = fst ` set nextRaw"
    using arg_cong [OF Manager_All_names [of m1], of set] p(1) arg_cong [OF p(2), of set]
    by (simp_all add: server_names_def)
  note sets = planReload_sets [of "Manager_All m1" desired, folded p(3), unfolded names]
  have inv1: "mg_inv m1" using assms(3) p(1) by simp
  have dist: "distinct (server_names m')" using Reload_inv [OF assms(2,3)] by (simp add: mg_inv_def)
  show ?thesis
  proof (cases "empty_plan plan")
    case True
    then have "m' = finish_reload next m1" using assms(1,2) by (simp add: Reload_def)
    then show ?thesis using sets True p(1) dist by (auto simp: finish_reload_def server_names_def empty_plan_def)
  next
    case False
    obtain m2 where ap: "apply_plan env plan nextRaw currentRaw (normalizeDefaults (cfg_Defaults (rc_cfg next))) m1 = (m2, Ok ())"
      "m' = finish_reload next m2"
      using assms(1,2) False by (auto simp: Reload_def split: prod.splits outcome.splits)
    from apply_plan_cases [OF ap(1) inv1] obtain new where new: "map fst new = rev (rp_Added plan @ rp_Modified plan)"
      "mg_servers m2 = new @ filter (\<lambda>p. fst p \<notin> set (rp_Modified plan @ rp_Removed plan)) (mg_servers m1)"
      "mg_originalCfg m2 = mg_originalCfg m1" by blast
    have "fst ` set new = set (rp_Added plan) \<union> set (rp_Modified plan)" using arg_cong [OF new(1), of set] by auto
    then have "set (server_names m') = set (rp_Added plan) \<union> set (rp_Modified plan) \<union>
        (set (server_names m) - set (rp_Modified plan @ rp_Removed plan))"
      using ap(2) new(2) p(1) by (auto simp: finish_reload_def server_names_def)
    then have "set (server_names m') = fst ` set nextRaw" using sets by auto
    then show ?thesis using ap(2) new p(1) dist by (auto simp: finish_reload_def)
  qed
qed

section \<open>Statistics\<close>

text \<open>The statistics the API shows for a running server are those of its own handler.\<close>

lemma running_stats:
  assumes "mg_inv m" and "(n, s, r) \<in> set (mg_servers m)"
  shows "GetStats n (mg_store m) = Some (hd_latestStats (sto_objs (mg_store m) ! as_handler s)) \<and>
    hd_Name (sto_objs (mg_store m) ! as_handler s) = n"
  using running_handler [OF assms] by (simp add: GetStats_def)

end
