(* ===== verification/Manager_Invariant.thy ===== *)
theory Manager_Invariant
  imports Manager_Correct
begin

text \<open>
  The operations of the manager (src/src/manager/manager.go) change its servers through \<open>create\<close> and
  \<open>deleteServer\<close> only, and start nothing but servers of a configuration they were given. The locale
  says so: what those two keep, starting from configurations of a certain kind, every run keeps.
\<close>

section \<open>Configurations with shared records\<close>

definition refs_all :: "(Server \<Rightarrow> bool) \<Rightarrow> (string \<times> ServerRef) list \<Rightarrow> bool" where
  "refs_all Q rs \<longleftrightarrow> (\<forall>p\<in>set rs. Q (ref_val (snd p)))"

lemma refs_all_simps [simp]:
  "refs_all Q []" "refs_all Q (p # rs) \<longleftrightarrow> Q (ref_val (snd p)) \<and> refs_all Q rs"
  "refs_all Q (rs @ rs') \<longleftrightarrow> refs_all Q rs \<and> refs_all Q rs'"
  by (auto simp: refs_all_def)

lemma refs_all_lookup: "refs_all Q rs \<Longrightarrow> map_of rs n = Some r \<Longrightarrow> Q (ref_val r)"
  by (auto simp: refs_all_def dest!: map_of_SomeD)

lemma repoint_val: "repoint h r s = (h', r') \<Longrightarrow> ref_val r' = s"
  by (auto simp: repoint_def split: prod.splits)

lemma child_refs_val: "child_refs new r cs h = (h', rs) \<Longrightarrow> map (\<lambda>(n, rc). (n, ref_val rc)) rs = cs"
  by (induction new r cs h arbitrary: h' rs rule: child_refs.induct)
    (auto simp: Let_def split: prod.splits dest: repoint_val)

lemma expand_ref_val:
  assumes "expand_ref parse name r h = (h', Ok rs)"
  shows "expandBinds parse name (load h r) = Ok (map (\<lambda>(n, rc). (n, ref_val rc)) rs)"
  using assms by (auto simp: expand_ref_def split: prod.splits outcome.splits dest!: child_refs_val)

lemma add_expanded_Ok: "add_expanded result cs = Ok rs \<Longrightarrow> rs = result @ cs"
  by (induction result cs rule: add_expanded.induct) (auto split: if_splits)

lemma fresh_refs_val: "fresh_refs ss h = (h', rs) \<Longrightarrow> map (\<lambda>(n, r). (n, ref_val r)) rs = ss"
  by (induction ss h arbitrary: h' rs rule: fresh_refs.induct)
    (auto simp: fresh_ref_def Let_def split: prod.splits dest!: repoint_val)

lemma fresh_refs_all:
  assumes "fresh_refs ss h = (h', rs)" and "\<forall>p\<in>set ss. Q (snd p)"
  shows "refs_all Q rs"
  using assms(2) unfolding fresh_refs_val [OF assms(1), symmetric] by (auto simp: refs_all_def)

section \<open>Runs with configurations of a kind\<close>

fun event_servers :: "mg_event \<Rightarrow> Server list" where
  "event_servers (OpCreate _ s) = [s]"
| "event_servers (OpReload _ servers) = map snd servers"
| "event_servers _ = []"

inductive mg_reachable_with :: "menv \<Rightarrow> (Server \<Rightarrow> bool) \<Rightarrow> Manager \<Rightarrow> bool" for env Q where
  mgw_boot: "boot env cfg servers = (m, Ok u) \<Longrightarrow> list_all Q (map snd servers) \<Longrightarrow> mg_reachable_with env Q m"
| mgw_op: "mg_reachable_with env Q m \<Longrightarrow> mg_step env ev m = (m', res) \<Longrightarrow> res \<noteq> Panic \<Longrightarrow>
    list_all Q (event_servers ev) \<Longrightarrow> mg_reachable_with env Q m'"

lemma mg_reachable_with_True: "mg_reachable env m \<Longrightarrow> mg_reachable_with env (\<lambda>_. True) m"
proof (induction rule: mg_reachable.induct)
  case (mg_boot cfg servers m u)
  then show ?case by (rule mgw_boot) (simp add: list_all_iff)
next
  case (mg_op m ev m' res)
  then show ?case by (intro mgw_op [of env _ m ev m' res]) (simp_all add: list_all_iff)
qed

section \<open>Invariants\<close>

definition no_servers :: "RawConfig \<Rightarrow> Heap \<Rightarrow> Manager" where
  "no_servers cfg h = \<lparr>mg_servers = [], mg_defaults = normalizeDefaults (cfg_Defaults (rc_cfg cfg)),
     mg_originalCfg = cfg\<lparr>rc_cfg := initConfigGlobals (rc_cfg cfg)\<rparr>,
     mg_acme = NewAcmeService (initConfigGlobals (rc_cfg cfg)), mg_store = empty_store, mg_heap = h\<rparr>"

text \<open>\<open>P\<close> is kept, \<open>Q\<close> is the kind of the configurations.\<close>

locale manager_invariant =
  fixes env :: menv and P :: "Manager \<Rightarrow> bool" and Q :: "Server \<Rightarrow> bool"
  assumes initial: "refs_all Q (rc_servers rc) \<Longrightarrow> P (no_servers rc h)"
    and heap: "P m \<Longrightarrow> P (m\<lparr>mg_heap := h\<rparr>)"
    and create: "create_server env name raw d m = (m', res) \<Longrightarrow> res \<noteq> Panic \<Longrightarrow> P m \<Longrightarrow> Q (ref_val raw) \<Longrightarrow> P m'"
    and delete: "deleteServer name m = (m', res) \<Longrightarrow> P m \<Longrightarrow> P m'"
    and finish: "P m \<Longrightarrow> refs_all Q (rc_servers next_cfg) \<Longrightarrow> P (finish_reload next_cfg m)"
    and dump: "P m \<Longrightarrow> P (DumpConfig m)"
    and original: "P m \<Longrightarrow> refs_all Q (rc_servers (mg_originalCfg m))"
    and loaded: "Q (ref_val r) \<Longrightarrow> Q (load h r)"
    and expanded: "expandBinds parse name srv = Ok cs \<Longrightarrow> Q srv \<Longrightarrow> c \<in> snd ` set cs \<Longrightarrow> Q c"
begin

lemma expand_ref_all:
  assumes "expand_ref parse name r h = (h', Ok rs)" and "Q (ref_val r)"
  shows "refs_all Q rs"
  unfolding refs_all_def
proof
  fix p assume "p \<in> set rs"
  then have "(case p of (n, rc) \<Rightarrow> (n, ref_val rc)) \<in> set (map (\<lambda>(n, rc). (n, ref_val rc)) rs)" by simp
  then have "ref_val (snd p) \<in> snd ` set (map (\<lambda>(n, rc). (n, ref_val rc)) rs)"
    by (intro image_eqI) (simp_all add: case_prod_beta)
  from expanded [OF expand_ref_val [OF assms(1)] loaded [OF assms(2)] this] show "Q (ref_val (snd p))" .
qed

lemma rawExpandedServers_all:
  "rawExpandedServers parse srvs result h = (h', Ok rs) \<Longrightarrow> refs_all Q srvs \<Longrightarrow> refs_all Q result \<Longrightarrow> refs_all Q rs"
proof (induction parse srvs result h rule: rawExpandedServers.induct)
  case (2 parse name r srvs result h)
  then obtain h1 cs result' where e: "expand_ref parse name r h = (h1, Ok cs)" "add_expanded result cs = Ok result'"
    "rawExpandedServers parse srvs result' h1 = (h', Ok rs)"
    by (auto split: prod.splits outcome.splits)
  moreover have "refs_all Q result'"
    using add_expanded_Ok [OF e(2)] expand_ref_all [OF e(1)] 2(3,4) by simp
  ultimately show ?case using "2.IH" 2(3) by simp
qed simp

lemma kept_delete_all: "delete_all ns m = (m', res) \<Longrightarrow> P m \<Longrightarrow> P m'"
  by (induction ns arbitrary: m) (auto split: prod.splits outcome.splits dest: delete)

lemma kept_create_all:
  "create_all env raw d ns created m = (m', created', res) \<Longrightarrow> res \<noteq> Panic \<Longrightarrow> P m \<Longrightarrow> refs_all Q raw \<Longrightarrow> P m'"
proof (induction ns arbitrary: m created)
  case (Cons n ns)
  show ?case
  proof (cases "map_of raw n")
    case (Some r)
    obtain m1 r1 where c: "create_server env n r d m = (m1, r1)" by fastforce
    have "r1 \<noteq> Panic" using Cons.prems Some c by auto
    from create [OF c this Cons.prems(3) refs_all_lookup [OF Cons.prems(4) Some]]
    show ?thesis using Cons Some c by (auto split: outcome.splits)
  qed (use Cons.prems in simp)
qed simp

lemma kept_restore_all:
  "restore_all env raw d ns m = (m', res) \<Longrightarrow> res \<noteq> Panic \<Longrightarrow> P m \<Longrightarrow> refs_all Q raw \<Longrightarrow> P m'"
proof (induction ns arbitrary: m)
  case (Cons n ns)
  show ?case
  proof (cases "map_of raw n")
    case (Some r)
    obtain m1 r1 where c: "create_server env n r d m = (m1, r1)" by fastforce
    have "r1 \<noteq> Panic" using Cons.prems Some c by auto
    from create [OF c this Cons.prems(3) refs_all_lookup [OF Cons.prems(4) Some]]
    show ?thesis using Cons Some c by (auto split: outcome.splits)
  qed (use Cons in simp)
qed simp

lemma kept_rollback:
  assumes "rollbackReload env created replaced raw d m = (m', res)" and "res \<noteq> Panic" and "P m" and "refs_all Q raw"
  shows "P m'"
proof -
  obtain m1 r1 where d: "delete_all (rev created) m = (m1, r1)" by fastforce
  from kept_delete_all [OF d assms(3)] have "P m1" .
  then show ?thesis using assms(1,2,4) d by (auto simp: rollbackReload_def split: outcome.splits dest: kept_restore_all)
qed

lemma kept_apply_plan:
  assumes "apply_plan env plan nextRaw currentRaw d m = (m', res)" and "res \<noteq> Panic" and "P m"
    and "refs_all Q nextRaw" and "refs_all Q currentRaw"
  shows "P m'"
proof -
  obtain m1 r1 where d: "delete_all (rp_Modified plan @ rp_Removed plan) m = (m1, r1)" by fastforce
  have p1: "P m1" by (rule kept_delete_all [OF d assms(3)])
  show ?thesis
  proof (cases r1)
    case (Ok u)
    obtain m2 created r2 where c: "create_all env nextRaw d (rp_Added plan @ rp_Modified plan) [] m1 = (m2, created, r2)"
      by (cases "create_all env nextRaw d (rp_Added plan @ rp_Modified plan) [] m1") auto
    have "r2 \<noteq> Panic" using assms(1,2) d Ok c by (auto simp: apply_plan_def)
    then have p2: "P m2" using kept_create_all [OF c _ p1 assms(4)] by simp
    show ?thesis
    proof (cases r2)
      case (Err e)
      obtain m3 r3 where r: "rollbackReload env created (rp_Modified plan @ rp_Removed plan) currentRaw (mg_defaults m2) m2 = (m3, r3)"
        by fastforce
      have "r3 \<noteq> Panic" "m' = m3" using assms(1,2) d Ok c Err r by (auto simp: apply_plan_def split: outcome.splits)
      then show ?thesis using kept_rollback [OF r _ p2 assms(5)] by simp
    qed (use assms(1,2) d Ok c p2 in \<open>auto simp: apply_plan_def\<close>)
  qed (use assms(1) d p1 in \<open>auto simp: apply_plan_def\<close>)
qed

lemma kept_reload_prepare:
  assumes "reload_prepare env next_cfg m = (m', res)" and "P m" and "refs_all Q (rc_servers next_cfg)"
  shows "P m' \<and> (\<forall>nextRaw currentRaw plan. res = Ok (nextRaw, currentRaw, plan) \<longrightarrow>
    refs_all Q nextRaw \<and> refs_all Q currentRaw)"
proof -
  obtain h1 r1 where e1: "rawExpandedServers (me_template env) (rc_servers next_cfg) [] (mg_heap m) = (h1, r1)" by fastforce
  show ?thesis
  proof (cases r1)
    case (Ok nextRaw)
    obtain h2 r2 where e2: "prepare_all (me_prepare env) (normalizeDefaults (cfg_Defaults (rc_cfg next_cfg))) nextRaw h1 = (h2, r2)"
      by fastforce
    obtain h3 r3 where e3: "rawExpandedServers (me_template env) (rc_servers (mg_originalCfg m)) [] h2 = (h3, r3)"
      by fastforce
    have "refs_all Q nextRaw" using rawExpandedServers_all [OF e1 [unfolded Ok] assms(3)] by simp
    moreover have "refs_all Q currentRaw" if "r3 = Ok currentRaw" for currentRaw
      using rawExpandedServers_all [OF e3 [unfolded that] original [OF assms(2)]] by simp
    ultimately show ?thesis using assms(1,2) e1 Ok e2 e3 heap
      by (auto simp: reload_prepare_def Let_def split: outcome.splits)
  qed (use assms(1,2) e1 heap in \<open>auto simp: reload_prepare_def\<close>)
qed

lemma kept_Reload:
  assumes "Reload env next_cfg m = (m', res)" and "res \<noteq> Panic" and "P m" and "refs_all Q (rc_servers next_cfg)"
  shows "P m'"
proof -
  obtain m1 r1 where p: "reload_prepare env next_cfg m = (m1, r1)" by fastforce
  note inv = kept_reload_prepare [OF p assms(3,4)]
  show ?thesis
  proof (cases r1)
    case (Ok x)
    obtain nextRaw currentRaw plan where x: "x = (nextRaw, currentRaw, plan)" by (cases x) auto
    show ?thesis
    proof (cases "empty_plan plan")
      case True
      then show ?thesis using assms p Ok x inv finish by (auto simp: Reload_def)
    next
      case False
      obtain m2 r2 where a: "apply_plan env plan nextRaw currentRaw (normalizeDefaults (cfg_Defaults (rc_cfg next_cfg))) m1 = (m2, r2)"
        by fastforce
      have "r2 \<noteq> Panic" using assms(1,2) p Ok x False a by (auto simp: Reload_def)
      then have "P m2" using kept_apply_plan [OF a] inv Ok x by simp
      then show ?thesis using assms(1,2,4) p Ok x False a finish by (auto simp: Reload_def split: outcome.splits)
    qed
  qed (use assms(1) p inv in \<open>auto simp: Reload_def\<close>)
qed

lemma kept_initialize_servers:
  "initialize_servers env srvs m = (m', Ok u) \<Longrightarrow> P m \<Longrightarrow> refs_all Q srvs \<Longrightarrow> P m'"
proof (induction srvs arbitrary: m)
  case (Cons p srvs)
  obtain name r where p: "p = (name, r)" by fastforce
  obtain h er where e: "expand_ref (me_template env) name r (mg_heap m) = (h, er)" by fastforce
  obtain cs where cs: "er = Ok cs" using Cons.prems(1) p e by (auto split: outcome.splits)
  obtain m1 created r1 where c: "create_all env cs (mg_defaults m) (map fst cs) [] (m\<lparr>mg_heap := h\<rparr>) = (m1, created, r1)"
    by (cases "create_all env cs (mg_defaults m) (map fst cs) [] (m\<lparr>mg_heap := h\<rparr>)") auto
  obtain v where r1: "r1 = Ok v" "initialize_servers env srvs m1 = (m', Ok u)"
    using Cons.prems(1) p e cs c by (auto split: outcome.splits)
  have "refs_all Q cs" using expand_ref_all [OF e [unfolded cs]] Cons.prems(3) p by simp
  then have "P m1" using kept_create_all [OF c _ heap [OF Cons.prems(2)]] r1(1) by simp
  from Cons.IH [OF r1(2) this] Cons.prems(3) show ?case by simp
qed simp

lemma kept_booted:
  assumes "boot env cfg servers = (m, Ok u)" and "list_all Q (map snd servers)"
  shows "P m"
proof -
  obtain h rs where f: "fresh_refs servers empty_heap = (h, rs)" by fastforce
  have all: "refs_all Q rs" by (rule fresh_refs_all [OF f]) (use assms(2) in \<open>auto simp: list_all_iff\<close>)
  let ?rc = "\<lparr>rc_cfg = cfg, rc_servers = rs\<rparr>"
  have "initialize_servers env rs (no_servers ?rc h) = (m, Ok u)"
    using assms(1) f by (simp add: boot_def decode_config_def Initialize_def no_servers_def)
  from kept_initialize_servers [OF this initial all] all show ?thesis by simp
qed

lemma kept_step:
  assumes "mg_step env ev m = (m', res)" and "res \<noteq> Panic" and "P m" and "list_all Q (event_servers ev)"
  shows "P m'"
proof (cases ev)
  case (OpCreate name s)
  obtain h r where f: "fresh_ref (mg_heap m) s = (h, r)" by fastforce
  then have "Q (ref_val r)" using assms(4) OpCreate repoint_val by (auto simp: fresh_ref_def)
  moreover have "create_server env name r (mg_defaults m) (m\<lparr>mg_heap := h\<rparr>) = (m', res)"
    using assms(1) OpCreate f by (simp add: Manager_Create_def)
  ultimately show ?thesis using create [OF _ assms(2) heap [OF assms(3)]] by simp
next
  case (OpDelete name)
  then show ?thesis using assms(1,3) delete by (simp add: Manager_Delete_def)
next
  case (OpReload cfg servers)
  obtain h rs where f: "fresh_refs servers (mg_heap m) = (h, rs)" by fastforce
  have all: "refs_all Q rs" by (rule fresh_refs_all [OF f]) (use assms(4) OpReload in \<open>auto simp: list_all_iff\<close>)
  have "Reload env \<lparr>rc_cfg = cfg, rc_servers = rs\<rparr> (m\<lparr>mg_heap := h\<rparr>) = (m', res)"
    using assms(1) OpReload f by (simp add: decode_config_def)
  from kept_Reload [OF this assms(2) heap [OF assms(3)]] all show ?thesis by simp
next
  case OpDump
  then have "m' = DumpConfig m" using assms(1) by auto
  then show ?thesis using assms(3) dump by simp
qed

lemma kept_reachable: "mg_reachable_with env Q m \<Longrightarrow> P m"
  by (induction rule: mg_reachable_with.induct) (auto intro: kept_booted kept_step)

end

text \<open>The invariant of the names and their statistics, for configurations of every kind.\<close>

interpretation names: manager_invariant env mg_inv "\<lambda>_. True" for env
proof unfold_locales
  show "mg_inv (no_servers rc h)" for rc h
    by (simp add: mg_inv_def no_servers_def server_names_def store_inv_def empty_store_def)
  show "mg_inv m \<Longrightarrow> mg_inv (m\<lparr>mg_heap := h\<rparr>)" for m h by (simp add: mg_inv_def server_names_def)
  show "mg_inv m \<Longrightarrow> mg_inv (finish_reload next_cfg m)" for m next_cfg
    by (simp add: mg_inv_def server_names_def finish_reload_def)
  show "mg_inv m \<Longrightarrow> mg_inv (DumpConfig m)" for m by (simp add: mg_inv_def server_names_def DumpConfig_def)
qed (auto simp: refs_all_def dest: create_server_inv deleteServer_inv)

lemma mg_reachable_inv: "mg_reachable env m \<Longrightarrow> mg_inv m"
  by (rule names.kept_reachable [OF mg_reachable_with_True])

end
