(* ===== verification/Manager_Properties.thy ===== *)
theory Manager_Properties
  imports Manager_Invariant Tcp_Properties Discovery_Properties
begin

text \<open>
  The properties of the manager: what \<open>prepareConfig\<close> guarantees to the servers that are built from
  its result, the expansion of addresses, the reload and its plan, the statistics of running servers,
  and the ACME service.
\<close>

definition sample_world :: world where
  "sample_world = \<lparr>w_load_pair = (\<lambda>_ _. None), w_read_file = (\<lambda>_. None), w_pem = (\<lambda>_. None), w_listen = (\<lambda>_ _. True)\<rparr>"

definition sample_menv :: menv where
  "sample_menv = \<lparr>me_prepare = \<lparr>pe_home = ''/root'', pe_regexp_ok = (\<lambda>_. True)\<rparr>, me_world = sample_world,
     me_template = (\<lambda>_. None)\<rparr>"

definition sample_cfg :: Config where
  "sample_cfg = \<lparr>cfg_Logging = \<lparr>log_Level = [], log_Output = [], log_Format = []\<rparr>,
    cfg_Api = \<lparr>api_Enabled = False, api_Bind = [], api_BasicAuth = None, api_Tls = None, api_Cors = False\<rparr>,
    cfg_Metrics = \<lparr>metrics_Enabled = False, metrics_Bind = []\<rparr>, cfg_Defaults = sample_options,
    cfg_Acme = None, cfg_Profiler = None, cfg_Servers = Map.empty\<rparr>"

text \<open>A server as a configuration file has it, before \<open>prepareConfig\<close>.\<close>

definition raw_server :: "goint \<Rightarrow> HealthcheckConfig \<Rightarrow> Server" where
  "raw_server mx hc = sample_server\<lparr>srv_Protocol := [], srv_Discovery := Some sample_discovery,
     srv_Healthcheck := Some hc, srv_Options := sample_options\<lparr>co_MaxConnections := Some mx\<rparr>\<rparr>"

definition many_addresses :: Server where
  "many_addresses = sample_server\<lparr>srv_Bind := [], srv_BindIPs := Some [''10.0.0.1'', ''::1''], srv_BindPorts := Some [80, 443]\<rparr>"

definition booted :: "HealthcheckConfig \<Rightarrow> Manager" where
  "booted hc = fst (boot sample_menv sample_cfg [(''a'', raw_server 1 hc)])"

definition booted_next :: "Heap \<times> RawConfig" where
  "booted_next = decode_config sample_cfg [(''b'', raw_server 2 sample_healthcheck)] (mg_heap (booted sample_healthcheck))"

text \<open>A health check whose probe string holds an escape.\<close>

definition escape_probe :: HealthcheckConfig where
  "escape_probe = sample_healthcheck\<lparr>hc_Kind := ''probe'', hc_Interval := ''2s'', hc_Timeout := ''1s'',
     hc_Probe := Some \<lparr>ProbeProtocol = ''tcp'', ProbeStrategy = [], ProbeSend = ''ping'' @ [CHR 0x5C, CHR ''n''],
       ProbeRecv = ''pong'', ProbeRecvLen = 0\<rparr>\<rparr>"

text \<open>A TLS server with files for its certificate and key.\<close>

definition cert_tls :: Tls where
  "cert_tls = \<lparr>tls_AcmeHosts = None, tls_CertPath = ''cert.pem'', tls_KeyPath = ''key.pem'',
     tls_common = \<lparr>tls_Ciphers = None, tls_MinVersion = [], tls_MaxVersion = [], tls_SessionTickets = True\<rparr>\<rparr>"

definition cert_server :: Server where
  "cert_server = sample_server\<lparr>srv_Protocol := ''tls'', srv_Tls := Some cert_tls, srv_Discovery := Some sample_discovery\<rparr>"

text \<open>What these samples evaluate to, computed in one place for the properties below.\<close>

lemma sample_runs:
  "case prepareConfig (me_prepare sample_menv) ''a'' (raw_server 1 sample_healthcheck) (normalizeDefaults sample_options) of
      (raw', Ok s) \<Rightarrow> map_option disc_Kind (srv_Discovery s) = Some ''static'' \<and>
        map_option disc_Interval (srv_Discovery s) = Some ''0'' \<and>
        map_option hc_Kind (srv_Healthcheck s) = Some ''none'' \<and> \<not> has_sources s \<and> srv_Protocol s = ''tcp''
    | _ \<Rightarrow> False"
  "snd (boot sample_menv sample_cfg [(''a'', raw_server 1 sample_healthcheck)]) = Ok ()"
  "case expandBinds (\<lambda>_. None) ''web'' many_addresses of Ok cs \<Rightarrow>
      map fst cs = [''web_10.0.0.1_80'', ''web_10.0.0.1_443'', ''web_--1_80'', ''web_--1_443''] | _ \<Rightarrow> False"
  "wanted_binds many_addresses = [''10.0.0.1:80'', ''10.0.0.1:443'', ''[::1]:80'', ''[::1]:443'']"
  "case reload_prepare sample_menv (snd booted_next) (booted sample_healthcheck\<lparr>mg_heap := fst booted_next\<rparr>) of
      (m1, Ok (nextRaw, currentRaw, plan)) \<Rightarrow> map fst nextRaw = [''b''] | _ \<Rightarrow> False"
  "case mg_step sample_menv (OpReload sample_cfg [(''b'', raw_server 2 sample_healthcheck)]) (booted sample_healthcheck) of
      (m', Ok _) \<Rightarrow> True | _ \<Rightarrow> False"
  "server_names (booted sample_healthcheck) = [''a'']"
  "server_names (booted escape_probe) = [''a'']"
  "server_names (fst (mg_step sample_menv (OpReload sample_cfg [(''a'', raw_server 2 escape_probe)]) (booted escape_probe))) = []"
  "case server_New sample_world ''a'' cert_server empty_store of (_, Ok s) \<Rightarrow> True | _ \<Rightarrow> False"
  by code_simp+

lemma booted_reachable: "mg_reachable sample_menv (booted sample_healthcheck)"
  unfolding booted_def using sample_runs(2) by (intro mg_boot) (simp add: prod_eq_iff)

section \<open>Prepared configurations\<close>

lemma bind_outcome_Panic: "bind_outcome x f = Panic \<longleftrightarrow> x = Panic \<or> (\<exists>a. x = Ok a \<and> f a = Panic)"
  by (cases x) auto

lemma parse_rules_total: "parse_rules rs \<noteq> Panic"
  by (induction rs) (auto simp: bind_outcome_Panic ParseAccessRule_def Let_def split: list.splits option.splits if_splits)

lemma make_access_total: "make_access cfg \<noteq> Panic"
  using parse_rules_total
  by (auto simp: make_access_def NewAccess_def bind_outcome_Panic Let_def split: option.splits if_splits)

lemma make_sources_total: "make_sources cfg \<noteq> Panic"
  by (auto simp: make_sources_def NewIPv6SourcePool_def Let_def split: option.splits if_splits prod.splits)

lemma tls_total: "MakeBackendTLSConfig lp rf pem b \<noteq> Panic" "MakeTlsConfig lp t g \<noteq> Panic"
  by (auto simp: MakeBackendTLSConfig_def MakeTlsConfig_def bind_outcome_Panic Let_def split: option.splits if_splits)

lemma ready_balancer: "ready env s \<Longrightarrow> Balance_New sni (srv_Balance s) \<noteq> Panic"
  by (auto simp: ready_def balance_kinds_def Balance_New_def typeRegistry_def split: option.splits)

lemma ready_session_config: "ready env s \<Longrightarrow> srv_Protocol s = ''udp'' \<Longrightarrow> session_config s \<noteq> Panic"
  by (auto simp: ready_def ready_protocol_def ready_options_def session_config_def)

lemma ready_server_New:
  assumes "ready env s" and "srv_Discovery s = Some d" and "Discovery_New (disc_Kind d) d = Ok x"
  shows "snd (server_New w name s sto) \<noteq> Panic"
proof -
  have "srv_Protocol s \<in> {''tcp'', ''tls'', ''udp''}" "\<exists>h. srv_Healthcheck s = Some h"
    using assms(1) by (auto simp: ready_def ready_protocol_def)
  then show ?thesis
    using assms(2,3) ready_balancer [OF assms(1)] make_access_total make_sources_total
    by (auto simp: server_New_def tcp_New_def udp_New_def need_def bind_outcome_Panic tls_total split: prod.splits)
qed

lemma Discovery_New_interval: "Discovery_New k d = Ok x \<Longrightarrow> disc_Interval (dsc_cfg x) = disc_Interval d"
  by (auto simp: Discovery_New_def need_def Let_def split: option.splits discovery_kind.splits)

lemma server_New_discovery:
  "server_New w name s sto = (sto', Ok srv) \<Longrightarrow>
   \<exists>d. srv_Discovery s = Some d \<and> Discovery_New (disc_Kind d) d = Ok (as_discovery srv)"
  by (auto simp: server_New_def tcp_New_def udp_New_def need_def Let_def split: prod.splits option.splits if_splits)

lemma ready_Server_Start:
  assumes "ready env s" and "server_New w name s sto = (sto', Ok srv)"
    and "srv_Discovery s = Some d" and "ParseDuration (disc_Interval d) \<noteq> None"
  shows "snd (Server_Start w srv sto'') \<noteq> Panic"
proof -
  have srv: "as_cfg srv = s\<lparr>srv_Discovery := srv_Discovery (as_cfg srv)\<rparr>" "as_tcp srv = (srv_Protocol s \<noteq> ''udp'')"
    using server_New_Ok [OF assms(2)] by auto
  have d: "ParseDuration (disc_Interval (dsc_cfg (as_discovery srv))) \<noteq> None"
    using server_New_discovery [OF assms(2)] assms(3,4) Discovery_New_interval by fastforce
  have sc: "session_config (as_cfg srv) = session_config s"
    by (subst srv(1)) (simp add: session_config_def)
  show ?thesis
    using d srv(2) sc ready_session_config [OF assms(1)]
    by (auto simp: Server_Start_def tcp_Start_def udp_Start_def start_scheduler_def Discovery_Start_def
        bind_outcome_Panic Let_def tls_total split: outcome.splits if_splits)
qed

lemma ready_accepts:
  assumes "ready env s"
  shows "HandleClientConnect c (TcpServer_init s) \<noteq> Panic"
proof -
  obtain mx where "co_MaxConnections (srv_Options s) = Some mx"
    using assms by (auto simp: ready_def ready_options_def)
  then show ?thesis by (simp add: HandleClientConnect_def TcpServer_init_def Let_def)
qed


lemma sample_prepared:
  "\<exists>raw' s d. prepareConfig (me_prepare sample_menv) ''a'' (raw_server 1 sample_healthcheck) (normalizeDefaults sample_options)
     = (raw', Ok s) \<and> srv_Discovery s = Some d \<and> disc_Kind d = ''static'' \<and> disc_Interval d = ''0'' \<and>
     map_option hc_Kind (srv_Healthcheck s) = Some ''none'' \<and> \<not> has_sources s \<and> srv_Protocol s = ''tcp''"
  using sample_runs(1) by (auto split: prod.splits outcome.splits)


text \<open>A prepared configuration is a fixed point: preparing it again, under any name and any
  defaults, changes nothing and succeeds, unless its probe strings still hold escapes or it inherited
  a \<open>sources\<close> setting that its own validation would refuse.\<close>

theorem prepared_configuration_stable:
  assumes "prepareConfig env name raw d = (raw', Ok s)" and "steady s"
  shows "prepareConfig env name' s (normalizeDefaults d') = (s, Ok s)"
  using prepareConfig_ready [OF assms(1)] assms(2) by (rule prepareConfig_same)

theorem prepared_configuration_stable_witness:
  "\<exists>raw' s. prepareConfig (me_prepare sample_menv) ''a'' (raw_server 1 sample_healthcheck) (normalizeDefaults sample_options)
     = (raw', Ok s) \<and> prepareConfig (me_prepare sample_menv) ''b'' s (normalizeDefaults sample_options) = (s, Ok s)"
proof -
  obtain raw' s where s: "prepareConfig (me_prepare sample_menv) ''a'' (raw_server 1 sample_healthcheck)
      (normalizeDefaults sample_options) = (raw', Ok s)" "map_option hc_Kind (srv_Healthcheck s) = Some ''none''"
      "\<not> has_sources s" using sample_prepared by blast
  have "steady s" using s(2,3) by (auto simp: steady_def)
  from prepared_configuration_stable [OF s(1) this] s(1) show ?thesis by blast
qed

section \<open>Expansion of addresses\<close>

text \<open>C26: Expanding a server gives one server for each address it asks for, in order, under distinct
  names, and each of them expands to itself.\<close>

theorem expanded_servers:
  assumes "expandBinds parse name cfg = Ok cs"
  shows "distinct (map fst cs) \<and> map (srv_Bind \<circ> snd) cs = wanted_binds cfg \<and>
    (\<forall>(n, c) \<in> set cs. expandBinds parse' n c = Ok [(n, c)])"
proof -
  note e = expandBinds_Ok [OF assms]
  have "expandBinds parse' n c = Ok [(n, c)]" if "(n, c) \<in> set cs" for n c
  proof -
    have "elems (srv_Binds c) = [] \<and> elems (srv_BindIPs c) = [] \<and> elems (srv_BindPorts c) = []"
      using e that by force
    then show ?thesis by (simp add: expandBinds_def)
  qed
  then show ?thesis using e by auto
qed

theorem expanded_servers_witness:
  "\<exists>cs. expandBinds (\<lambda>_. None) ''web'' many_addresses = Ok cs \<and>
     map fst cs = [''web_10.0.0.1_80'', ''web_10.0.0.1_443'', ''web_--1_80'', ''web_--1_443''] \<and>
     map (srv_Bind \<circ> snd) cs = [''10.0.0.1:80'', ''10.0.0.1:443'', ''[::1]:80'', ''[::1]:443'']"
proof -
  obtain cs where cs: "expandBinds (\<lambda>_. None) ''web'' many_addresses = Ok cs"
    "map fst cs = [''web_10.0.0.1_80'', ''web_10.0.0.1_443'', ''web_--1_80'', ''web_--1_443'']"
    using sample_runs(3) by (auto split: outcome.splits)
  with expanded_servers [OF cs(1)] sample_runs(4) show ?thesis by metis
qed

section \<open>The plan\<close>

text \<open>C24: The reload plan is a function of the two sets of servers: in whatever order the two maps are
  iterated, it lists, sorted and without repetition, the names that only the next configuration has,
  those that only run now, and those whose configuration differs.\<close>

theorem plan_independent_of_order:
  assumes "mset current = mset current'" and "mset desired = mset desired'"
    and "distinct (map fst current)" and "distinct (map fst desired)"
  shows "planReload current desired = planReload current' desired' \<and>
    rp_Added (planReload current desired) = sorted_list_of_set (fst ` set desired - fst ` set current) \<and>
    rp_Removed (planReload current desired) = sorted_list_of_set (fst ` set current - fst ` set desired) \<and>
    rp_Modified (planReload current desired) =
      sorted_list_of_set {n. \<exists>c d. map_of current n = Some c \<and> map_of desired n = Some d \<and> c \<noteq> d}"
proof -
  note s = planReload_sorted [OF assms(3,4) refl]
  have "set (rp_Modified (planReload current desired)) =
      {n. \<exists>c d. map_of current n = Some c \<and> map_of desired n = Some d \<and> c \<noteq> d}"
    using planReload_Modified [OF assms(3)] by blast
  then show ?thesis using planReload_order [OF assms] s planReload_sets(1,2) [of current desired]
    by (metis sorted_list_of_set.idem_if_sorted_distinct)
qed

theorem plan_independent_of_order_witness:
  "planReload [(''b'', sample_server), (''a'', sample_server)] [(''c'', sample_server), (''a'', many_addresses)] =
     planReload [(''a'', sample_server), (''b'', sample_server)] [(''a'', many_addresses), (''c'', sample_server)] \<and>
   rp_Modified (planReload [(''b'', sample_server), (''a'', sample_server)] [(''c'', sample_server), (''a'', many_addresses)]) = [''a'']"
  (is "?plan = ?other \<and> _")
proof -
  let ?c = "[(''b'', sample_server), (''a'', sample_server)]" and ?c' = "[(''a'', sample_server), (''b'', sample_server)]"
  let ?d = "[(''c'', sample_server), (''a'', many_addresses)]" and ?d' = "[(''a'', many_addresses), (''c'', sample_server)]"
  have diff: "sample_server \<noteq> many_addresses" by (simp add: many_addresses_def sample_server_def)
  have "{n. \<exists>c d. map_of ?c n = Some c \<and> map_of ?d n = Some d \<and> c \<noteq> d} = {''a''}"
    using diff by auto
  then have singleton: "sorted_list_of_set {n. \<exists>c d. map_of ?c n = Some c \<and> map_of ?d n = Some d \<and> c \<noteq> d} = [''a'']"
    by simp
  have "mset ?c = mset ?c'" "mset ?d = mset ?d'" "distinct (map fst ?c)" "distinct (map fst ?d)" by simp_all
  from plan_independent_of_order [OF this] singleton show ?thesis by metis
qed

section \<open>Reload\<close>



text \<open>In every state the manager reaches, names are unique and the statistics that the API shows
  under a name are those that the running server of that name collects.\<close>

theorem running_server_statistics:
  assumes "mg_reachable env m" and "(n, s, r) \<in> set (mg_servers m)"
  shows "GetStats n (mg_store m) = Some (hd_latestStats (sto_objs (mg_store m) ! as_handler s)) \<and>
    as_handler s < length (sto_objs (mg_store m)) \<and> as_name s = n \<and> distinct (server_names m)"
  using running_stats [OF mg_reachable_inv [OF assms(1)] assms(2)]
    running_handler [OF mg_reachable_inv [OF assms(1)] assms(2)] mg_reachable_inv [OF assms(1)]
  by (simp add: mg_inv_def)

theorem running_server_statistics_witness:
  "\<exists>s r. (''a'', s, r) \<in> set (mg_servers (booted sample_healthcheck)) \<and>
     GetStats ''a'' (mg_store (booted sample_healthcheck)) =
       Some (hd_latestStats (sto_objs (mg_store (booted sample_healthcheck)) ! as_handler s))"
proof -
  obtain s r where s: "(''a'', s, r) \<in> set (mg_servers (booted sample_healthcheck))"
    using sample_runs(7) by (auto simp: server_names_def)
  from running_server_statistics [OF booted_reachable s] s show ?thesis by blast
qed

section \<open>Probe strings with escapes\<close>


section \<open>The ACME service\<close>

text \<open>With an ACME service, a TLS server whose configuration names no ACME host is served by the
  ACME certificate manager all the same: its certificate and key files are never loaded, and no host
  name is added to those the manager may ask certificates for.\<close>

theorem acme_hides_certificate:
  assumes "Acme_Enable s (Some hosts) = (acme, Ok s')" and "as_tcp s" and "srv_Tls (as_cfg s) = Some t"
    and "elems (tls_AcmeHosts t) = []"
  shows "acme = Some hosts \<and> as_cfg s' = as_cfg s \<and>
    (\<exists>c. MakeTlsConfig load_pair (srv_Tls (as_cfg s')) (as_GetCertificate s') = Ok (Some c) \<and>
       tc_Certificates c = None \<and> tc_GetCertificate c)"
  using assms by (auto simp: Acme_Enable_def MakeTlsConfig_def common_tls_def)

theorem acme_hides_certificate_witness:
  "\<exists>s s'. server_New sample_world ''a'' cert_server empty_store = (snd (NewHandler ''a'' empty_store), Ok s) \<and>
     Acme_Enable s (Some {}) = (Some {}, Ok s') \<and>
     (\<exists>c. MakeTlsConfig (\<lambda>_ _. Some ''the certificate'') (srv_Tls (as_cfg s')) (as_GetCertificate s') = Ok (Some c) \<and>
        tc_Certificates c = None)"
proof -
  obtain sto s where s: "server_New sample_world ''a'' cert_server empty_store = (sto, Ok s)"
    using sample_runs(10) by (auto split: prod.splits outcome.splits)
  note n = server_New_Ok [OF s]
  then obtain d where "as_cfg s = cert_server\<lparr>srv_Discovery := d\<rparr>" by blast
  then have tls: "as_tcp s" "srv_Tls (as_cfg s) = Some cert_tls" "elems (tls_AcmeHosts cert_tls) = []"
    using n by (simp_all add: cert_server_def cert_tls_def)
  then obtain s' where e: "Acme_Enable s (Some {}) = (Some {}, Ok s')" by (simp add: Acme_Enable_def)
  from acme_hides_certificate [OF e tls, of "\<lambda>_ _. Some ''the certificate''"] s n e show ?thesis by blast
qed

section \<open>The statistics of a server\<close>


definition started_handler :: Handler where
  "started_handler = sto_objs (Handler_Start 0 (snd (NewHandler ''a'' empty_store))) ! 0"


end
