(* ===== verification/Metrics.thy ===== *)
theory Metrics
  imports Scheduler_Correct
begin

text \<open>
  The Prometheus gauges (src/src/metrics/metrics.go) and the calls with which the scheduler keeps them
  up to date. A gauge vector is a map from label values to values; vectors are created by \<open>Start\<close>, and
  until then they are nil. Values are numbers here, where the library stores them as float64.
\<close>

datatype gauge =
    BuildInfo
  | ServerCount | ServerActiveConnections | ServerRxTotal | ServerTxTotal | ServerRxSecond | ServerTxSecond
  | BackendActiveConnections | BackendRefusedConnections | BackendTotalConnections
  | BackendRxBytes | BackendTxBytes | BackendRxSecond | BackendTxSecond | BackendLive

record Metrics =
  mt_disabled :: bool
  mt_defined :: bool
  mt_values :: "gauge \<Rightarrow> string list \<Rightarrow> int option"

definition no_metrics :: Metrics where
  "no_metrics = \<lparr>mt_disabled = False, mt_defined = False, mt_values = (\<lambda>_ _. None)\<rparr>"

definition reporting :: "Metrics \<Rightarrow> bool" where
  "reporting mt \<longleftrightarrow> \<not> mt_disabled mt \<and> mt_defined mt"

text \<open>\<open>WithLabelValues(..).Set(..)\<close> and \<open>DeleteLabelValues(..)\<close>.\<close>

definition Set_gauge :: "gauge \<Rightarrow> string list \<Rightarrow> int \<Rightarrow> Metrics \<Rightarrow> Metrics" where
  "Set_gauge g labels v mt = mt\<lparr>mt_values := (mt_values mt)(g := (mt_values mt g)(labels \<mapsto> v))\<rparr>"

definition DeleteLabelValues :: "string list \<Rightarrow> gauge \<Rightarrow> Metrics \<Rightarrow> Metrics" where
  "DeleteLabelValues labels g mt = mt\<lparr>mt_values := (mt_values mt)(g := (mt_values mt g)(labels := None))\<rparr>"

definition server_gauges :: "gauge list" where
  "server_gauges = [ServerCount, ServerActiveConnections, ServerRxTotal, ServerTxTotal, ServerRxSecond, ServerTxSecond]"

definition backend_gauges :: "gauge list" where
  "backend_gauges = [BackendActiveConnections, BackendRefusedConnections, BackendTotalConnections, BackendRxBytes,
     BackendTxBytes, BackendRxSecond, BackendTxSecond, BackendLive]"

text \<open>The vectors as \<open>defineMetrics\<close> declares them, and the name that one is registered under.\<close>

record gauge_vec =
  gv_Subsystem :: string
  gv_Name :: string
  gv_labels :: "string list"

fun defineMetrics :: "gauge \<Rightarrow> gauge_vec" where
  "defineMetrics BuildInfo = \<lparr>gv_Subsystem = [], gv_Name = ''build_info'', gv_labels = [''version'', ''revision'', ''branch'', ''goversion'']\<rparr>"
| "defineMetrics ServerCount = \<lparr>gv_Subsystem = ''server'', gv_Name = ''count'', gv_labels = [''server'']\<rparr>"
| "defineMetrics ServerActiveConnections = \<lparr>gv_Subsystem = ''server'', gv_Name = ''active_connections'', gv_labels = [''server'']\<rparr>"
| "defineMetrics ServerRxTotal = \<lparr>gv_Subsystem = ''server'', gv_Name = ''rx_total'', gv_labels = [''server'']\<rparr>"
| "defineMetrics ServerTxTotal = \<lparr>gv_Subsystem = ''server'', gv_Name = ''tx_total'', gv_labels = [''server'']\<rparr>"
| "defineMetrics ServerRxSecond = \<lparr>gv_Subsystem = ''server'', gv_Name = ''rx_second'', gv_labels = [''server'']\<rparr>"
| "defineMetrics ServerTxSecond = \<lparr>gv_Subsystem = ''server'', gv_Name = ''tx_second'', gv_labels = [''server'']\<rparr>"
| "defineMetrics BackendActiveConnections = \<lparr>gv_Subsystem = ''backend'', gv_Name = ''active_connections'', gv_labels = [''server'', ''host'', ''port'']\<rparr>"
| "defineMetrics BackendRefusedConnections = \<lparr>gv_Subsystem = ''backend'', gv_Name = ''refused_connections'', gv_labels = [''server'', ''host'', ''port'']\<rparr>"
| "defineMetrics BackendTotalConnections = \<lparr>gv_Subsystem = ''backend'', gv_Name = ''total_connections'', gv_labels = [''server'', ''host'', ''port'']\<rparr>"
| "defineMetrics BackendRxBytes = \<lparr>gv_Subsystem = ''backend'', gv_Name = ''rx_bytes'', gv_labels = [''server'', ''host'', ''port'']\<rparr>"
| "defineMetrics BackendTxBytes = \<lparr>gv_Subsystem = ''backend'', gv_Name = ''tx_bytes'', gv_labels = [''server'', ''host'', ''port'']\<rparr>"
| "defineMetrics BackendRxSecond = \<lparr>gv_Subsystem = ''backend'', gv_Name = ''rx_second'', gv_labels = [''server'', ''host'', ''port'']\<rparr>"
| "defineMetrics BackendTxSecond = \<lparr>gv_Subsystem = ''backend'', gv_Name = ''tx_second'', gv_labels = [''server'', ''host'', ''port'']\<rparr>"
| "defineMetrics BackendLive = \<lparr>gv_Subsystem = ''backend'', gv_Name = ''live'', gv_labels = [''server'', ''host'', ''port'']\<rparr>"

definition fq_name :: "gauge \<Rightarrow> string" where
  "fq_name g = (let v = defineMetrics g
     in ''gobetween_'' @ (if gv_Subsystem v = [] then [] else gv_Subsystem v @ ''_'') @ gv_Name v)"

text \<open>\<open>build\<close>: version, revision, branch and Go version. Registering and serving them is the library's.\<close>

definition Metrics_Start :: "MetricsConfig \<Rightarrow> string list \<Rightarrow> Metrics \<Rightarrow> Metrics" where
  "Metrics_Start cfg build mt =
     (if \<not> metrics_Enabled cfg then mt\<lparr>mt_disabled := True\<rparr>
      else Set_gauge BuildInfo build 1 (mt\<lparr>mt_defined := True\<rparr>))"

definition backend_labels :: "string \<Rightarrow> Target \<Rightarrow> string list" where
  "backend_labels server t = [server, Host t, Port t]"

definition RemoveBackend :: "string \<Rightarrow> Backend \<Rightarrow> Metrics \<Rightarrow> Metrics" where
  "RemoveBackend server b mt =
     (if \<not> reporting mt then mt else fold (DeleteLabelValues (backend_labels server (Target b))) backend_gauges mt)"

definition RemoveServer :: "string \<Rightarrow> Backend list \<Rightarrow> Metrics \<Rightarrow> Metrics" where
  "RemoveServer server bs mt =
     (if \<not> reporting mt then mt
      else fold (RemoveBackend server) bs (fold (DeleteLabelValues [server]) server_gauges mt))"

definition ReportHandleBackendLiveChange :: "string \<Rightarrow> Target \<Rightarrow> bool \<Rightarrow> Metrics \<Rightarrow> Metrics" where
  "ReportHandleBackendLiveChange server target live mt =
     (if \<not> reporting mt then mt else Set_gauge BackendLive (backend_labels server target) (if live then 1 else 0) mt)"

definition ReportHandleConnectionsChange :: "string \<Rightarrow> uint64 \<Rightarrow> Metrics \<Rightarrow> Metrics" where
  "ReportHandleConnectionsChange server connections mt =
     (if \<not> reporting mt then mt else Set_gauge ServerActiveConnections [server] (uint connections) mt)"

definition ReportHandleStatsChange :: "string \<Rightarrow> BandwidthStats \<Rightarrow> Metrics \<Rightarrow> Metrics" where
  "ReportHandleStatsChange server bs mt =
     (if \<not> reporting mt then mt
      else Set_gauge ServerTxSecond [server] (uint (bs_TxSecond bs))
        (Set_gauge ServerRxSecond [server] (uint (bs_RxSecond bs))
        (Set_gauge ServerTxTotal [server] (uint (TxTotal bs))
        (Set_gauge ServerRxTotal [server] (uint (RxTotal bs)) mt))))"

text \<open>
  The two reports that read a backend out of the map: a nil pointer when it is not there. \<open>n\<close> is
  the number of backends in the map.
\<close>

definition ReportHandleBackendStatsChange ::
    "string \<Rightarrow> Target \<Rightarrow> backends \<Rightarrow> nat \<Rightarrow> Metrics \<Rightarrow> Metrics outcome" where
  "ReportHandleBackendStatsChange server target m n mt =
     (if \<not> reporting mt then Ok mt
      else case m target of None \<Rightarrow> Panic
        | Some b \<Rightarrow> (let l = backend_labels server target; s = Stats b
            in Ok (Set_gauge BackendTxSecond l (uint (TxSecond s)) (Set_gauge BackendRxSecond l (uint (RxSecond s))
                  (Set_gauge BackendTxBytes l (uint (TxBytes s)) (Set_gauge BackendRxBytes l (uint (RxBytes s))
                  (Set_gauge ServerCount [server] (int n) mt)))))))"

definition ReportHandleOp :: "string \<Rightarrow> Target \<Rightarrow> backends \<Rightarrow> Metrics \<Rightarrow> Metrics outcome" where
  "ReportHandleOp server target m mt =
     (if \<not> reporting mt then Ok mt
      else case m target of None \<Rightarrow> Panic
        | Some b \<Rightarrow> (let l = backend_labels server target; s = Stats b
            in Ok (Set_gauge BackendTotalConnections l (TotalConnections s)
                  (Set_gauge BackendRefusedConnections l (uint (RefusedConnections s))
                  (Set_gauge BackendActiveConnections l (uint (ActiveConnections s)) mt)))))"

section \<open>The scheduler's reports\<close>

text \<open>The map that \<open>HandleBackendsUpdate\<close> iterates over in its last loop, before it deletes.\<close>

definition iterated :: "sched_event \<Rightarrow> Scheduler \<Rightarrow> backends" where
  "iterated ev s = (case ev of
       EvDiscovered bs \<Rightarrow> (case discover_all (sch_hc_cfg s) bs (mark_undiscovered (sch_backends s)) of
           Ok m \<Rightarrow> m | _ \<Rightarrow> sch_backends s)
     | _ \<Rightarrow> sch_backends s)"

text \<open>\<open>s'\<close> is the scheduler after the step, \<open>order\<close> the keys of \<open>iterated ev s\<close>.\<close>

definition sched_metrics ::
    "string \<Rightarrow> Target list \<Rightarrow> sched_event \<Rightarrow> Scheduler \<Rightarrow> Scheduler \<Rightarrow> Metrics \<Rightarrow> Metrics outcome" where
  "sched_metrics server order ev s s' mt = (case ev of
       EvDiscovered bs \<Rightarrow>
         Ok (fold (RemoveBackend server) (filter (\<lambda>b. \<not> in_use b) (List.map_filter (iterated ev s) order)) mt)
     | EvCheckResult r \<Rightarrow>
         (case sch_backends s (cr_Target r) of None \<Rightarrow> Ok mt
          | Some _ \<Rightarrow> Ok (ReportHandleBackendLiveChange server (cr_Target r) (cr_Status r = Healthy) mt))
     | EvStats bs \<Rightarrow>
         (case sch_backends s (bs_Target bs) of None \<Rightarrow> Ok mt
          | Some _ \<Rightarrow> ReportHandleBackendStatsChange server (bs_Target bs) (sch_backends s') (length order) mt)
     | EvOp op \<Rightarrow>
         (case sch_backends s (op_target op) of None \<Rightarrow> Ok mt
          | Some _ \<Rightarrow> if op_op op = IncrementTx \<or> op_op op = IncrementRx then Ok mt
              else ReportHandleOp server (op_target op) (sch_backends s') mt)
     | EvStop \<Rightarrow> Ok (RemoveServer server (List.map_filter (sch_backends s) order) mt)
     | _ \<Rightarrow> Ok mt)"

inductive metrics_run ::
    "regexp \<Rightarrow> string \<Rightarrow> Scheduler \<Rightarrow> Metrics \<Rightarrow> sched_event list \<Rightarrow> Scheduler \<Rightarrow> Metrics \<Rightarrow> bool"
  for re server s mt where
  metrics_start: "metrics_run re server s mt [] s mt"
| metrics_step: "metrics_run re server s mt evs s1 mt1 \<Longrightarrow> sched_step re s1 ev s2 effs \<Longrightarrow>
    iteration_order order (iterated ev s1) \<Longrightarrow> sched_metrics server order ev s1 s2 mt1 = Ok mt2 \<Longrightarrow>
    metrics_run re server s mt (evs @ [ev]) s2 mt2"

section \<open>Lemmas\<close>

lemma values_Set [simp]:
  "mt_values (Set_gauge g l v mt) g' l' = (if g' = g \<and> l' = l then Some v else mt_values mt g' l')"
  by (simp add: Set_gauge_def)

lemma reporting_Set [simp]: "reporting (Set_gauge g l v mt) = reporting mt"
  by (simp add: Set_gauge_def reporting_def)

lemma values_deletes [simp]:
  "mt_values (fold (DeleteLabelValues l) gs mt) g' l' = (if g' \<in> set gs \<and> l' = l then None else mt_values mt g' l')"
  by (induction gs arbitrary: mt) (auto simp: DeleteLabelValues_def)

lemma reporting_deletes [simp]: "reporting (fold (DeleteLabelValues l) gs mt) = reporting mt"
  by (induction gs arbitrary: mt) (auto simp: DeleteLabelValues_def reporting_def)

lemma reporting_RemoveBackend [simp]: "reporting (RemoveBackend server b mt) = reporting mt"
  by (simp add: RemoveBackend_def)

lemma reporting_removes [simp]: "reporting (fold (RemoveBackend server) bs mt) = reporting mt"
  by (induction bs arbitrary: mt) simp_all

lemma values_removes:
  "reporting mt \<Longrightarrow> mt_values (fold (RemoveBackend server) bs mt) g l =
     (if g \<in> set backend_gauges \<and> l \<in> backend_labels server ` Target ` set bs then None else mt_values mt g l)"
  by (induction bs arbitrary: mt) (auto simp: RemoveBackend_def)

lemma backend_labels_eq [simp]: "backend_labels server t = backend_labels server' t' \<longleftrightarrow> server = server' \<and> t = t'"
  by (cases t; cases t') (auto simp: backend_labels_def)

lemma backend_labels_server [simp]: "backend_labels server t \<noteq> [server']" "[server'] \<noteq> backend_labels server t"
  by (simp_all add: backend_labels_def)

text \<open>What a gauge shows of a backend.\<close>

fun gauge_of :: "gauge \<Rightarrow> BackendStats \<Rightarrow> int" where
  "gauge_of BackendActiveConnections s = uint (ActiveConnections s)"
| "gauge_of BackendRefusedConnections s = uint (RefusedConnections s)"
| "gauge_of BackendTotalConnections s = TotalConnections s"
| "gauge_of BackendRxBytes s = uint (RxBytes s)"
| "gauge_of BackendTxBytes s = uint (TxBytes s)"
| "gauge_of BackendRxSecond s = uint (RxSecond s)"
| "gauge_of BackendTxSecond s = uint (TxSecond s)"
| "gauge_of BackendLive s = (if Live s then 1 else 0)"
| "gauge_of _ s = 0"

lemma gauge_of_Discovered [simp]: "gauge_of g (s\<lparr>Discovered := d\<rparr>) = gauge_of g s"
  by (cases g) simp_all

text \<open>The gauges of a server's backends show the tracked backends as they are.\<close>

definition gauges_exact :: "string \<Rightarrow> backends \<Rightarrow> Metrics \<Rightarrow> bool" where
  "gauges_exact server m mt \<longleftrightarrow> (\<forall>g \<in> set backend_gauges. \<forall>t v. mt_values mt g (backend_labels server t) = Some v \<longrightarrow>
     (\<exists>b. m t = Some b \<and> v = gauge_of g (Stats b)))"

definition no_gauges :: "string \<Rightarrow> Metrics \<Rightarrow> bool" where
  "no_gauges server mt \<longleftrightarrow> (\<forall>g \<in> set backend_gauges. \<forall>t. mt_values mt g (backend_labels server t) = None) \<and>
     (\<forall>g \<in> set server_gauges. mt_values mt g [server] = None)"

lemma discover_one_gauges:
  assumes "discover_one cfg b m = Ok m'" and "m t = Some c"
  shows "\<exists>c'. m' t = Some c' \<and> (\<forall>g. gauge_of g (Stats c') = gauge_of g (Stats c))"
  using assms by (auto simp: discover_one_def set_discovered_def split: option.splits)

lemma discover_all_gauges:
  "discover_all cfg bs m = Ok m' \<Longrightarrow> m t = Some c \<Longrightarrow>
   \<exists>c'. m' t = Some c' \<and> (\<forall>g. gauge_of g (Stats c') = gauge_of g (Stats c))"
proof (induction bs arbitrary: m c)
  case (Cons b bs)
  then obtain m1 where m1: "discover_one cfg b m = Ok m1" "discover_all cfg bs m1 = Ok m'"
    by (auto simp: bind_outcome_Ok_iff)
  from discover_one_gauges [OF m1(1) Cons.prems(2)] Cons.IH [OF m1(2)] show ?case by fastforce
qed auto

lemma exact_discovered:
  assumes "discover_all cfg bs (mark_undiscovered m) = Ok m1" and "gauges_exact server m mt" and "reporting mt"
    and "iteration_order order m1" and "wf_backends m1"
  shows "gauges_exact server (remove_unused m1)
    (fold (RemoveBackend server) (filter (\<lambda>b. \<not> in_use b) (List.map_filter m1 order)) mt)"
  unfolding gauges_exact_def
proof (intro ballI allI impI)
  fix g t v
  let ?gone = "filter (\<lambda>b. \<not> in_use b) (List.map_filter m1 order)"
  assume g: "g \<in> set backend_gauges"
    and v: "mt_values (fold (RemoveBackend server) ?gone mt) g (backend_labels server t) = Some v"
  then have gone: "t \<notin> Target ` set ?gone" and "mt_values mt g (backend_labels server t) = Some v"
    using values_removes [OF assms(3)] by (auto split: if_splits)
  then obtain b where b: "m t = Some b" "v = gauge_of g (Stats b)"
    using assms(2) g unfolding gauges_exact_def by blast
  have "mark_undiscovered m t = Some (set_discovered False b)" using b(1) by (simp add: mark_undiscovered_def)
  from discover_all_gauges [OF assms(1) this] obtain c where c: "m1 t = Some c" "gauge_of g (Stats c) = gauge_of g (Stats b)"
    by (auto simp: set_discovered_def)
  have "in_use c"
  proof (rule ccontr)
    assume "\<not> in_use c"
    moreover have "c \<in> set (List.map_filter m1 order)"
      using c(1) assms(4) by (force simp: iteration_order_def List.map_filter_def)
    moreover have "Target c = t" using c(1) assms(5) by (simp add: wf_backends_def)
    ultimately show False using gone by force
  qed
  then show "\<exists>b. remove_unused m1 t = Some b \<and> v = gauge_of g (Stats b)"
    using c b(2) by (auto simp: remove_unused_def)
qed

text \<open>Replacing a tracked backend keeps the gauges exact when those that differ are reported.\<close>

lemma exact_changed:
  assumes "gauges_exact server m mt" and "m t = Some b"
    and "\<And>g u v. g \<in> set backend_gauges \<Longrightarrow> mt_values mt' g (backend_labels server u) = Some v \<Longrightarrow>
      u = t \<and> v = gauge_of g (Stats b') \<or>
      mt_values mt g (backend_labels server u) = Some v \<and> (u = t \<longrightarrow> gauge_of g (Stats b') = gauge_of g (Stats b))"
  shows "gauges_exact server (m(t \<mapsto> b')) mt'"
  unfolding gauges_exact_def
proof (intro ballI allI impI)
  fix g u v assume g: "g \<in> set backend_gauges" and v: "mt_values mt' g (backend_labels server u) = Some v"
  from assms(3) [OF this] show "\<exists>b. (m(t \<mapsto> b')) u = Some b \<and> v = gauge_of g (Stats b)"
    using assms(1,2) g unfolding gauges_exact_def by fastforce
qed

lemma stats_change_exact:
  assumes "gauges_exact server m mt" and "reporting mt" and "m t = Some b"
  shows "\<exists>mt'. ReportHandleBackendStatsChange server t (HandleBackendStatsChange t bs m) n mt = Ok mt' \<and> reporting mt' \<and>
    gauges_exact server (HandleBackendStatsChange t bs m) mt'"
proof -
  let ?b = "with_stats (\<lambda>s. s\<lparr>RxBytes := RxTotal bs, TxBytes := TxTotal bs, RxSecond := bs_RxSecond bs,
    TxSecond := bs_TxSecond bs\<rparr>) b"
  have m': "HandleBackendStatsChange t bs m = m(t \<mapsto> ?b)" using assms(3) by (simp add: HandleBackendStatsChange_def)
  show ?thesis unfolding m' ReportHandleBackendStatsChange_def Let_def
    using assms(2)
    by (simp, intro exact_changed [OF assms(1,3)]) (auto simp: backend_gauges_def split: if_splits)
qed

lemma op_exact:
  assumes "gauges_exact server m mt" and "reporting mt" and "m t = Some b"
  shows "\<exists>mt'. ReportHandleOp server t (m(t \<mapsto> with_stats (apply_op a) b)) mt = Ok mt' \<and> reporting mt' \<and>
    gauges_exact server (m(t \<mapsto> with_stats (apply_op a) b)) mt'"
  unfolding ReportHandleOp_def Let_def using assms(2)
  by (simp, intro exact_changed [OF assms(1,3)]) (auto simp: backend_gauges_def apply_op_def split: if_splits OpAction.splits)

lemma live_exact:
  assumes "gauges_exact server m mt" and "reporting mt" and "m t = Some b"
  shows "gauges_exact server (HandleBackendLiveChange t live m) (ReportHandleBackendLiveChange server t live mt)"
proof -
  have "HandleBackendLiveChange t live m = m(t \<mapsto> with_stats (\<lambda>s. s\<lparr>Live := live\<rparr>) b)"
    using assms(3) by (simp add: HandleBackendLiveChange_def)
  then show ?thesis using assms(2)
    by (simp, intro exact_changed [OF assms(1,3)])
      (auto simp: backend_gauges_def ReportHandleBackendLiveChange_def split: if_splits)
qed

lemma iterated_targets:
  "iteration_order order m \<Longrightarrow> wf_backends m \<Longrightarrow> Target ` set (List.map_filter m order) = dom m"
  by (force simp: iteration_order_def List.map_filter_def wf_backends_def image_iff)

lemma server_backend_gauges [simp]: "g \<in> set server_gauges \<Longrightarrow> g \<notin> set backend_gauges"
  by (auto simp: server_gauges_def backend_gauges_def)

lemma stop_no_gauges:
  assumes "gauges_exact server m mt" and "reporting mt" and "iteration_order order m" and "wf_backends m"
  shows "no_gauges server (RemoveServer server (List.map_filter m order) mt)"
proof -
  let ?mt = "fold (DeleteLabelValues [server]) server_gauges mt"
  have r: "RemoveServer server (List.map_filter m order) mt = fold (RemoveBackend server) (List.map_filter m order) ?mt"
    using assms(2) by (simp add: RemoveServer_def)
  have v: "mt_values (fold (RemoveBackend server) (List.map_filter m order) ?mt) g l =
      (if g \<in> set backend_gauges \<and> l \<in> backend_labels server ` dom m then None
       else if g \<in> set server_gauges \<and> l = [server] then None else mt_values mt g l)" for g l
    using values_removes [of ?mt server "List.map_filter m order" g l] assms(2) iterated_targets [OF assms(3,4)]
    by simp
  have "mt_values mt g (backend_labels server t) = None" if "g \<in> set backend_gauges" "t \<notin> dom m" for g t
    using assms(1) that unfolding gauges_exact_def by (metis domI not_Some_eq)
  then show ?thesis unfolding no_gauges_def r v by auto
qed

section \<open>The gauges follow the scheduler\<close>

lemma wf_iterated: "wf_backends (sch_backends s) \<Longrightarrow> wf_backends (iterated ev s)"
  by (auto simp: iterated_def split: sched_event.splits outcome.splits intro: wf_discover_all wf_mark)

lemma HandleOp_backends:
  "HandleOp op m = Ok (m', effs) \<Longrightarrow> m' = (if op_op op = IncrementTx \<or> op_op op = IncrementRx then m
     else case m (op_target op) of None \<Rightarrow> m | Some b \<Rightarrow> m(op_target op \<mapsto> with_stats (apply_op (op_op op)) b))"
  by (auto simp: HandleOp_def split: OpAction.splits option.splits)

lemma sched_metrics_exact:
  assumes h: "sched_handle re rnd order order' ev s = Ok (s', effs)"
    and mt: "gauges_exact server (sch_backends s) mt" "reporting mt"
    and it: "iteration_order keys (iterated ev s)" and wf: "wf_backends (sch_backends s)"
  shows "\<exists>mt'. sched_metrics server keys ev s s' mt = Ok mt' \<and> reporting mt' \<and>
    gauges_exact server (sch_backends s') mt' \<and> (ev = EvStop \<longrightarrow> no_gauges server mt')"
proof (cases ev)
  case (EvDiscovered bs)
  then obtain m1 where m1: "discover_all (sch_hc_cfg s) bs (mark_undiscovered (sch_backends s)) = Ok m1"
    "sch_backends s' = remove_unused m1"
    using h by (auto simp: sched_handle_def HandleBackendsUpdate_def bind_outcome_Ok_iff)
  then have "iterated ev s = m1" using EvDiscovered by (simp add: iterated_def)
  then show ?thesis
    using exact_discovered [OF m1(1) mt, of keys] it wf_iterated [OF wf, of ev] m1(2) mt(2) EvDiscovered
    by (simp add: sched_metrics_def)
next
  case (EvCheckResult r)
  then have "sch_backends s' = HandleBackendLiveChange (cr_Target r) (cr_Status r = Healthy) (sch_backends s)"
    using h by (auto simp: sched_handle_def)
  then show ?thesis using EvCheckResult mt live_exact [OF mt]
    by (cases "sch_backends s (cr_Target r)")
      (simp_all add: sched_metrics_def HandleBackendLiveChange_def ReportHandleBackendLiveChange_def)
next
  case (EvStats bs)
  then have "sch_backends s' = HandleBackendStatsChange (bs_Target bs) bs (sch_backends s)"
    using h by (auto simp: sched_handle_def)
  then show ?thesis using EvStats mt stats_change_exact [OF mt, of "bs_Target bs"]
    by (cases "sch_backends s (bs_Target bs)") (simp_all add: sched_metrics_def HandleBackendStatsChange_def)
next
  case (EvOp op)
  then obtain m' e where m': "HandleOp op (sch_backends s) = Ok (m', e)" "sch_backends s' = m'"
    using h by (auto simp: sched_handle_def bind_outcome_Ok_iff)
  then show ?thesis using EvOp mt op_exact [OF mt, of "op_target op"] HandleOp_backends [OF m'(1)]
    by (cases "sch_backends s (op_target op)") (auto simp: sched_metrics_def)
next
  case EvStop
  then have "sch_backends s' = sch_backends s" "iterated ev s = sch_backends s"
    using h by (auto simp: sched_handle_def iterated_def)
  moreover from this have "no_gauges server (RemoveServer server (List.map_filter (sch_backends s) keys) mt)"
    using stop_no_gauges [OF mt _ wf] it by simp
  moreover from this have "gauges_exact server (sch_backends s) (RemoveServer server (List.map_filter (sch_backends s) keys) mt)"
    by (auto simp: no_gauges_def gauges_exact_def)
  ultimately show ?thesis using EvStop mt(2) by (simp add: sched_metrics_def RemoveServer_def)
next
  case EvPush
  then show ?thesis using h mt by (auto simp: sched_handle_def sched_metrics_def)
next
  case (EvElect ctx)
  then have "HandleBackendElect re rnd order ctx s = Ok (s', effs)" using h by (simp add: sched_handle_def)
  from HandleBackendElect_backends [OF this] show ?thesis using EvElect mt by (simp add: sched_metrics_def)
qed

definition metrics_inv :: "string \<Rightarrow> Scheduler \<Rightarrow> Metrics \<Rightarrow> bool" where
  "metrics_inv server s mt \<longleftrightarrow> reporting mt \<and> gauges_exact server (sch_backends s) mt \<and> wf_backends (sch_backends s) \<and>
     (\<not> sch_running s \<longrightarrow> no_gauges server mt)"

lemma metrics_step_inv:
  assumes "metrics_inv server s mt" and "sched_step re s ev s' effs" and "iteration_order keys (iterated ev s)"
  shows "\<exists>mt'. sched_metrics server keys ev s s' mt = Ok mt' \<and> metrics_inv server s' mt'"
proof -
  from assms(2) obtain rnd order order' where h: "sched_handle re rnd order order' ev s = Ok (s', effs)" and run: "sch_running s"
    by (auto simp: sched_step_iff)
  from assms(1) have mt: "gauges_exact server (sch_backends s) mt" "reporting mt" and wf: "wf_backends (sch_backends s)"
    by (simp_all add: metrics_inv_def)
  from sched_metrics_exact [OF h mt assms(3) wf] running_step [OF h run] sched_handle_wf [OF h wf]
  show ?thesis by (auto simp: metrics_inv_def)
qed

lemma metrics_run_inv: "metrics_run re server s mt evs s' mt' \<Longrightarrow> metrics_inv server s mt \<Longrightarrow> metrics_inv server s' mt'"
  by (induction rule: metrics_run.induct) (use metrics_step_inv in fastforce)+

lemma metrics_inv_start:
  "reporting mt \<Longrightarrow> no_gauges server mt \<Longrightarrow> metrics_inv server (Scheduler_start bal cfg) mt"
  by (auto simp: metrics_inv_def gauges_exact_def no_gauges_def Scheduler_start_def wf_backends_def)

section \<open>Labels\<close>

text \<open>
  Everything that happens to the gauges of a process: its start, and the reports and removals of the
  schedulers and statistics handlers of all its servers, in any order.
\<close>

inductive metrics_reachable :: "MetricsConfig \<Rightarrow> string list \<Rightarrow> Metrics \<Rightarrow> bool" for cfg build where
  mt_start: "metrics_reachable cfg build (Metrics_Start cfg build no_metrics)"
| mt_RemoveServer: "metrics_reachable cfg build mt \<Longrightarrow> metrics_reachable cfg build (RemoveServer server bs mt)"
| mt_RemoveBackend: "metrics_reachable cfg build mt \<Longrightarrow> metrics_reachable cfg build (RemoveBackend server b mt)"
| mt_Live: "metrics_reachable cfg build mt \<Longrightarrow>
    metrics_reachable cfg build (ReportHandleBackendLiveChange server t live mt)"
| mt_Connections: "metrics_reachable cfg build mt \<Longrightarrow>
    metrics_reachable cfg build (ReportHandleConnectionsChange server connections mt)"
| mt_Stats: "metrics_reachable cfg build mt \<Longrightarrow> metrics_reachable cfg build (ReportHandleStatsChange server bs mt)"
| mt_BackendStats: "metrics_reachable cfg build mt \<Longrightarrow>
    ReportHandleBackendStatsChange server t m n mt = Ok mt' \<Longrightarrow> metrics_reachable cfg build mt'"
| mt_Op: "metrics_reachable cfg build mt \<Longrightarrow> ReportHandleOp server t m mt = Ok mt' \<Longrightarrow> metrics_reachable cfg build mt'"

definition well_labelled :: "Metrics \<Rightarrow> bool" where
  "well_labelled mt \<longleftrightarrow> (\<forall>g l v. mt_values mt g l = Some v \<longrightarrow> length l = length (gv_labels (defineMetrics g)))"

lemma labelled_Set [simp]: "well_labelled mt \<Longrightarrow> length l = length (gv_labels (defineMetrics g)) \<Longrightarrow> well_labelled (Set_gauge g l v mt)"
  by (simp add: well_labelled_def)

lemma labelled_RemoveBackend [simp]: "well_labelled mt \<Longrightarrow> well_labelled (RemoveBackend server b mt)"
  by (auto simp: well_labelled_def RemoveBackend_def)

lemma labelled_RemoveServer [simp]: "well_labelled mt \<Longrightarrow> well_labelled (RemoveServer server bs mt)"
  by (auto simp: well_labelled_def RemoveServer_def values_removes)

lemma metrics_reachable_labelled: "metrics_reachable cfg build mt \<Longrightarrow> length build = 4 \<Longrightarrow> well_labelled mt"
proof (induction rule: metrics_reachable.induct)
  case mt_start
  then show ?case by (simp add: Metrics_Start_def no_metrics_def well_labelled_def Set_gauge_def)
qed (auto simp: ReportHandleBackendLiveChange_def ReportHandleConnectionsChange_def ReportHandleStatsChange_def
      ReportHandleBackendStatsChange_def ReportHandleOp_def backend_labels_def Let_def split: if_splits option.splits)

text \<open>No two vectors are registered under the same name.\<close>

lemma fq_name_inject: "fq_name g = fq_name g' \<longleftrightarrow> g = g'"
  by (cases g; cases g') (simp_all add: fq_name_def)

end
