(* ===== verification/Metrics_Properties.thy ===== *)
theory Metrics_Properties
  imports Metrics Scheduler_Properties
begin

text \<open>
  The property of the metrics: the gauges of a server's backends follow the scheduler's map.
\<close>


definition enabled_metrics :: Metrics where
  "enabled_metrics = Metrics_Start \<lparr>metrics_Enabled = True, metrics_Bind = '':9284''\<rparr> [''0.8.0'', ''abc'', ''master'', ''go1.20''] no_metrics"

lemma enabled_metrics_simps: "reporting enabled_metrics" "no_gauges server enabled_metrics"
  by (auto simp: enabled_metrics_def Metrics_Start_def no_metrics_def reporting_def no_gauges_def Set_gauge_def
      backend_gauges_def server_gauges_def)


text \<open>The gauges are well formed in everything that can happen to them: no two vectors are registered
  under one name, and each value is set with exactly as many labels as its vector declares, so that the
  library's panics on a second registration and on a wrong number of labels are never met.\<close>

theorem metrics_well_labelled:
  assumes "metrics_reachable cfg build mt" and "length build = length (gv_labels (defineMetrics BuildInfo))"
  shows "inj fq_name \<and> (\<forall>g l v. mt_values mt g l = Some v \<longrightarrow> length l = length (gv_labels (defineMetrics g)))"
  using metrics_reachable_labelled [OF assms(1)] assms(2) fq_name_inject by (auto simp: well_labelled_def intro: injI)

theorem metrics_well_labelled_witness:
  "metrics_reachable \<lparr>metrics_Enabled = True, metrics_Bind = '':9284''\<rparr> [''0.8.0'', ''abc'', ''master'', ''go1.20'']
     (ReportHandleConnectionsChange ''web'' 3 enabled_metrics) \<and>
   mt_values (ReportHandleConnectionsChange ''web'' 3 enabled_metrics) ServerActiveConnections [''web''] = Some 3 \<and>
   mt_values (ReportHandleConnectionsChange ''web'' 3 enabled_metrics) ServerActiveConnections [] = None"
proof -
  let ?cfg = "\<lparr>metrics_Enabled = True, metrics_Bind = '':9284''\<rparr>" and ?build = "[''0.8.0'', ''abc'', ''master'', ''go1.20'']"
  let ?mt = "ReportHandleConnectionsChange ''web'' 3 enabled_metrics"
  have r: "metrics_reachable ?cfg ?build ?mt"
    unfolding enabled_metrics_def by (intro mt_Connections mt_start)
  from metrics_well_labelled [OF r] have "mt_values ?mt ServerActiveConnections [] = None"
    by (cases "mt_values ?mt ServerActiveConnections []") fastforce+
  with r show ?thesis using enabled_metrics_simps(1) by (simp add: ReportHandleConnectionsChange_def)
qed

end
