(* ===== verification/Loader.thy ===== *)
theory Loader
  imports Config Go_Std "HOL-Library.Sublist"
begin

text \<open>
  Loading a configuration (src/src/cmd/loader.go, src/src/utils/env.go, src/src/utils/codec/codec.go) and
  what the process does around it (src/src/logging/log.go, src/src/utils/pidfile/pidfile.go). Decoders,
  HTTP, consul, files and the environment are parameters.
\<close>

section \<open>Environment variables\<close>

text \<open>\<open>strings.ReplaceAll\<close> for a non-empty \<open>old\<close>.\<close>

function ReplaceAll :: "string \<Rightarrow> string \<Rightarrow> string \<Rightarrow> string" where
  "ReplaceAll old new s =
     (if s = [] then []
      else if old \<noteq> [] \<and> prefix old s then new @ ReplaceAll old new (drop (length old) s)
      else hd s # ReplaceAll old new (tl s))"
  by pat_completeness auto
termination
  by (relation "measure (\<lambda>(old, new, s). length s)") (auto simp: prefix_def)

declare ReplaceAll.simps [simp del]

text \<open>
  A match of \<open>\${.*?}\<close> at the start of a string: the name in it, and what follows. The dot does not
  match a newline.
\<close>

definition in_name :: "char \<Rightarrow> bool" where
  "in_name c \<longleftrightarrow> c \<noteq> CHR ''}'' \<and> c \<noteq> CHR 0x0A"

definition placeholder :: "string \<Rightarrow> (string \<times> string) option" where
  "placeholder s =
     (if take 2 s = ''${'' then
        (case dropWhile in_name (drop 2 s) of
           c # rest \<Rightarrow> if c = CHR ''}'' then Some (takeWhile in_name (drop 2 s), rest) else None
         | [] \<Rightarrow> None)
      else None)"

definition env_var :: "string \<Rightarrow> string" where
  "env_var name = ''${'' @ name @ ''}''"

lemma placeholder_Some: "placeholder s = Some (name, rest) \<Longrightarrow> s = env_var name @ rest \<and> list_all in_name name"
proof -
  assume a: "placeholder s = Some (name, rest)"
  then have t: "take 2 s = ''${''" and d: "dropWhile in_name (drop 2 s) = CHR ''}'' # rest"
    and n: "name = takeWhile in_name (drop 2 s)"
    by (auto simp: placeholder_def split: if_splits list.splits)
  have "s = take 2 s @ drop 2 s" by simp
  also have "drop 2 s = name @ CHR ''}'' # rest" using d n takeWhile_dropWhile_id [of in_name "drop 2 s"] by simp
  finally show ?thesis using t n by (auto simp: env_var_def list_all_iff dest: set_takeWhileD)
qed

text \<open>\<open>FindAllString\<close>: the matches from left to right, none overlapping another; their names.\<close>

function FindAllNames :: "string \<Rightarrow> string list" where
  "FindAllNames [] = []"
| "FindAllNames (c # cs) = (case placeholder (c # cs) of
       None \<Rightarrow> FindAllNames cs
     | Some (name, rest) \<Rightarrow> name # FindAllNames rest)"
  by pat_completeness auto
termination
proof (relation "measure length")
  fix c cs x name rest assume "placeholder (c # cs) = Some x" "(name, rest) = x"
  then have "c # cs = env_var name @ rest" using placeholder_Some by blast
  then have "length (c # cs) = length (env_var name @ rest)" by simp
  then show "(rest, c # cs) \<in> measure length" by (simp add: env_var_def)
qed auto

definition SubstituteEnvVars :: "(string \<Rightarrow> string) \<Rightarrow> string \<Rightarrow> string" where
  "SubstituteEnvVars getenv s =
     foldl (\<lambda>s name. ReplaceAll (env_var name) (getenv name) s) s (FindAllNames s)"

section \<open>Decoding and loading\<close>

text \<open>The decoders of the two formats; \<open>None\<close> is an error.\<close>

record 'a codec =
  cd_toml :: "string \<Rightarrow> 'a option"
  cd_json :: "string \<Rightarrow> 'a option"

definition Decode :: "'a codec \<Rightarrow> string \<Rightarrow> string \<Rightarrow> 'a outcome" where
  "Decode cd data format =
     (if format = ''toml'' then (case cd_toml cd data of None \<Rightarrow> Err ''toml'' | Some v \<Rightarrow> Ok v)
      else if format = ''json'' then (case cd_json cd data of None \<Rightarrow> Err ''json'' | Some v \<Rightarrow> Ok v)
      else Err (''Unknown format '' @ format))"

definition Encode :: "('a \<Rightarrow> string option) \<Rightarrow> ('a \<Rightarrow> string option) \<Rightarrow> 'a \<Rightarrow> string \<Rightarrow> string outcome" where
  "Encode toml json v format =
     (if format = ''toml'' then (case toml v of None \<Rightarrow> Err ''toml'' | Some s \<Rightarrow> Ok s)
      else if format = ''json'' then (case json v of None \<Rightarrow> Err ''json'' | Some s \<Rightarrow> Ok s)
      else Err (''Unknown format '' @ format))"

text \<open>The flags \<open>-e\<close> and \<open>-f\<close>, and the sources a configuration can come from.\<close>

record 'a loader_env =
  ld_isConfigEnvVars :: bool
  ld_format :: string
  ld_getenv :: "string \<Rightarrow> string"
  ld_codec :: "'a codec"
  ld_read_file :: "string \<Rightarrow> string option"
  ld_http_get :: "string \<Rightarrow> string option"
  ld_consul :: "string \<Rightarrow> string \<Rightarrow> string option option"

definition decodeConfigString :: "'a loader_env \<Rightarrow> string \<Rightarrow> 'a outcome" where
  "decodeConfigString env data =
     Decode (ld_codec env) (if ld_isConfigEnvVars env then SubstituteEnvVars (ld_getenv env) data else data) (ld_format env)"

definition loadConfigFromFile :: "'a loader_env \<Rightarrow> string \<Rightarrow> 'a outcome" where
  "loadConfigFromFile env path = (case ld_read_file env path of None \<Rightarrow> Err ''open'' | Some s \<Rightarrow> decodeConfigString env s)"

definition loadConfigFromURL :: "'a loader_env \<Rightarrow> string \<Rightarrow> 'a outcome" where
  "loadConfigFromURL env url = (case ld_http_get env url of None \<Rightarrow> Err ''http'' | Some s \<Rightarrow> decodeConfigString env s)"

text \<open>\<open>ld_consul\<close>: \<open>None\<close> an error, \<open>Some None\<close> no such key.\<close>

definition loadConfigFromConsul :: "'a loader_env \<Rightarrow> string \<Rightarrow> string \<Rightarrow> 'a outcome" where
  "loadConfigFromConsul env address key = (case ld_consul env address key of
       None \<Rightarrow> Err ''consul''
     | Some None \<Rightarrow> Err (''empty value for key '' @ key)
     | Some (Some s) \<Rightarrow> decodeConfigString env s)"

text \<open>The loader that the command has set.\<close>

datatype configLoader = FromFile string | FromURL string | FromConsul string string

definition LoadConfig :: "'a loader_env \<Rightarrow> configLoader option \<Rightarrow> 'a outcome" where
  "LoadConfig env loader = (case loader of
       None \<Rightarrow> Err ''configuration reload is not available for this command''
     | Some (FromFile path) \<Rightarrow> loadConfigFromFile env path
     | Some (FromURL url) \<Rightarrow> loadConfigFromURL env url
     | Some (FromConsul address key) \<Rightarrow> loadConfigFromConsul env address key)"

section \<open>Logging\<close>

record Logger =
  lg_output :: string
  lg_json :: bool
  lg_level :: string

definition initial_logger :: Logger where
  "initial_logger = \<lparr>lg_output = ''stdout'', lg_json = False, lg_level = ''info''\<rparr>"

text \<open>\<open>can_open\<close>: the log file can be opened; \<open>level_ok\<close>: \<open>ParseLevel\<close>. \<open>logrus.Fatal\<close> is \<open>Panic\<close>.\<close>

definition Logging_Configure ::
    "(string \<Rightarrow> bool) \<Rightarrow> (string \<Rightarrow> bool) \<Rightarrow> LoggingConfig \<Rightarrow> Logger \<Rightarrow> Logger outcome" where
  "Logging_Configure can_open level_ok cfg lg =
     (let output = log_Output cfg;
          l = log_Level cfg;
          lg = lg\<lparr>lg_output := (if output = [] then ''stdout'' else output)\<rparr>
      in if output \<noteq> [] \<and> output \<noteq> ''stdout'' \<and> output \<noteq> ''stderr'' \<and> \<not> can_open output then Panic
         else
           let lg = (if log_Format cfg = ''json'' then lg\<lparr>lg_json := True\<rparr> else lg)
           in if l = [] then Ok lg
              else if level_ok l then Ok (lg\<lparr>lg_level := l\<rparr>)
              else Panic)"

text \<open>\<open>strings.ToUpper\<close> on ASCII, and the verb \<open>%-5.5s\<close>: cut to five characters and padded on the right.\<close>

definition to_upper :: "char \<Rightarrow> char" where
  "to_upper c = (let n = of_char c :: nat in if 97 \<le> n \<and> n \<le> 122 then char_of (n - 32) else c)"

definition five :: "string \<Rightarrow> string" where
  "five s = take 5 s @ replicate (5 - length s) CHR '' ''"

text \<open>\<open>Format\<close> of \<open>MyFormatter\<close>; \<open>time\<close> is the entry's time as \<open>2006-01-02 15:04:05\<close>, \<open>name\<close> the field that
  \<open>For\<close> adds.\<close>

definition Format :: "string \<Rightarrow> string \<Rightarrow> string option \<Rightarrow> string \<Rightarrow> string" where
  "Format time level name message =
     time @ '' ['' @ five (map to_upper level) @ ''] ('' @ (case name of None \<Rightarrow> ''default'' | Some n \<Rightarrow> n) @ ''): ''
       @ message @ [CHR 0x0A]"

lemma five_length [simp]: "length (five s) = 5"
  by (simp add: five_def)

text \<open>The level stands in a column of its own, and entries differ when their times and messages do.\<close>

lemma Format_columns:
  "length time = length time' \<Longrightarrow>
   Format time level name message = Format time' level' name message' \<longleftrightarrow>
     time = time' \<and> five (map to_upper level) = five (map to_upper level') \<and> message = message'"
  by (auto simp: Format_def)

section \<open>The pid file\<close>

text \<open>
  \<open>file\<close>: whether \<open>Stat\<close> finds the file, and what reading it gives; \<open>alive\<close>: a process that takes
  the signal 0. The result is what is written.
\<close>

definition WritePidFile ::
    "bool \<Rightarrow> string option \<Rightarrow> (goint \<Rightarrow> bool) \<Rightarrow> goint \<Rightarrow> string outcome" where
  "WritePidFile exists content alive pid =
     (if \<not> exists then Ok (Itoa pid)
      else case content of
          None \<Rightarrow> Err ''Could not read pid file''
        | Some s \<Rightarrow> (case Atoi s of
              None \<Rightarrow> Err ''Could not parse pid file''
            | Some p \<Rightarrow> if alive p then Err (''process with pid '' @ Itoa p @ '' is still running'') else Ok (Itoa pid)))"

end
