(* ===== verification/Loader_Correct.thy ===== *)
theory Loader_Correct
  imports Loader
begin

text \<open>
  Replacing the variables of a configuration one after the other against replacing them in one pass:
  the text is cut into plain characters and placeholders, and each replacement is followed on the pieces.
\<close>

section \<open>Pieces\<close>

datatype piece = Plain char | Var string

function pieces :: "string \<Rightarrow> piece list" where
  "pieces [] = []"
| "pieces (c # cs) = (case placeholder (c # cs) of
       None \<Rightarrow> Plain c # pieces cs
     | Some (name, rest) \<Rightarrow> Var name # pieces rest)"
  by pat_completeness auto
termination
proof (relation "measure length")
  fix c cs x name rest assume "placeholder (c # cs) = Some x" "(name, rest) = x"
  then have "c # cs = env_var name @ rest" using placeholder_Some by blast
  then have "length (c # cs) = length (env_var name @ rest)" by simp
  then show "(rest, c # cs) \<in> measure length" by (simp add: env_var_def)
qed auto

fun piece_text :: "piece \<Rightarrow> string" where
  "piece_text (Plain c) = [c]"
| "piece_text (Var name) = env_var name"

definition pieces_text :: "piece list \<Rightarrow> string" where
  "pieces_text ps = concat (map piece_text ps)"

lemma pieces_text_simps [simp]:
  "pieces_text [] = []" "pieces_text (p # ps) = piece_text p @ pieces_text ps"
  "pieces_text (ps @ qs) = pieces_text ps @ pieces_text qs" "pieces_text (map Plain s) = s"
  by (simp_all add: pieces_text_def comp_def)

lemma pieces_text_pieces: "pieces_text (pieces s) = s"
  by (induction s rule: pieces.induct) (auto dest: placeholder_Some split: option.splits)

fun names :: "piece list \<Rightarrow> string list" where
  "names [] = []"
| "names (Plain c # ps) = names ps"
| "names (Var n # ps) = n # names ps"

lemma FindAllNames_pieces: "FindAllNames s = names (pieces s)"
  by (induction s rule: pieces.induct) (auto split: option.splits)

text \<open>One pass: every placeholder becomes the value of its variable.\<close>

definition substitute :: "(string \<Rightarrow> string) \<Rightarrow> string \<Rightarrow> string" where
  "substitute getenv s = concat (map (\<lambda>p. case p of Plain c \<Rightarrow> [c] | Var n \<Rightarrow> getenv n) (pieces s))"

section \<open>Where a placeholder can start\<close>

definition clean :: "string \<Rightarrow> bool" where
  "clean n \<longleftrightarrow> list_all in_name n \<and> CHR ''$'' \<notin> set n"

text \<open>No closing brace before the next newline, and no placeholder either.\<close>

fun unclosed :: "piece list \<Rightarrow> bool" where
  "unclosed [] \<longleftrightarrow> True"
| "unclosed (Plain c # ps) \<longleftrightarrow> c = CHR 0x0A \<or> c \<noteq> CHR ''}'' \<and> unclosed ps"
| "unclosed (Var n # ps) \<longleftrightarrow> False"

fun settled :: "piece list \<Rightarrow> bool" where
  "settled [] \<longleftrightarrow> True"
| "settled (Plain c # ps) \<longleftrightarrow> settled ps \<and>
     (\<forall>qs. c = CHR ''$'' \<and> ps = Plain CHR ''{'' # qs \<longrightarrow> unclosed qs)"
| "settled (Var n # ps) \<longleftrightarrow> clean n \<and> settled ps"

lemma unclosed_no_prefix: "unclosed ps \<Longrightarrow> list_all in_name n \<Longrightarrow> \<not> prefix (n @ ''}'') (pieces_text ps)"
proof (induction n arbitrary: ps)
  case Nil
  then show ?case by (cases ps rule: unclosed.cases) auto
next
  case (Cons c n)
  then show ?case by (cases ps rule: unclosed.cases) (auto simp: in_name_def)
qed

lemma settled_no_prefix:
  assumes "settled (Plain CHR ''$'' # ps)" and "clean n"
  shows "\<not> prefix (env_var n) (CHR ''$'' # pieces_text ps)"
proof
  assume "prefix (env_var n) (CHR ''$'' # pieces_text ps)"
  then have p: "prefix (CHR ''{'' # n @ ''}'') (pieces_text ps)" by (simp add: env_var_def)
  then show False
  proof (cases ps)
    case (Cons x qs)
    show ?thesis
    proof (cases x)
      case (Plain c)
      then have "c = CHR ''{''" "prefix (n @ ''}'') (pieces_text qs)" using p Cons by auto
      then show ?thesis using assms Plain Cons unclosed_no_prefix [of qs n] by (auto simp: clean_def)
    next
      case (Var m)
      then show ?thesis using p Cons by (simp add: env_var_def)
    qed
  qed simp
qed

lemma same_name:
  "prefix (n @ ''}'') (m @ CHR ''}'' # s) \<Longrightarrow> list_all in_name n \<Longrightarrow> list_all in_name m \<Longrightarrow> n = m"
proof (induction n arbitrary: m)
  case Nil
  then show ?case by (cases m) (auto simp: in_name_def)
next
  case (Cons c n)
  then show ?case by (cases m) (auto simp: in_name_def)
qed

section \<open>One replacement\<close>

definition put :: "string \<Rightarrow> string \<Rightarrow> piece list \<Rightarrow> piece list" where
  "put n v ps = concat (map (\<lambda>p. if p = Var n then map Plain v else [p]) ps)"

lemma put_simps [simp]:
  "put n v [] = []" "put n v (Plain c # ps) = Plain c # put n v ps"
  "put n v (Var m # ps) = (if m = n then map Plain v else [Var m]) @ put n v ps"
  by (simp_all add: put_def)

lemma ReplaceAll_Nil [simp]: "ReplaceAll old new [] = []"
  by (simp add: ReplaceAll.simps)

lemma ReplaceAll_Cons: "\<not> prefix old (c # s) \<Longrightarrow> ReplaceAll old new (c # s) = c # ReplaceAll old new s"
  by (subst ReplaceAll.simps) simp

lemma ReplaceAll_match: "old \<noteq> [] \<Longrightarrow> ReplaceAll old new (old @ s) = new @ ReplaceAll old new s"
  by (subst ReplaceAll.simps) simp

lemma ReplaceAll_skip: "CHR ''$'' \<notin> set w \<Longrightarrow> ReplaceAll (env_var n) v (w @ s) = w @ ReplaceAll (env_var n) v s"
  by (induction w) (auto simp: ReplaceAll_Cons env_var_def)

lemma ReplaceAll_put:
  "settled ps \<Longrightarrow> clean n \<Longrightarrow> ReplaceAll (env_var n) v (pieces_text ps) = pieces_text (put n v ps)"
proof (induction ps rule: settled.induct)
  case (2 c ps)
  have "\<not> prefix (env_var n) (c # pieces_text ps)"
    using settled_no_prefix [of ps n] 2 by (cases "c = CHR ''$''") (auto simp: env_var_def)
  then show ?case using 2 by (simp add: ReplaceAll_Cons)
next
  case (3 m ps)
  show ?case
  proof (cases "m = n")
    case True
    then show ?thesis using 3 ReplaceAll_match [of "env_var n" v] by (simp add: env_var_def)
  next
    case False
    have "\<not> prefix (n @ ''}'') (m @ CHR ''}'' # pieces_text ps)"
      using same_name [of n m "pieces_text ps"] 3 False by (auto simp: clean_def)
    then have no: "\<not> prefix (env_var n) (env_var m @ pieces_text ps)" by (simp add: env_var_def)
    obtain w where w: "env_var m = CHR ''$'' # w" "CHR ''$'' \<notin> set w"
      using 3(2) by (auto simp: env_var_def clean_def)
    have "ReplaceAll (env_var n) v (CHR ''$'' # (w @ pieces_text ps)) = CHR ''$'' # (w @ ReplaceAll (env_var n) v (pieces_text ps))"
      using ReplaceAll_Cons [of "env_var n" "CHR ''$''" "w @ pieces_text ps" v] no w by (simp add: ReplaceAll_skip)
    then show ?thesis using 3 w False by simp
  qed
qed simp

text \<open>A value that is not empty and has neither dollar nor opening brace starts no placeholder.\<close>

definition inert :: "string \<Rightarrow> bool" where
  "inert v \<longleftrightarrow> v \<noteq> [] \<and> CHR ''$'' \<notin> set v \<and> CHR ''{'' \<notin> set v"

lemma unclosed_put: "unclosed ps \<Longrightarrow> unclosed (put n v ps)"
  by (induction ps rule: unclosed.induct) auto

lemma settled_value: "CHR ''$'' \<notin> set v \<Longrightarrow> settled ps \<Longrightarrow> settled (map Plain v @ ps)"
  by (induction v) auto

lemma put_brace: "inert v \<Longrightarrow> put n v ps = Plain CHR ''{'' # qs \<Longrightarrow> \<exists>rs. ps = Plain CHR ''{'' # rs \<and> qs = put n v rs"
  unfolding inert_def by (cases ps rule: unclosed.cases) (auto split: if_splits simp: neq_Nil_conv)

lemma settled_put: "inert v \<Longrightarrow> settled ps \<Longrightarrow> settled (put n v ps)"
proof (induction ps rule: settled.induct)
  case (2 c ps)
  have "unclosed qs" if "c = CHR ''$''" "put n v ps = Plain CHR ''{'' # qs" for qs
    using put_brace [OF 2(2) that(2)] that(1) 2(3) unclosed_put by auto
  then show ?case using 2 by simp
next
  case (3 m ps)
  then show ?case using settled_value by (auto simp: inert_def)
qed simp

section \<open>All replacements\<close>

definition puts :: "(string \<Rightarrow> string) \<Rightarrow> string set \<Rightarrow> piece list \<Rightarrow> piece list" where
  "puts getenv N ps = concat (map (\<lambda>p. case p of Plain c \<Rightarrow> [Plain c]
     | Var m \<Rightarrow> if m \<in> N then map Plain (getenv m) else [Var m]) ps)"

lemma puts_Plain: "puts getenv N (map Plain s) = map Plain s"
  by (induction s) (auto simp: puts_def)

lemma puts_append: "puts getenv N (ps @ qs) = puts getenv N ps @ puts getenv N qs"
  by (simp add: puts_def)

lemma puts_put: "puts getenv N (put n (getenv n) ps) = puts getenv (insert n N) ps"
proof (induction ps)
  case (Cons p ps)
  show ?case
  proof (cases p)
    case (Plain c)
    then show ?thesis using Cons by (simp add: puts_def)
  next
    case (Var m)
    then show ?thesis using Cons by (auto simp: puts_append puts_Plain) (simp_all add: puts_def)
  qed
qed (simp add: puts_def)

lemma foldl_ReplaceAll:
  "settled ps \<Longrightarrow> \<forall>n\<in>set ns. clean n \<and> inert (getenv n) \<Longrightarrow>
   foldl (\<lambda>s n. ReplaceAll (env_var n) (getenv n) s) (pieces_text ps) ns = pieces_text (puts getenv (set ns) ps)"
proof (induction ns arbitrary: ps)
  case Nil
  have "puts getenv {} ps = ps" by (induction ps) (auto simp: puts_def split: piece.splits)
  then show ?case by simp
next
  case (Cons n ns)
  then show ?case using ReplaceAll_put [of ps n "getenv n"] settled_put [of "getenv n" ps n]
    by (simp add: puts_put)
qed

text \<open>No closing brace before the next newline.\<close>

fun no_close :: "string \<Rightarrow> bool" where
  "no_close [] \<longleftrightarrow> True"
| "no_close (c # s) \<longleftrightarrow> c = CHR 0x0A \<or> c \<noteq> CHR ''}'' \<and> no_close s"

lemma no_close_iff: "no_close s \<longleftrightarrow> (case dropWhile in_name s of [] \<Rightarrow> True | c # _ \<Rightarrow> c \<noteq> CHR ''}'')"
  by (induction s) (auto simp: in_name_def)

lemma placeholder_None: "placeholder s = None \<longleftrightarrow> (\<forall>r. s = ''${'' @ r \<longrightarrow> no_close r)"
proof (cases "take 2 s = ''${''")
  case True
  then obtain r where r: "s = ''${'' @ r" using append_take_drop_id [of 2 s] by metis
  then have "placeholder s = None \<longleftrightarrow> no_close r"
    unfolding placeholder_def no_close_iff by (cases "dropWhile in_name r") (simp_all del: dropWhile_eq_Nil_conv)
  then show ?thesis using r by simp
next
  case False
  then show ?thesis by (auto simp: placeholder_def)
qed

lemma unclosed_pieces: "no_close s \<Longrightarrow> unclosed (pieces s)"
proof (induction s)
  case (Cons c s)
  then have n: "placeholder (c # s) = None" by (auto simp: placeholder_None)
  show ?case
  proof (cases "c = CHR 0x0A")
    case False
    then have "no_close s" "c \<noteq> CHR ''}''" using Cons.prems by simp_all
    then show ?thesis using Cons.IH n by simp
  qed (use n in simp)
qed simp

lemma settled_pieces: "\<forall>n\<in>set (FindAllNames s). CHR ''$'' \<notin> set n \<Longrightarrow> settled (pieces s)"
proof (induction s rule: pieces.induct)
  case (2 c cs)
  show ?case
  proof (cases "placeholder (c # cs)")
    case None
    have u: "unclosed qs" if h: "c = CHR ''$''" "pieces cs = Plain CHR ''{'' # qs" for qs
    proof -
      obtain d r where r: "cs = d # r" using h(2) by (cases cs) auto
      then have d: "d = CHR ''{''" "qs = pieces r" using h(2) by (auto split: option.splits)
      then have "no_close r" using None h(1) r by (simp add: placeholder_None)
      then show ?thesis using d(2) unclosed_pieces by simp
    qed
    have "settled (pieces cs)" using 2(1) [OF None] 2(3) None by simp
    then show ?thesis using None u by simp
  next
    case (Some x)
    obtain n rest where x: "x = (n, rest)" by fastforce
    have "n \<in> set (FindAllNames (c # cs))" using Some x by simp
    then have "CHR ''$'' \<notin> set n" using 2(3) by blast
    then have "clean n" using placeholder_Some [of "c # cs" n rest] Some x by (simp add: clean_def)
    moreover have "settled (pieces rest)" using 2(2) [OF Some, of n rest] 2(3) Some x by simp
    ultimately show ?thesis using Some x by simp
  qed
qed simp

lemma puts_all: "pieces_text (puts getenv (set (names ps)) ps) =
    concat (map (\<lambda>p. case p of Plain c \<Rightarrow> [c] | Var n \<Rightarrow> getenv n) ps)"
proof -
  have "set (names ps) \<subseteq> N \<Longrightarrow> pieces_text (puts getenv N ps) =
    concat (map (\<lambda>p. case p of Plain c \<Rightarrow> [c] | Var n \<Rightarrow> getenv n) ps)" for N
    by (induction ps rule: names.induct) (auto simp: puts_def)
  then show ?thesis by blast
qed

lemma SubstituteEnvVars_one_pass:
  assumes "\<forall>n\<in>set (FindAllNames s). CHR ''$'' \<notin> set n \<and> inert (getenv n)"
  shows "SubstituteEnvVars getenv s = substitute getenv s"
proof -
  have c: "\<forall>n\<in>set (FindAllNames s). clean n \<and> inert (getenv n)"
  proof
    fix n assume n: "n \<in> set (FindAllNames s)"
    have "list_all in_name n" using n
      by (induction s rule: FindAllNames.induct) (auto dest: placeholder_Some split: option.splits)
    then show "clean n \<and> inert (getenv n)" using assms n by (simp add: clean_def)
  qed
  have "SubstituteEnvVars getenv s = pieces_text (puts getenv (set (FindAllNames s)) (pieces s))"
    using foldl_ReplaceAll [OF settled_pieces c] assms by (simp add: SubstituteEnvVars_def pieces_text_pieces)
  then show ?thesis by (simp add: FindAllNames_pieces puts_all substitute_def)
qed

end
