(* ===== verification/Wire.thy ===== *)
theory Wire
  imports Go_Net
begin

text \<open>
  What is read from and written to a connection before the proxying starts: SNI sniffing
  (src/src/utils/tls/sni) and PROXY protocol headers (src/src/utils/proxyprotocol). Extracting the
  host name from a ClientHello and building a header are libraries: parameters here.
\<close>

section \<open>Connections\<close>

text \<open>
  What a connection will deliver: the chunks that arrive, in order, and then an error (the end of
  the stream is one). A read takes at most \<open>n\<close> bytes of the first chunk.
\<close>

type_synonym stream = "string list"

fun net_read :: "nat \<Rightarrow> stream \<Rightarrow> string option \<times> stream" where
  "net_read n [] = (None, [])"
| "net_read n (c # cs) = (Some (take n c), if length c \<le> n then cs else drop n c # cs)"

section \<open>Sniffing\<close>

definition MAX_HEADER_SIZE :: nat where
  "MAX_HEADER_SIZE = 16385"

text \<open>\<open>Conn\<close>: a multi reader over a buffer with the sniffed bytes and the connection itself.\<close>

record SniConn =
  sc_buffer :: string
  sc_conn :: stream

definition SniConn_Read :: "nat \<Rightarrow> SniConn \<Rightarrow> string option \<times> SniConn" where
  "SniConn_Read n c =
     (if sc_buffer c \<noteq> [] then (Some (take n (sc_buffer c)), c\<lparr>sc_buffer := drop n (sc_buffer c)\<rparr>)
      else (case net_read n (sc_conn c) of (r, rest) \<Rightarrow> (r, c\<lparr>sc_conn := rest\<rparr>)))"

text \<open>\<open>set_ok\<close>, \<open>reset_ok\<close>: setting and resetting the read deadline; \<open>extract\<close>: \<open>extractHostname\<close> with its library.\<close>

definition Sniff :: "(string \<Rightarrow> string) \<Rightarrow> bool \<Rightarrow> bool \<Rightarrow> stream \<Rightarrow> (SniConn \<times> string) outcome" where
  "Sniff extract set_ok reset_ok conn =
     (if \<not> set_ok then Err ''set deadline''
      else case net_read MAX_HEADER_SIZE conn of
          (None, rest) \<Rightarrow> Err ''read''
        | (Some data, rest) \<Rightarrow>
            if \<not> reset_ok then Err ''reset deadline''
            else Ok (\<lparr>sc_buffer = data, sc_conn = rest\<rparr>, extract data))"

text \<open>
  \<open>extractHostname\<close>: the TLS library's server is run on a connection that is backed by the sniffed bytes
  only: \<open>bytes.Reader\<close> as its reading side, writes that take nothing and report no error, addresses
  that stand for nothing and deadlines that are ignored. What the library makes of a connection, the
  \<open>ServerName\<close> of its state after a handshake, successful or not, is a parameter.
\<close>

type_synonym bufferConn = string

definition newBufferConn :: "string \<Rightarrow> bufferConn" where
  "newBufferConn b = b"

definition bufferConn_Read :: "nat \<Rightarrow> bufferConn \<Rightarrow> string option \<times> bufferConn" where
  "bufferConn_Read n c = (if c = [] then (None, c) else (Some (take n c), drop n c))"

definition bufferConn_Write :: "string \<Rightarrow> bufferConn \<Rightarrow> nat outcome \<times> bufferConn" where
  "bufferConn_Write b c = (Ok 0, c)"

definition bufferConn_Close :: "bufferConn \<Rightarrow> unit outcome \<times> bufferConn" where
  "bufferConn_Close c = (Ok (), c)"

definition bufferConn_SetDeadline :: "goint \<Rightarrow> bufferConn \<Rightarrow> unit outcome \<times> bufferConn" where
  "bufferConn_SetDeadline t c = (Ok (), c)"

definition localAddr_String :: string where
  "localAddr_String = ''127.0.0.1''"

definition localAddr_Network :: string where
  "localAddr_Network = ''tcp''"

definition bufferConn_LocalAddr :: "string \<times> string" where
  "bufferConn_LocalAddr = (localAddr_Network, localAddr_String)"

definition bufferConn_RemoteAddr :: "string \<times> string" where
  "bufferConn_RemoteAddr = (localAddr_Network, localAddr_String)"

record 'c net_conn =
  cn_state :: 'c
  cn_Read :: "nat \<Rightarrow> 'c \<Rightarrow> string option \<times> 'c"
  cn_Write :: "string \<Rightarrow> 'c \<Rightarrow> nat outcome \<times> 'c"
  cn_Close :: "'c \<Rightarrow> unit outcome \<times> 'c"
  cn_LocalAddr :: "string \<times> string"
  cn_RemoteAddr :: "string \<times> string"
  cn_SetDeadline :: "goint \<Rightarrow> 'c \<Rightarrow> unit outcome \<times> 'c"

definition extractHostname :: "(bufferConn net_conn \<Rightarrow> string) \<Rightarrow> string \<Rightarrow> string" where
  "extractHostname tls_server_name buf = tls_server_name
     \<lparr>cn_state = newBufferConn buf, cn_Read = bufferConn_Read, cn_Write = bufferConn_Write,
      cn_Close = bufferConn_Close, cn_LocalAddr = bufferConn_LocalAddr,
      cn_RemoteAddr = bufferConn_RemoteAddr, cn_SetDeadline = bufferConn_SetDeadline\<rparr>"

text \<open>A run of reads of the given sizes: the bytes delivered and the connection afterwards.\<close>

fun read_all :: "nat list \<Rightarrow> SniConn \<Rightarrow> string \<times> SniConn" where
  "read_all [] c = ([], c)"
| "read_all (n # ns) c =
     (case SniConn_Read n c of
        (None, c) \<Rightarrow> ([], c)
      | (Some bs, c) \<Rightarrow> (case read_all ns c of (rest, c) \<Rightarrow> (bs @ rest, c)))"

definition unread :: "SniConn \<Rightarrow> string" where
  "unread c = sc_buffer c @ concat (sc_conn c)"

section \<open>PROXY protocol headers\<close>

text \<open>
  A header as \<open>HeaderProxyFromAddrs\<close> builds it: \<open>LOCAL\<close> when the addresses are not of one family,
  its transport, and its bytes (\<open>None\<close> when \<open>Format\<close> fails).
\<close>

record proxy_header =
  ph_local :: bool
  ph_stream :: bool
  ph_datagram :: bool
  ph_bytes :: "string option"

type_synonym 'addr proxyproto = "nat \<Rightarrow> 'addr \<Rightarrow> 'addr \<Rightarrow> proxy_header"

definition proxy_version :: "string \<Rightarrow> nat option" where
  "proxy_version version = (if version = ''1'' then Some 1 else if version = ''2'' then Some 2 else None)"

text \<open>\<open>write\<close>: the bytes the backend's connection takes; the result is what was written.\<close>

definition SendProxyProtocolAddrs ::
    "'addr proxyproto \<Rightarrow> string \<Rightarrow> 'addr \<Rightarrow> 'addr \<Rightarrow> (string \<Rightarrow> bool) \<Rightarrow> string outcome" where
  "SendProxyProtocolAddrs lib version source destination write =
     (case proxy_version version of
        None \<Rightarrow> Err ''proxyproto: unknown proxy protocol version''
      | Some v \<Rightarrow>
          (let header = lib v source destination
           in if ph_local header then Err ''proxyproto: invalid address''
              else if \<not> ph_stream header then Err ''proxyproto: invalid address''
              else case ph_bytes header of
                  None \<Rightarrow> Err ''format''
                | Some bs \<Rightarrow> if write bs then Ok bs else Err ''write''))"

definition SendProxyProtocolV1Addrs ::
    "'addr proxyproto \<Rightarrow> 'addr \<Rightarrow> 'addr \<Rightarrow> (string \<Rightarrow> bool) \<Rightarrow> string outcome" where
  "SendProxyProtocolV1Addrs lib source destination write = SendProxyProtocolAddrs lib ''1'' source destination write"

definition SendProxyProtocolV2Addrs ::
    "'addr proxyproto \<Rightarrow> 'addr \<Rightarrow> 'addr \<Rightarrow> (string \<Rightarrow> bool) \<Rightarrow> string outcome" where
  "SendProxyProtocolV2Addrs lib source destination write = SendProxyProtocolAddrs lib ''2'' source destination write"

definition SendProxyProtocolV1 ::
    "'addr proxyproto \<Rightarrow> 'addr \<Rightarrow> 'addr \<Rightarrow> (string \<Rightarrow> bool) \<Rightarrow> string outcome" where
  "SendProxyProtocolV1 lib client_remote client_local write =
     SendProxyProtocolV1Addrs lib client_remote client_local write"

definition PrependProxyProtocolV2Datagram ::
    "'addr proxyproto \<Rightarrow> 'addr \<Rightarrow> 'addr \<Rightarrow> string \<Rightarrow> string outcome" where
  "PrependProxyProtocolV2Datagram lib source destination payload =
     (let header = lib 2 source destination
      in if ph_local header then Err ''proxyproto: invalid address''
         else if \<not> ph_datagram header then Err ''proxyproto: invalid address''
         else case ph_bytes header of
             None \<Rightarrow> Err ''format''
           | Some bs \<Rightarrow> Ok (bs @ payload))"

section \<open>Lemmas\<close>

lemma net_read_concat: "net_read n s = (r, s') \<Longrightarrow> concat s = (case r of None \<Rightarrow> [] | Some bs \<Rightarrow> bs) @ concat s'"
  by (induction n s rule: net_read.induct) auto

lemma SniConn_Read_unread:
  "SniConn_Read n c = (r, c') \<Longrightarrow> unread c = (case r of None \<Rightarrow> [] | Some bs \<Rightarrow> bs) @ unread c'"
  using net_read_concat [of n "sc_conn c"]
  by (auto simp: SniConn_Read_def unread_def split: if_splits prod.splits)

lemma read_all_unread: "read_all ns c = (bs, c') \<Longrightarrow> unread c = bs @ unread c'"
  by (induction ns arbitrary: c bs)
    (fastforce dest: SniConn_Read_unread split: prod.splits option.splits)+

lemma read_progress: "SniConn_Read (Suc n) c = (None, c') \<Longrightarrow> sc_buffer c = [] \<and> sc_conn c = []"
  by (cases "sc_conn c") (auto simp: SniConn_Read_def split: if_splits)

lemma net_read_length: "net_read n s = (Some bs, s') \<Longrightarrow> length bs \<le> n"
  by (cases s) auto

lemma Sniff_unread:
  assumes "Sniff extract set_ok reset_ok conn = Ok (c, host)"
  shows "unread c = concat conn \<and> host = extract (sc_buffer c) \<and> length (sc_buffer c) \<le> MAX_HEADER_SIZE"
proof -
  obtain r rest where r: "net_read MAX_HEADER_SIZE conn = (r, rest)" by fastforce
  then obtain data where data: "r = Some data" "c = \<lparr>sc_buffer = data, sc_conn = rest\<rparr>" "host = extract data"
    using assms by (auto simp: Sniff_def split: if_splits option.splits)
  from net_read_concat [OF r] net_read_length r data show ?thesis by (simp add: unread_def)
qed

end
