(* ===== verification/Data_Path.thy ===== *)
theory Data_Path
  imports Wire Proxy Tcp_Server
begin

text \<open>
  The way of a client's bytes to the backend over a plain TCP server: \<open>wrap\<close> sniffs the connection
  (src/src/server/tcp/server.go, src/src/utils/tls/sni/sni.go), \<open>handle\<close> sends a PROXY header to the
  backend, and the copy loop reads from the wrapped connection (src/src/server/tcp/proxy.go). It puts
  the models of these parts together.
\<close>

text \<open>The connection that the copy loop will read from; \<open>None\<close> when the sniffing fails.\<close>

definition wrapped_conn :: "Server \<Rightarrow> (string \<Rightarrow> string) \<Rightarrow> bool \<Rightarrow> bool \<Rightarrow> stream \<Rightarrow> SniConn option" where
  "wrapped_conn cfg extract set_ok reset_ok conn =
     (if srv_Sni cfg = None then Some \<lparr>sc_buffer = [], sc_conn = conn\<rparr>
      else case Sniff extract set_ok reset_ok conn of Ok (c, _) \<Rightarrow> Some c | _ \<Rightarrow> None)"

text \<open>
  The turns of the copy loop read from a connection: each gets what the connection delivers next, or
  an error when there is nothing left. The result is the connection after them.
\<close>

fun reads :: "copy_io list \<Rightarrow> SniConn \<Rightarrow> SniConn option" where
  "reads [] c = Some c"
| "reads (io # ios) c = (case SniConn_Read BUFFER_SIZE c of
       (Some bs, c') \<Rightarrow> if ci_data io = bs \<and> ci_readErr io = None then reads ios c' else None
     | (None, c') \<Rightarrow> if ci_data io = [] \<and> ci_readErr io \<noteq> None then reads ios c' else None)"

text \<open>What the backend has received, with \<open>SendProxyProtocolAddrs\<close> before the copy loop starts.\<close>

definition upstream ::
    "Server \<Rightarrow> 'addr proxyproto \<Rightarrow> 'addr \<Rightarrow> 'addr \<Rightarrow> (string \<Rightarrow> bool) \<Rightarrow> copy_io list \<Rightarrow> string outcome" where
  "upstream cfg lib client local write ios =
     (case srv_ProxyProtocol cfg of
        None \<Rightarrow> Ok (fst (snd (Copy ios)))
      | Some pp \<Rightarrow> bind_outcome (SendProxyProtocolAddrs lib (pp_Version pp) client local write)
                    (\<lambda>header. Ok (header @ fst (snd (Copy ios)))))"

section \<open>Lemmas\<close>

lemma wrapped_conn_unread: "wrapped_conn cfg extract set_ok reset_ok conn = Some c \<Longrightarrow> unread c = concat conn"
  by (auto simp: wrapped_conn_def unread_def [of "\<lparr>sc_buffer = [], sc_conn = conn\<rparr>"] dest: Sniff_unread
      split: if_splits outcome.splits)

text \<open>What the loop has accepted comes first; when it ended without an error, nothing is left.\<close>

lemma Copy_from_conn:
  assumes "reads ios c = Some c'" and "Copy ios = (rwcs, out, e)" and "\<forall>io\<in>set ios. ci_writeN io \<le> length (ci_data io)"
  shows "\<exists>rest. unread c = out @ rest \<and> (e = Finished None \<longrightarrow> rest = [])"
  using assms
proof (induction ios arbitrary: c rwcs out e)
  case (Cons io ios)
  obtain r c1 where r: "SniConn_Read BUFFER_SIZE c = (r, c1)" by fastforce
  note unread = SniConn_Read_unread [OF r]
  show ?case
  proof (cases r)
    case None
    then have "ci_data io = []" "ci_readErr io \<noteq> None" using Cons.prems(1) r by (auto split: if_splits)
    moreover have "unread c = []" using read_progress [of "BUFFER_SIZE - 1" c c1] r None
      by (simp add: BUFFER_SIZE_def unread_def)
    ultimately show ?thesis using Cons.prems(2) by (auto split: if_splits)
  next
    case (Some bs)
    then have io: "ci_data io = bs" "ci_readErr io = None" "reads ios c1 = Some c'"
      using Cons.prems(1) r by (auto split: if_splits)
    obtain rwcs' out' e' where C: "Copy ios = (rwcs', out', e')" by (metis prod_cases3)
    obtain rest where rest: "unread c1 = out' @ rest" "e' = Finished None \<longrightarrow> rest = []"
      using Cons.IH [OF io(3) C] Cons.prems(3) by auto
    show ?thesis
    proof (cases "bs = [] \<or> ci_writeErr io = None \<and> length bs = ci_writeN io")
      case True
      then have "out = bs @ out'" "e = e'" using Cons.prems(2) io(1,2) C by (cases "bs = []"; simp)+
      then show ?thesis using rest unread Some by simp
    next
      case False
      then have "out = take (ci_writeN io) bs" "e \<noteq> Finished None"
        using Cons.prems(2) io(1,2) by (auto simp: Let_def split: if_splits)
      then show ?thesis using unread Some by (metis append.assoc append_take_drop_id option.simps(5))
    qed
  qed
qed auto

end
