(* ===== verification/Input_Properties.thy ===== *)
theory Input_Properties
  imports Loader_Correct Data_Path Tcp_Properties
begin

text \<open>
  The properties of what the process reads: the text of a configuration, and the first bytes of a
  connection.
\<close>

section \<open>Environment variables\<close>

text \<open>C23: When the variables that a configuration names are set, to values without dollar and opening
  brace, and no placeholder contains another, then replacing them one after the other is the same as
  one pass that replaces each placeholder by its value and leaves every other character alone.\<close>

theorem env_substitution_one_pass:
  assumes "\<forall>n\<in>set (FindAllNames s). CHR ''$'' \<notin> set n \<and> inert (getenv n)"
  shows "SubstituteEnvVars getenv s = substitute getenv s"
  by (rule SubstituteEnvVars_one_pass [OF assms])

definition sample_text :: string where
  "sample_text = ''bind = \"${IP}:${PORT}\" # ${IP} costs $5 {''"

definition sample_getenv :: "string \<Rightarrow> string" where
  "sample_getenv n = (if n = ''IP'' then ''10.0.0.1'' else ''80'')"

theorem env_substitution_one_pass_witness:
  "SubstituteEnvVars sample_getenv sample_text = ''bind = \"10.0.0.1:80\" # 10.0.0.1 costs $5 {''"
proof -
  have names: "FindAllNames sample_text = [''IP'', ''PORT'', ''IP'']" by code_simp
  have "substitute sample_getenv sample_text = ''bind = \"10.0.0.1:80\" # 10.0.0.1 costs $5 {''" by code_simp
  moreover have "SubstituteEnvVars sample_getenv sample_text = substitute sample_getenv sample_text"
    by (rule env_substitution_one_pass) (simp add: names sample_getenv_def inert_def)
  ultimately show ?thesis by simp
qed

section \<open>Sniffing\<close>

text \<open>Sniffing the host name loses nothing: whatever sizes the proxy reads with afterwards, the bytes
  it gets, followed by those still to come, are the bytes of the client's connection from the first one
  on; and a read that finds nothing means that the connection has ended.\<close>

theorem sniffed_connection_transparent:
  assumes "Sniff extract set_ok reset_ok conn = Ok (c, host)" and "read_all ns c = (bs, c')"
  shows "concat conn = bs @ unread c' \<and> host = extract (sc_buffer c) \<and> prefix (sc_buffer c) (concat conn) \<and>
    (\<forall>n c''. SniConn_Read (Suc n) c' = (None, c'') \<longrightarrow> concat conn = bs)"
proof -
  note s = Sniff_unread [OF assms(1)] and r = read_all_unread [OF assms(2)]
  have "concat conn = bs" if "SniConn_Read (Suc n) c' = (None, c'')" for n c''
    using read_progress [OF that] s r by (simp add: unread_def)
  moreover have "prefix (sc_buffer c) (concat conn)" using s by (metis unread_def prefixI)
  ultimately show ?thesis using s r by auto
qed

theorem sniffed_connection_transparent_witness:
  "\<exists>c host. Sniff (\<lambda>hello. ''a.org'') True True [''hello'', ''rest''] = Ok (c, host) \<and> fst (read_all [3, 3, 3] c) = ''hellores''"
proof -
  obtain c where c: "Sniff (\<lambda>hello. ''a.org'') True True [''hello'', ''rest''] = Ok (c, ''a.org'')"
    "c = \<lparr>sc_buffer = ''hello'', sc_conn = [''rest'']\<rparr>"
    by (simp add: Sniff_def MAX_HEADER_SIZE_def)
  have r: "read_all [3, 3, 3] c = (''hellores'', \<lparr>sc_buffer = [], sc_conn = [''t'']\<rparr>)"
    using c(2) by (simp add: SniConn_Read_def)
  from sniffed_connection_transparent [OF c(1) r] c(1) r show ?thesis by auto
qed

section \<open>From the client to the backend\<close>

text \<open>C22: Over a plain TCP server the backend receives the PROXY header, if one is configured, and then the
  client's bytes from the first one on, in order, whether or not they were sniffed before and however
  they arrive in chunks; when the copy loop ends without an error, it has received all of them.\<close>

theorem backend_receives_client_bytes:
  assumes "wrapped_conn cfg extract set_ok reset_ok conn = Some c" and "reads ios c = Some c'"
    and "\<forall>io\<in>set ios. ci_writeN io \<le> length (ci_data io)"
    and "upstream cfg lib client local write ios = Ok bytes"
  shows "\<exists>header body rest. bytes = header @ body \<and> concat conn = body @ rest \<and>
    (case srv_ProxyProtocol cfg of None \<Rightarrow> header = []
     | Some pp \<Rightarrow> \<exists>v. proxy_version (pp_Version pp) = Some v \<and> ph_bytes (lib v client local) = Some header) \<and>
    (snd (snd (Copy ios)) = Finished None \<longrightarrow> rest = [])"
proof -
  obtain rwcs out e where C: "Copy ios = (rwcs, out, e)" by (metis prod_cases3)
  obtain rest where rest: "concat conn = out @ rest" "e = Finished None \<longrightarrow> rest = []"
    using Copy_from_conn [OF assms(2) C assms(3)] wrapped_conn_unread [OF assms(1)] by auto
  show ?thesis
  proof (cases "srv_ProxyProtocol cfg")
    case None
    then show ?thesis using assms(4) C rest by (intro exI [of _ "[]"] exI [of _ out] exI [of _ rest]) (simp add: upstream_def)
  next
    case (Some pp)
    then obtain header where h: "SendProxyProtocolAddrs lib (pp_Version pp) client local write = Ok header"
      "bytes = header @ out"
      using assms(4) C by (auto simp: upstream_def bind_outcome_Ok_iff)
    then have "\<exists>v. proxy_version (pp_Version pp) = Some v \<and> ph_bytes (lib v client local) = Some header"
      by (auto simp: SendProxyProtocolAddrs_def Let_def split: option.splits if_splits)
    with h(2) rest Some C show ?thesis by (intro exI [of _ header] exI [of _ out] exI [of _ rest]) simp
  qed
qed

definition proxied_server :: Server where
  "proxied_server = sample_server\<lparr>srv_Sni := Some \<lparr>sni_HostnameMatchingStrategy = ''exact'',
     sni_UnexpectedHostnameStrategy = ''default'', sni_ReadTimeout = []\<rparr>, srv_ProxyProtocol := Some \<lparr>pp_Version = ''1''\<rparr>\<rparr>"

definition sample_turns :: "copy_io list" where
  "sample_turns = [\<lparr>ci_data = ''hello'', ci_readErr = None, ci_writeN = 5, ci_writeErr = None\<rparr>,
     \<lparr>ci_data = ''rest'', ci_readErr = None, ci_writeN = 4, ci_writeErr = None\<rparr>,
     \<lparr>ci_data = [], ci_readErr = Some EOF, ci_writeN = 0, ci_writeErr = None\<rparr>]"

theorem backend_receives_client_bytes_witness:
  "\<exists>c. wrapped_conn proxied_server (\<lambda>_. ''a.org'') True True [''hello'', ''rest''] = Some c \<and>
     upstream proxied_server (\<lambda>v s d. \<lparr>ph_local = False, ph_stream = True, ph_datagram = False, ph_bytes = Some ''PROXY ''\<rparr>)
       () () (\<lambda>_. True) sample_turns = Ok ''PROXY hellorest'' \<and> concat [''hello'', ''rest''] = ''hellorest''"
proof -
  let ?lib = "\<lambda>v s d. \<lparr>ph_local = False, ph_stream = True, ph_datagram = False, ph_bytes = Some ''PROXY ''\<rparr>"
  have w: "wrapped_conn proxied_server (\<lambda>_. ''a.org'') True True [''hello'', ''rest''] =
      Some \<lparr>sc_buffer = ''hello'', sc_conn = [''rest'']\<rparr>"
    by (simp add: wrapped_conn_def proxied_server_def Sniff_def MAX_HEADER_SIZE_def)
  have r: "reads sample_turns \<lparr>sc_buffer = ''hello'', sc_conn = [''rest'']\<rparr> = Some \<lparr>sc_buffer = [], sc_conn = []\<rparr>"
    by (simp add: sample_turns_def SniConn_Read_def BUFFER_SIZE_def)
  have n: "\<forall>io\<in>set sample_turns. ci_writeN io \<le> length (ci_data io)" by (simp add: sample_turns_def)
  have u: "\<exists>bytes. upstream proxied_server ?lib () () (\<lambda>_. True) sample_turns = Ok bytes"
    by (simp add: upstream_def proxied_server_def SendProxyProtocolAddrs_def proxy_version_def Let_def)
  have f: "snd (snd (Copy sample_turns)) = Finished None" by (simp add: sample_turns_def)
  from u obtain bytes where b: "upstream proxied_server ?lib () () (\<lambda>_. True) sample_turns = Ok bytes" by blast
  from backend_receives_client_bytes [OF w r n b] f have "bytes = ''PROXY hellorest''"
    by (auto simp: proxied_server_def)
  with w b show ?thesis by auto
qed

end
