(* ===== verification/Api.thy ===== *)
theory Api
  imports Manager_Correct Loader Metrics
begin

text \<open>
  The REST API (src/src/api) over the manager, and the process around both (src/main.go): starting up
  and reloading on SIGHUP. Routing, authentication headers and JSON are the gin library's: a request is
  a value of the type below with the credentials it carries, a response its status code and content.
\<close>

section \<open>Requests and responses\<close>

text \<open>The body of a POST is \<open>None\<close> when it does not decode into a server.\<close>

datatype request =
    GetRoot
  | GetDump string
  | GetServers
  | GetServer string
  | DeleteServer string
  | PostServer string "Server option"
  | GetServerStats string
  | GetPing

datatype content =
    NoContent
  | Info
  | ServersContent "(string \<times> Server) list"
  | ServerContent "Server option"
  | StatsContent Stats
  | ErrorContent string
  | TextContent string

type_synonym response = "nat \<times> content"

record api_env =
  ae_manager :: menv
  ae_toml :: "Config \<times> (string \<times> Server) list \<Rightarrow> string option"
  ae_json :: "Config \<times> (string \<times> Server) list \<Rightarrow> string option"

text \<open>\<open>gin.BasicAuth\<close> with the one account of the configuration.\<close>

definition authorized :: "ApiConfig \<Rightarrow> (string \<times> string) option \<Rightarrow> bool" where
  "authorized cfg credentials \<longleftrightarrow> (case api_BasicAuth cfg of None \<Rightarrow> True
     | Some a \<Rightarrow> credentials = Some (auth_Login a, auth_Password a))"

section \<open>Handlers\<close>

definition api_dump :: "api_env \<Rightarrow> string \<Rightarrow> Manager \<Rightarrow> Manager \<times> response" where
  "api_dump env format m =
     (let m = DumpConfig m;
          cfg = mg_originalCfg m;
          servers = map (\<lambda>(n, r). (n, load (mg_heap m) r)) (rc_servers cfg)
      in case Encode (ae_toml env) (ae_json env) (rc_cfg cfg, servers) format of
          Ok s \<Rightarrow> (m, 200, TextContent s)
        | Err e \<Rightarrow> (m, 500, ErrorContent e)
        | Panic \<Rightarrow> (m, 500, NoContent))"

definition api_post :: "api_env \<Rightarrow> string \<Rightarrow> Server option \<Rightarrow> Manager \<Rightarrow> Manager \<times> response outcome" where
  "api_post env name body m = (case body of
       None \<Rightarrow> (m, Ok (400, ErrorContent ''json''))
     | Some cfg \<Rightarrow> (case Manager_Create (ae_manager env) name cfg m of
           (m, Ok _) \<Rightarrow> (m, Ok (200, NoContent))
         | (m, Err e) \<Rightarrow> (m, Ok (409, ErrorContent e))
         | (m, Panic) \<Rightarrow> (m, Panic)))"

definition api_stats :: "string \<Rightarrow> Manager \<Rightarrow> response" where
  "api_stats name m =
     (if Manager_Get name m = None then (404, ErrorContent ''Server not found'')
      else (case GetStats name (mg_store m) of
          None \<Rightarrow> (500, ErrorContent ''Stats handler is not initialized for this server'')
        | Some st \<Rightarrow> (200, StatsContent st)))"

text \<open>The routes behind the authentication; the error of a deletion is dropped.\<close>

definition api_private :: "api_env \<Rightarrow> request \<Rightarrow> Manager \<Rightarrow> Manager \<times> response outcome" where
  "api_private env req m = (case req of
       GetRoot \<Rightarrow> (m, Ok (200, Info))
     | GetDump format \<Rightarrow> (case api_dump env format m of (m, r) \<Rightarrow> (m, Ok r))
     | GetServers \<Rightarrow> (m, Ok (200, ServersContent (Manager_All m)))
     | GetServer name \<Rightarrow> (m, Ok (200, ServerContent (Manager_Get name m)))
     | DeleteServer name \<Rightarrow> (fst (Manager_Delete name m), Ok (200, NoContent))
     | PostServer name body \<Rightarrow> api_post env name body m
     | GetServerStats name \<Rightarrow> (m, Ok (api_stats name m))
     | GetPing \<Rightarrow> (m, Ok (404, NoContent)))"

definition api_handle ::
    "api_env \<Rightarrow> ApiConfig \<Rightarrow> request \<Rightarrow> (string \<times> string) option \<Rightarrow> Manager \<Rightarrow> Manager \<times> response outcome" where
  "api_handle env cfg req credentials m =
     (if req = GetPing then (m, Ok (200, TextContent ''OK''))
      else if \<not> authorized cfg credentials then (m, Ok (401, NoContent))
      else api_private env req m)"

section \<open>The process\<close>

record App =
  ap_manager :: Manager
  ap_logger :: Logger
  ap_metrics :: Metrics
  ap_api :: ApiConfig

text \<open>What the process finds in its surroundings; \<open>an_build\<close> are the labels of the build.\<close>

record app_env =
  an_api :: api_env
  an_can_open :: "string \<Rightarrow> bool"
  an_level_ok :: "string \<Rightarrow> bool"
  an_build :: "string list"

definition main_start :: "app_env \<Rightarrow> Config \<Rightarrow> (string \<times> Server) list \<Rightarrow> App outcome" where
  "main_start env cfg servers =
     bind_outcome (Logging_Configure (an_can_open env) (an_level_ok env) (cfg_Logging cfg) initial_logger) (\<lambda>lg.
       case boot (ae_manager (an_api env)) cfg servers of
         (m, Ok _) \<Rightarrow> Ok \<lparr>ap_manager = m, ap_logger = lg,
           ap_metrics = Metrics_Start (cfg_Metrics cfg) (an_build env) no_metrics, ap_api = cfg_Api cfg\<rparr>
       | _ \<Rightarrow> Panic)"

definition reloadOnSignal ::
    "app_env \<Rightarrow> (Config \<times> (string \<times> Server) list) loader_env \<Rightarrow> configLoader option \<Rightarrow> App \<Rightarrow> App \<times> unit outcome" where
  "reloadOnSignal env ld loader app =
     (case LoadConfig ld loader of
        Err e \<Rightarrow> (app, Err e)
      | Panic \<Rightarrow> (app, Panic)
      | Ok (cfg, servers) \<Rightarrow>
          (case mg_step (ae_manager (an_api env)) (OpReload cfg servers) (ap_manager app) of
             (m, Err e) \<Rightarrow> (app\<lparr>ap_manager := m\<rparr>, Err e)
           | (m, Panic) \<Rightarrow> (app\<lparr>ap_manager := m\<rparr>, Panic)
           | (m, Ok _) \<Rightarrow>
               (case Logging_Configure (an_can_open env) (an_level_ok env) (cfg_Logging cfg) (ap_logger app) of
                  Ok lg \<Rightarrow> (app\<lparr>ap_manager := m, ap_logger := lg\<rparr>, Ok ())
                | _ \<Rightarrow> (app\<lparr>ap_manager := m\<rparr>, Panic))))"

text \<open>The states of the process: a request is served only while the API is enabled.\<close>

inductive app_reachable :: "app_env \<Rightarrow> App \<Rightarrow> bool" for env where
  app_start: "main_start env cfg servers = Ok app \<Longrightarrow> app_reachable env app"
| app_request: "app_reachable env app \<Longrightarrow> api_Enabled (ap_api app) \<Longrightarrow>
    api_handle (an_api env) (ap_api app) req credentials (ap_manager app) = (m, Ok r) \<Longrightarrow>
    app_reachable env (app\<lparr>ap_manager := m\<rparr>)"
| app_signal: "app_reachable env app \<Longrightarrow> reloadOnSignal env ld loader app = (app', res) \<Longrightarrow> res \<noteq> Panic \<Longrightarrow>
    app_reachable env app'"

section \<open>Lemmas\<close>

lemma deleteServer_total: "snd (deleteServer name m) \<noteq> Panic"
  by (auto simp: deleteServer_def split: option.splits)

lemma api_handle_step:
  assumes "api_handle env cfg req credentials m = (m', Ok r)"
  shows "m' = m \<or> (\<exists>ev res. mg_step (ae_manager env) ev m = (m', res) \<and> res \<noteq> Panic)"
proof (cases "req = GetPing \<or> \<not> authorized cfg credentials")
  case False
  then have p: "api_private env req m = (m', Ok r)" using assms by (simp add: api_handle_def)
  show ?thesis
  proof (cases req)
    case (GetDump format)
    then have "mg_step (ae_manager env) OpDump m = (m', Ok ())"
      using p by (auto simp: api_private_def api_dump_def Let_def split: prod.splits outcome.splits)
    then show ?thesis by blast
  next
    case (DeleteServer name)
    then have "m' = fst (deleteServer name m)" using p by (simp add: api_private_def Manager_Delete_def)
    then have "mg_step (ae_manager env) (OpDelete name) m = (m', snd (deleteServer name m))"
      by (simp add: Manager_Delete_def)
    then show ?thesis using deleteServer_total by blast
  next
    case (PostServer name body)
    show ?thesis
    proof (cases body)
      case (Some s)
      obtain res where "Manager_Create (ae_manager env) name s m = (m', res)" "res \<noteq> Panic"
        using p PostServer Some by (auto simp: api_private_def api_post_def split: prod.splits outcome.splits)
      then have "mg_step (ae_manager env) (OpCreate name s) m = (m', res)" by simp
      then show ?thesis using \<open>res \<noteq> Panic\<close> by blast
    qed (use p PostServer in \<open>simp add: api_private_def api_post_def\<close>)
  qed (use p in \<open>auto simp: api_private_def\<close>)
qed (use assms in \<open>auto simp: api_handle_def split: if_splits\<close>)

lemma app_manager_reachable: "app_reachable env app \<Longrightarrow> mg_reachable (ae_manager (an_api env)) (ap_manager app)"
proof (induction rule: app_reachable.induct)
  case (app_start cfg servers app)
  obtain m u where b: "boot (ae_manager (an_api env)) cfg servers = (m, u)" by fastforce
  with app_start obtain v where "u = Ok v" "ap_manager app = m"
    by (cases u) (auto simp: main_start_def bind_outcome_Ok_iff)
  then show ?case using b mg_boot by blast
next
  case (app_request app req credentials m r)
  from api_handle_step [OF app_request(3)] app_request(4) show ?case by (auto intro: mg_op)
next
  case (app_signal app ld loader app' res)
  from app_signal(2,3) have "ap_manager app' = ap_manager app \<or>
      (\<exists>cfg servers res. mg_step (ae_manager (an_api env)) (OpReload cfg servers) (ap_manager app) = (ap_manager app', res) \<and> res \<noteq> Panic)"
    unfolding reloadOnSignal_def by (fastforce split: outcome.splits prod.splits simp del: mg_step.simps)
  then show ?case using app_signal(4) mg_op [OF app_signal(4)] by metis
qed

lemma Manager_Create_cases:
  assumes "Manager_Create env n cfg m = (m', res)"
  shows "case res of
      Ok _ \<Rightarrow> n \<notin> set (server_names m) \<and> (\<exists>s r. mg_servers m' = (n, s, r) # mg_servers m \<and> as_name s = n)
    | _ \<Rightarrow> mg_servers m' = mg_servers m"
proof -
  obtain h r where f: "fresh_ref (mg_heap m) cfg = (h, r)" by fastforce
  then have "create_server env n r (mg_defaults m) (m\<lparr>mg_heap := h\<rparr>) = (m', res)"
    using assms by (simp add: Manager_Create_def)
  from create_server_cases [OF this] show ?thesis by (auto simp: server_names_def split: outcome.splits)
qed

lemma Manager_Delete_servers: "mg_servers (fst (Manager_Delete n m)) = clients_delete n (mg_servers m)"
proof -
  obtain m' res where d: "deleteServer n m = (m', res)" by fastforce
  have "clients_delete n (mg_servers m) = mg_servers m" if "n \<notin> set (server_names m)"
    using that by (force simp: clients_delete_def server_names_def filter_id_conv)
  with deleteServer_cases [OF d] d show ?thesis by (cases res) (auto simp: Manager_Delete_def)
qed

lemma Manager_Get_None: "Manager_Get n m = None \<longleftrightarrow> n \<notin> set (server_names m)"
  by (simp add: Manager_Get_def map_of_eq_None_iff server_names_def)

end
