(* ===== verification/Api_Start.thy ===== *)
theory Api_Start
  imports Api
begin

text \<open>
  How the REST API comes up (src/src/api/api.go, with the routes of root.go, servers.go and public.go).
  \<open>Start\<close> builds a gin application by calls on it, and the model keeps the calls in order; what gin
  makes of them is a parameter, with the behaviour that gin documents as a hypothesis. The lemmas say
  which routes stand behind the credentials, and that what is served is \<open>api_handle\<close>.
\<close>

section \<open>The calls\<close>

datatype http_method = GET | POST | DELETE

text \<open>The application itself, and the groups \<open>r\<close> and \<open>p\<close>.\<close>

datatype router = Engine | Private | Public

text \<open>The handler functions that the routes are given.\<close>

datatype endpoint = EpInfo | EpDump | EpServers | EpServer | EpDelete | EpCreate | EpStats | EpPing

record CorsConfig =
  AllowAllOrigins :: bool
  AllowCredentials :: bool
  AllowMethods :: "string list"
  AllowHeaders :: "string list"

datatype middleware = Cors CorsConfig | BasicAuth "(string \<times> string) list"

text \<open>The routes by the segments of their paths; \<open>:name\<close> is a parameter.\<close>

datatype segment = Lit string | Param string

datatype gin_call =
    GinNew
  | GinUse router middleware
  | GinGroup router
  | GinHandle router http_method "segment list" endpoint
  | GinRun string
  | GinRunTLS string string string

definition attachRoot :: "router \<Rightarrow> gin_call list" where
  "attachRoot app = [GinHandle app GET [] EpInfo, GinHandle app GET [Lit ''dump''] EpDump]"

definition attachServers :: "router \<Rightarrow> gin_call list" where
  "attachServers app =
     [GinHandle app GET [Lit ''servers''] EpServers,
      GinHandle app GET [Lit ''servers'', Param ''name''] EpServer,
      GinHandle app DELETE [Lit ''servers'', Param ''name''] EpDelete,
      GinHandle app POST [Lit ''servers'', Param ''name''] EpCreate,
      GinHandle app GET [Lit ''servers'', Param ''name'', Lit ''stats''] EpStats]"

definition attachPublic :: "router \<Rightarrow> gin_call list" where
  "attachPublic app = [GinHandle app GET [Lit ''ping''] EpPing]"

definition cors_config :: CorsConfig where
  "cors_config = \<lparr>AllowAllOrigins = True, AllowCredentials = True,
     AllowMethods = [''PUT'', ''POST'', ''DELETE'', ''GET'', ''OPTIONS''], AllowHeaders = [''Origin'', ''Authorization'']\<rparr>"

definition Api_Start :: "ApiConfig \<Rightarrow> gin_call list" where
  "Api_Start cfg =
     (if \<not> api_Enabled cfg then []
      else [GinNew]
        @ (if api_Cors cfg then [GinUse Engine (Cors cors_config)] else [])
        @ [GinGroup Private]
        @ (case api_BasicAuth cfg of None \<Rightarrow> []
           | Some a \<Rightarrow> [GinUse Private (BasicAuth [(auth_Login a, auth_Password a)])])
        @ attachRoot Private @ attachServers Private
        @ [GinGroup Public] @ attachPublic Public
        @ [case api_Tls cfg of
             Some t \<Rightarrow> GinRunTLS (api_Bind cfg) (atls_CertPath t) (atls_KeyPath t)
           | None \<Rightarrow> GinRun (api_Bind cfg)])"

text \<open>\<open>run\<close>: the error with which the listener ends, if it ends. It ends the process: \<open>log.Fatal\<close>.\<close>

definition api_serving :: "ApiConfig \<Rightarrow> (gin_call \<Rightarrow> string option) \<Rightarrow> unit outcome" where
  "api_serving cfg run = (case rev (Api_Start cfg) of
       [] \<Rightarrow> Ok ()
     | listener # _ \<Rightarrow> (case run listener of None \<Rightarrow> Ok () | Some e \<Rightarrow> Panic))"

section \<open>What gin documents\<close>

fun path_matches :: "segment list \<Rightarrow> string list \<Rightarrow> bool" where
  "path_matches [] [] = True"
| "path_matches (Lit l # pat) (x # xs) = (x = l \<and> path_matches pat xs)"
| "path_matches (Param _ # pat) (x # xs) = (x \<noteq> [] \<and> path_matches pat xs)"
| "path_matches _ _ = False"

definition uses :: "router \<Rightarrow> gin_call list \<Rightarrow> middleware list" where
  "uses g calls = List.map_filter (\<lambda>c. case c of GinUse g' mw \<Rightarrow> if g' = g then Some mw else None | _ \<Rightarrow> None) calls"

text \<open>
  The middlewares of a route that is registered after these calls: a group has those that the
  application had when the group was made, and its own.
\<close>

definition middlewares :: "router \<Rightarrow> gin_call list \<Rightarrow> middleware list" where
  "middlewares g calls =
     (if g = Engine then uses Engine calls
      else uses Engine (takeWhile (\<lambda>c. c \<noteq> GinGroup g) calls) @ uses g calls)"

type_synonym gin_route = "gin_call list \<Rightarrow> http_method \<Rightarrow> string list \<Rightarrow> (middleware list \<times> endpoint) option"

text \<open>A path that one registered route matches is served by it, behind the middlewares of that route.\<close>

definition gin_routes :: "gin_route \<Rightarrow> bool" where
  "gin_routes route \<longleftrightarrow> (\<forall>pre g meth pat ep post path. path_matches pat path \<longrightarrow>
     (\<forall>g' pat' ep'. GinHandle g' meth pat' ep' \<in> set (pre @ post) \<longrightarrow> \<not> path_matches pat' path) \<longrightarrow>
     route (pre @ GinHandle g meth pat ep # post) meth path = Some (middlewares g pre, ep))"

text \<open>
  \<open>gin.BasicAuth\<close> refuses a request without the credentials of an account (it does not take accounts
  without a name, so nothing is said of them); CORS for all origins refuses none.
\<close>

definition gin_refuses :: "(middleware \<Rightarrow> (string \<times> string) option \<Rightarrow> bool) \<Rightarrow> bool" where
  "gin_refuses refuses \<longleftrightarrow>
     (\<forall>accounts c. [] \<notin> fst ` set accounts \<longrightarrow> (refuses (BasicAuth accounts) c \<longleftrightarrow> c \<notin> Some ` set accounts)) \<and>
     (\<forall>cc c. AllowAllOrigins cc \<longrightarrow> \<not> refuses (Cors cc) c)"

section \<open>Serving a request\<close>

definition request_line :: "request \<Rightarrow> http_method \<times> string list" where
  "request_line req = (case req of
       GetRoot \<Rightarrow> (GET, [])
     | GetDump _ \<Rightarrow> (GET, [''dump''])
     | GetServers \<Rightarrow> (GET, [''servers''])
     | GetServer name \<Rightarrow> (GET, [''servers'', name])
     | DeleteServer name \<Rightarrow> (DELETE, [''servers'', name])
     | PostServer name _ \<Rightarrow> (POST, [''servers'', name])
     | GetServerStats name \<Rightarrow> (GET, [''servers'', name, ''stats''])
     | GetPing \<Rightarrow> (GET, [''ping'']))"

text \<open>\<open>c.DefaultQuery("format", ..)\<close>, \<open>c.Param("name")\<close> and the body.\<close>

definition req_format :: "request \<Rightarrow> string" where
  "req_format req = (case req of GetDump format \<Rightarrow> format | _ \<Rightarrow> ''toml'')"

definition req_name :: "request \<Rightarrow> string" where
  "req_name req = (case snd (request_line req) of _ # name # _ \<Rightarrow> name | _ \<Rightarrow> [])"

definition req_body :: "request \<Rightarrow> Server option" where
  "req_body req = (case req of PostServer _ body \<Rightarrow> body | _ \<Rightarrow> None)"

definition run_endpoint :: "api_env \<Rightarrow> endpoint \<Rightarrow> request \<Rightarrow> Manager \<Rightarrow> Manager \<times> response outcome" where
  "run_endpoint env ep req m = (case ep of
       EpInfo \<Rightarrow> (m, Ok (200, Info))
     | EpDump \<Rightarrow> (case api_dump env (req_format req) m of (m, r) \<Rightarrow> (m, Ok r))
     | EpServers \<Rightarrow> (m, Ok (200, ServersContent (Manager_All m)))
     | EpServer \<Rightarrow> (m, Ok (200, ServerContent (Manager_Get (req_name req) m)))
     | EpDelete \<Rightarrow> (fst (Manager_Delete (req_name req) m), Ok (200, NoContent))
     | EpCreate \<Rightarrow> api_post env (req_name req) (req_body req) m
     | EpStats \<Rightarrow> (m, Ok (api_stats (req_name req) m))
     | EpPing \<Rightarrow> (m, Ok (200, TextContent ''OK'')))"

definition gin_serve ::
    "gin_route \<Rightarrow> (middleware \<Rightarrow> (string \<times> string) option \<Rightarrow> bool) \<Rightarrow> gin_call list \<Rightarrow> api_env \<Rightarrow>
     request \<Rightarrow> (string \<times> string) option \<Rightarrow> Manager \<Rightarrow> Manager \<times> response outcome" where
  "gin_serve route refuses calls env req credentials m =
     (case request_line req of (meth, path) \<Rightarrow>
        (case route calls meth path of
           None \<Rightarrow> (m, Ok (404, NoContent))
         | Some (mws, ep) \<Rightarrow>
             if \<exists>mw\<in>set mws. refuses mw credentials then (m, Ok (401, NoContent))
             else run_endpoint env ep req m))"

section \<open>Lemmas\<close>

lemma gin_routes_at:
  assumes "gin_routes route" and "calls = pre @ GinHandle g meth pat ep # post" and "path_matches pat path"
    and "\<And>g' pat' ep'. GinHandle g' meth pat' ep' \<in> set (pre @ post) \<Longrightarrow> \<not> path_matches pat' path"
  shows "route calls meth path = Some (middlewares g pre, ep)"
  using assms unfolding gin_routes_def by blast

text \<open>What \<open>Start\<close> puts before the routes of the two groups.\<close>

definition api_cors :: "ApiConfig \<Rightarrow> middleware list" where
  "api_cors cfg = (if api_Cors cfg then [Cors cors_config] else [])"

definition api_auth :: "ApiConfig \<Rightarrow> middleware list" where
  "api_auth cfg = (case api_BasicAuth cfg of None \<Rightarrow> [] | Some a \<Rightarrow> [BasicAuth [(auth_Login a, auth_Password a)]])"

definition api_prefix :: "ApiConfig \<Rightarrow> gin_call list" where
  "api_prefix cfg = [GinNew] @ map (GinUse Engine) (api_cors cfg) @ [GinGroup Private] @ map (GinUse Private) (api_auth cfg)"

definition api_listen :: "ApiConfig \<Rightarrow> gin_call" where
  "api_listen cfg = (case api_Tls cfg of
     Some t \<Rightarrow> GinRunTLS (api_Bind cfg) (atls_CertPath t) (atls_KeyPath t) | None \<Rightarrow> GinRun (api_Bind cfg))"

lemma Api_Start_shape:
  "api_Enabled cfg \<Longrightarrow> Api_Start cfg = api_prefix cfg @ attachRoot Private @ attachServers Private @
     [GinGroup Public] @ attachPublic Public @ [api_listen cfg]"
  by (simp add: Api_Start_def api_prefix_def api_cors_def api_auth_def api_listen_def split: option.split)

lemma uses_simps [simp]:
  "uses g [] = []" "uses g (GinUse g' mw # cs) = (if g' = g then [mw] else []) @ uses g cs"
  "uses g (GinNew # cs) = uses g cs" "uses g (GinGroup g' # cs) = uses g cs"
  "uses g (GinHandle g' meth pat ep # cs) = uses g cs"
  by (simp_all add: uses_def map_filter_simps)

lemma prefix_middlewares:
  assumes "list_all (\<lambda>c. \<exists>meth pat ep. c = GinHandle Private meth pat ep) hs"
  shows "middlewares Private (api_prefix cfg @ hs) = api_cors cfg @ api_auth cfg"
    and "middlewares Public (api_prefix cfg @ hs @ [GinGroup Public]) = api_cors cfg"
proof -
  have "uses g hs = []" "uses g (hs @ cs) = uses g cs" "takeWhile (\<lambda>c. c \<noteq> GinGroup Public) (hs @ [GinGroup Public]) = hs" for g cs
    using assms by (induction hs) auto
  then show "middlewares Private (api_prefix cfg @ hs) = api_cors cfg @ api_auth cfg"
    "middlewares Public (api_prefix cfg @ hs @ [GinGroup Public]) = api_cors cfg"
    using assms
    by (auto simp: middlewares_def api_prefix_def api_cors_def api_auth_def split: option.splits)
qed

definition private_routes :: "gin_call list" where
  "private_routes = attachRoot Private @ attachServers Private"

lemma prefix_no_routes [simp]: "GinHandle g meth pat ep \<notin> set (api_prefix cfg)"
  by (auto simp: api_prefix_def)

lemma listen_no_route [simp]: "GinHandle g meth pat ep \<noteq> api_listen cfg" "api_listen cfg \<noteq> GinHandle g meth pat ep"
  by (auto simp: api_listen_def split: option.splits)

lemma private_route:
  assumes "gin_routes route" and "api_Enabled cfg" and "private_routes = hs @ GinHandle Private meth pat ep # ts"
    and "path_matches pat path" and "path \<noteq> [''ping'']"
    and "\<And>g' pat' ep'. GinHandle g' meth pat' ep' \<in> set (hs @ ts) \<Longrightarrow> \<not> path_matches pat' path"
  shows "route (Api_Start cfg) meth path = Some (api_cors cfg @ api_auth cfg, ep)"
proof -
  have "list_all (\<lambda>c. \<exists>meth pat ep. c = GinHandle Private meth pat ep) private_routes"
    by (simp add: private_routes_def attachRoot_def attachServers_def)
  then have "list_all (\<lambda>c. \<exists>meth pat ep. c = GinHandle Private meth pat ep) hs"
    unfolding assms(3) list_all_append by blast
  then have mws: "middlewares Private (api_prefix cfg @ hs) = api_cors cfg @ api_auth cfg" by (rule prefix_middlewares)
  have ping: "\<not> path_matches [Lit ''ping''] path"
    using assms(5) by (cases "([Lit ''ping''], path)" rule: path_matches.cases) (auto elim: path_matches.elims)
  have shape: "Api_Start cfg = (api_prefix cfg @ hs) @ GinHandle Private meth pat ep #
      (ts @ [GinGroup Public] @ attachPublic Public @ [api_listen cfg])"
    using Api_Start_shape [OF assms(2)] assms(3) by (simp add: private_routes_def)
  have "route (Api_Start cfg) meth path = Some (middlewares Private (api_prefix cfg @ hs), ep)"
    by (rule gin_routes_at [OF assms(1) shape assms(4)]) (use assms(6) ping in \<open>auto simp: attachPublic_def\<close>)
  then show ?thesis using mws by simp
qed

definition endpoint_of :: "request \<Rightarrow> endpoint" where
  "endpoint_of req = (case req of GetRoot \<Rightarrow> EpInfo | GetDump _ \<Rightarrow> EpDump | GetServers \<Rightarrow> EpServers
     | GetServer _ \<Rightarrow> EpServer | DeleteServer _ \<Rightarrow> EpDelete | PostServer _ _ \<Rightarrow> EpCreate
     | GetServerStats _ \<Rightarrow> EpStats | GetPing \<Rightarrow> EpPing)"

lemma ping_route:
  assumes "gin_routes route" and "api_Enabled cfg"
  shows "route (Api_Start cfg) GET [''ping''] = Some (api_cors cfg, EpPing)"
proof -
  have shape: "Api_Start cfg = (api_prefix cfg @ private_routes @ [GinGroup Public]) @ GinHandle Public GET [Lit ''ping''] EpPing #
      [api_listen cfg]"
    using Api_Start_shape [OF assms(2)] by (simp add: private_routes_def attachPublic_def)
  have "middlewares Public (api_prefix cfg @ private_routes @ [GinGroup Public]) = api_cors cfg"
    by (rule prefix_middlewares) (simp add: private_routes_def attachRoot_def attachServers_def)
  moreover have "route (Api_Start cfg) GET [''ping''] =
      Some (middlewares Public (api_prefix cfg @ private_routes @ [GinGroup Public]), EpPing)"
    by (rule gin_routes_at [OF assms(1) shape]) (auto simp: private_routes_def attachRoot_def attachServers_def)
  ultimately show ?thesis by simp
qed

lemmas private_routes_defs = private_routes_def attachRoot_def attachServers_def

lemma private_route_at:
  assumes "gin_routes route" and "api_Enabled cfg" and "k < length private_routes"
    and "private_routes ! k = GinHandle Private meth pat ep" and "path_matches pat path" and "path \<noteq> [''ping'']"
    and "\<forall>c\<in>set (take k private_routes @ drop (Suc k) private_routes).
      case c of GinHandle _ meth' pat' _ \<Rightarrow> meth' = meth \<longrightarrow> \<not> path_matches pat' path | _ \<Rightarrow> True"
  shows "route (Api_Start cfg) meth path = Some (api_cors cfg @ api_auth cfg, ep)"
proof (rule private_route [OF assms(1,2) _ assms(5,6)])
  show "private_routes = take k private_routes @ GinHandle Private meth pat ep # drop (Suc k) private_routes"
    using assms(3,4) by (metis id_take_nth_drop)
qed (use assms(7) in fastforce)

lemma api_route:
  assumes "gin_routes route" and "api_Enabled cfg" and "[] \<notin> set (snd (request_line req))"
  shows "route (Api_Start cfg) (fst (request_line req)) (snd (request_line req)) =
    Some (if req = GetPing then api_cors cfg else api_cors cfg @ api_auth cfg, endpoint_of req)"
proof (cases "req = GetPing")
  case True
  then show ?thesis using ping_route [OF assms(1,2)] by (simp add: request_line_def endpoint_of_def)
next
  case False
  define k :: nat where "k = (case req of GetRoot \<Rightarrow> 0 | GetDump _ \<Rightarrow> 1 | GetServers \<Rightarrow> 2 | GetServer _ \<Rightarrow> 3
    | DeleteServer _ \<Rightarrow> 4 | PostServer _ _ \<Rightarrow> 5 | _ \<Rightarrow> 6)"
  define pat where "pat = (case private_routes ! k of GinHandle _ _ pat _ \<Rightarrow> pat | _ \<Rightarrow> [])"
  note facts = assms(3) False
  have "route (Api_Start cfg) (fst (request_line req)) (snd (request_line req)) =
      Some (api_cors cfg @ api_auth cfg, endpoint_of req)"
    by (rule private_route_at [OF assms(1,2), where k = k and pat = pat])
      (use facts in \<open>cases req; force simp: k_def pat_def private_routes_defs request_line_def endpoint_of_def\<close>)+
  then show ?thesis using False by simp
qed

lemma api_route_refuses:
  assumes "gin_refuses refuses" and "\<And>a. api_BasicAuth cfg = Some a \<Longrightarrow> auth_Login a \<noteq> []"
  shows "(\<exists>mw\<in>set (api_cors cfg @ api_auth cfg). refuses mw credentials) \<longleftrightarrow> \<not> authorized cfg credentials"
    and "\<not> (\<exists>mw\<in>set (api_cors cfg). refuses mw credentials)"
  using assms
  by (auto simp: gin_refuses_def api_cors_def cors_config_def api_auth_def authorized_def split: option.splits)

lemma run_endpoint_of: "req \<noteq> GetPing \<Longrightarrow> run_endpoint env (endpoint_of req) req m = api_private env req m"
  by (cases req) (simp_all add: run_endpoint_def endpoint_of_def api_private_def req_name_def req_format_def
      req_body_def request_line_def)

lemma gin_serve_handle:
  assumes "gin_routes route" and "gin_refuses refuses" and "api_Enabled cfg" and "[] \<notin> set (snd (request_line req))"
    and "\<And>a. api_BasicAuth cfg = Some a \<Longrightarrow> auth_Login a \<noteq> []"
  shows "gin_serve route refuses (Api_Start cfg) env req credentials m = api_handle env cfg req credentials m"
proof (cases "req = GetPing")
  case True
  then show ?thesis using api_route [OF assms(1,3,4)] api_route_refuses(2) [OF assms(2,5)]
    by (auto simp: gin_serve_def api_handle_def run_endpoint_def endpoint_of_def split: prod.split)
next
  case False
  have "gin_serve route refuses (Api_Start cfg) env req credentials m =
      (if \<not> authorized cfg credentials then (m, Ok (401, NoContent)) else api_private env req m)"
    unfolding gin_serve_def
    using api_route [OF assms(1,3,4)] api_route_refuses(1) [OF assms(2,5), of cfg credentials] run_endpoint_of [OF False] False
    by (simp add: case_prod_beta)
  then show ?thesis using False by (simp add: api_handle_def)
qed

section \<open>A router\<close>

text \<open>The contracts can be met: the first route that matches, behind the middlewares of its registration.\<close>

fun find_route :: "gin_call list \<Rightarrow> gin_route" where
  "find_route before_it [] meth path = None"
| "find_route before_it (c # cs) meth path =
     (case c of
        GinHandle g meth' pat ep \<Rightarrow>
          if meth' = meth \<and> path_matches pat path then Some (middlewares g before_it, ep)
          else find_route (before_it @ [c]) cs meth path
      | _ \<Rightarrow> find_route (before_it @ [c]) cs meth path)"

fun basic_auth :: "middleware \<Rightarrow> (string \<times> string) option \<Rightarrow> bool" where
  "basic_auth (BasicAuth accounts) c = (c \<notin> Some ` set accounts)"
| "basic_auth (Cors cc) c = (\<not> AllowAllOrigins cc)"

lemma find_route_at:
  "\<forall>g' pat' ep'. GinHandle g' meth pat' ep' \<in> set pre \<longrightarrow> \<not> path_matches pat' path \<Longrightarrow> path_matches pat path \<Longrightarrow>
   find_route done_before (pre @ GinHandle g meth pat ep # post) meth path = Some (middlewares g (done_before @ pre), ep)"
  by (induction pre arbitrary: done_before) (auto split: gin_call.split)

lemma gin_routes_find: "gin_routes (find_route [])"
  unfolding gin_routes_def by (auto intro!: find_route_at [where done_before = "[]", simplified])

lemma gin_refuses_basic: "gin_refuses basic_auth"
  by (simp add: gin_refuses_def)

end
