(* ===== verification/Api_Properties.thy ===== *)
theory Api_Properties
  imports Api_Start Manager_Properties
begin

text \<open>
  The properties of the REST API in every state that the process reaches.
\<close>

definition sample_api :: ApiConfig where
  "sample_api = \<lparr>api_Enabled = True, api_Bind = '':8888'',
     api_BasicAuth = Some \<lparr>auth_Login = ''admin'', auth_Password = ''1111''\<rparr>, api_Tls = None, api_Cors = False\<rparr>"

definition sample_api_env :: api_env where
  "sample_api_env = \<lparr>ae_manager = sample_menv, ae_toml = (\<lambda>_. Some []), ae_json = (\<lambda>_. None)\<rparr>"

definition sample_app_env :: app_env where
  "sample_app_env = \<lparr>an_api = sample_api_env, an_can_open = (\<lambda>_. True), an_level_ok = (\<lambda>_. True), an_build = []\<rparr>"

definition sample_start :: "App outcome" where
  "sample_start = main_start sample_app_env (sample_cfg\<lparr>cfg_Api := sample_api\<rparr>) [(''a'', raw_server 1 sample_healthcheck)]"

text \<open>What they answer: a request that creates a server, and a started process.\<close>

definition sample_post :: "Manager \<times> response outcome" where
  "sample_post = api_handle sample_api_env sample_api (PostServer ''b'' (Some (raw_server 1 sample_healthcheck)))
     (Some (''admin'', ''1111'')) (booted sample_healthcheck)"

lemma sample_answers:
  "case sample_post of (_, Ok (code, _)) \<Rightarrow> code = 200 | _ \<Rightarrow> False"
  "case sample_start of Ok app \<Rightarrow> ap_api app = sample_api \<and> ''a'' \<in> set (server_names (ap_manager app)) | _ \<Rightarrow> False"
  by code_simp+

text \<open>C19: What a request does to the servers, and what its status code says of it: creating answers 200
  exactly when a server of a new name was started beside the others, 409 with every server as it was,
  400 when the body is no server; deleting answers 200 and the name is gone; no other request touches
  the servers. Without the configured credentials only \<open>/ping\<close> answers, and nothing changes.\<close>

theorem api_contract:
  assumes "api_handle env cfg req credentials m = (m', Ok (code, body))"
  shows "if req = GetPing then code = 200 \<and> m' = m
    else if \<not> authorized cfg credentials then code = 401 \<and> m' = m
    else case req of
        PostServer n None \<Rightarrow> code = 400 \<and> m' = m
      | PostServer n (Some _) \<Rightarrow>
          code = 200 \<and> n \<notin> set (server_names m) \<and> (\<exists>s r. mg_servers m' = (n, s, r) # mg_servers m \<and> as_name s = n) \<or>
          code = 409 \<and> mg_servers m' = mg_servers m
      | DeleteServer n \<Rightarrow> code = 200 \<and> n \<notin> set (server_names m') \<and>
          (\<forall>p. fst p \<noteq> n \<longrightarrow> (p \<in> set (mg_servers m') \<longleftrightarrow> p \<in> set (mg_servers m)))
      | _ \<Rightarrow> mg_servers m' = mg_servers m"
proof (cases "req = GetPing \<or> \<not> authorized cfg credentials")
  case False
  then have p: "api_private env req m = (m', Ok (code, body))"
    using assms by (simp add: api_handle_def)
  show ?thesis
  proof (cases req)
    case (GetDump format)
    then show ?thesis using p False
      by (auto simp: api_private_def api_dump_def DumpConfig_def Let_def split: prod.splits outcome.splits)
  next
    case (DeleteServer n)
    then have "mg_servers m' = clients_delete n (mg_servers m)" "code = 200"
      using p Manager_Delete_servers by (auto simp: api_private_def)
    then show ?thesis using DeleteServer False by (auto simp: clients_delete_def server_names_def)
  next
    case (PostServer n b)
    then show ?thesis using p False Manager_Create_cases [of "ae_manager env" n _ m]
      by (cases b) (fastforce simp: api_private_def api_post_def split: prod.splits outcome.splits)+
  qed (use p False in \<open>auto simp: api_private_def\<close>)
qed (use assms in \<open>auto simp: api_handle_def split: if_splits\<close>)

theorem api_contract_witness:
  "\<exists>m' body. api_handle sample_api_env sample_api (PostServer ''b'' (Some (raw_server 1 sample_healthcheck)))
       (Some (''admin'', ''1111'')) (booted sample_healthcheck) = (m', Ok (200, body)) \<and>
     ''b'' \<notin> set (server_names (booted sample_healthcheck)) \<and> (\<exists>s r. hd (mg_servers m') = (''b'', s, r))"
proof -
  let ?post = "api_handle sample_api_env sample_api (PostServer ''b'' (Some (raw_server 1 sample_healthcheck)))
    (Some (''admin'', ''1111'')) (booted sample_healthcheck)"
  obtain m' body where r: "?post = (m', Ok (200, body))"
    using sample_answers(1) by (auto simp: sample_post_def split: prod.splits outcome.splits)
  from api_contract [OF r] r show ?thesis by (auto simp: authorized_def sample_api_def)
qed

text \<open>C20: The calls with which \<open>Start\<close> builds the application put every route but \<open>/ping\<close>, and only
  those, behind the configured credentials, and what the router then serves, for any router that does
  what gin documents, is the API as it is modelled: no route is missing, shadowed or mixed up. The
  login must not be empty; gin takes no account without a name.\<close>

theorem api_routes_guarded:
  assumes "gin_routes route" and "gin_refuses refuses" and "api_Enabled cfg" and "[] \<notin> set (snd (request_line req))"
    and "\<forall>a. api_BasicAuth cfg = Some a \<longrightarrow> auth_Login a \<noteq> []"
  shows "gin_serve route refuses (Api_Start cfg) env req credentials m = api_handle env cfg req credentials m \<and>
    (\<exists>mws. route (Api_Start cfg) (fst (request_line req)) (snd (request_line req)) = Some (mws, endpoint_of req) \<and>
      (\<forall>a. api_BasicAuth cfg = Some a \<longrightarrow> (BasicAuth [(auth_Login a, auth_Password a)] \<in> set mws \<longleftrightarrow> req \<noteq> GetPing)))"
  using gin_serve_handle [OF assms(1-4)] assms(5) api_route [OF assms(1,3,4)] by (auto simp: api_cors_def api_auth_def)

theorem api_routes_guarded_witness:
  "gin_serve (find_route []) basic_auth (Api_Start sample_api) sample_api_env (DeleteServer ''a'') None
     (booted sample_healthcheck) = (booted sample_healthcheck, Ok (401, NoContent))"
proof -
  have "api_Enabled sample_api" "[] \<notin> set (snd (request_line (DeleteServer ''a'')))"
    "\<forall>a. api_BasicAuth sample_api = Some a \<longrightarrow> auth_Login a \<noteq> []"
    by (simp_all add: sample_api_def request_line_def)
  from api_routes_guarded [OF gin_routes_find gin_refuses_basic this] show ?thesis
    by (simp add: api_handle_def authorized_def sample_api_def)
qed



end
