(* ===== verification/Acme_Hosts.thy ===== *)
theory Acme_Hosts
  imports Manager_Invariant
begin

text \<open>
  The host names that the ACME service (src/src/service/acme.go) may get certificates for, and the
  servers they are configured for: what the operations of the manager do to both. A server with a
  \<open>tls\<close> section claims the hosts of its \<open>acme_hosts\<close>; each child that \<open>expandBinds\<close> makes of a server
  keeps that section.
\<close>

section \<open>The service\<close>

text \<open>The policy that the certificate manager asks before it gets a certificate for a host.\<close>

definition HostPolicy :: "string set \<Rightarrow> string \<Rightarrow> unit outcome" where
  "HostPolicy hosts host =
     (if host \<in> hosts then Ok () else Err (''Acme: host '' @ host @ '' is not configured''))"

text \<open>The address at which \<open>NewAcmeService\<close> serves HTTP challenges, when it does.\<close>

definition challenge_server :: "Config \<Rightarrow> string option" where
  "challenge_server cfg = (case cfg_Acme cfg of
       None \<Rightarrow> None
     | Some a \<Rightarrow> if acme_Challenge a = ''http'' then Some (acme_HttpBind a) else None)"

text \<open>The services of the registry that a configuration asks for, by name.\<close>

definition service_registry :: "(string \<times> (Config \<Rightarrow> string set option)) list" where
  "service_registry = [(''acme'', NewAcmeService)]"

definition service_All :: "Config \<Rightarrow> (string \<times> string set) list" where
  "service_All cfg =
     List.map_filter (\<lambda>(name, constructor). map_option (Pair name) (constructor cfg)) service_registry"

lemma service_All_acme: "map_of (service_All cfg) ''acme'' = NewAcmeService cfg"
  by (simp add: service_All_def service_registry_def map_filter_simps split: option.split)

section \<open>The hosts of a server\<close>

definition server_acme :: "Server \<Rightarrow> string list" where
  "server_acme s = (case srv_Tls s of None \<Rightarrow> [] | Some t \<Rightarrow> elems (tls_AcmeHosts t))"

text \<open>No UDP server asks for certificates.\<close>

definition plain_udp :: "Server \<Rightarrow> bool" where
  "plain_udp s \<longleftrightarrow> (srv_Protocol s = ''udp'' \<longrightarrow> server_acme s = [])"

text \<open>Preparing and expanding leave the \<open>tls\<close> section, and the protocol but for its default.\<close>

definition same_tls :: "Server \<Rightarrow> Server \<Rightarrow> bool" where
  "same_tls s t \<longleftrightarrow> srv_Tls t = srv_Tls s \<and>
     (srv_Protocol t = srv_Protocol s \<or> srv_Protocol s = [] \<and> srv_Protocol t = ''tcp'')"

lemma same_tls_refl [simp]: "same_tls s s"
  by (simp add: same_tls_def)

lemma same_tls_trans: "same_tls s t \<Longrightarrow> same_tls t u \<Longrightarrow> same_tls s u"
  by (auto simp: same_tls_def)

lemma same_tls_acme:
  "same_tls s t \<Longrightarrow> server_acme t = server_acme s \<and> (srv_Protocol t = ''udp'') = (srv_Protocol s = ''udp'') \<and> plain_udp t = plain_udp s"
  by (auto simp: same_tls_def server_acme_def plain_udp_def)

lemma in_order_same_tls:
  "(\<And>f s t. f \<in> set fs \<Longrightarrow> f s = (t, Ok ()) \<Longrightarrow> same_tls s t) \<Longrightarrow> in_order fs s = (t, Ok ()) \<Longrightarrow> same_tls s t"
proof (induction fs arbitrary: s)
  case (Cons f fs)
  then obtain s' where s': "f s = (s', Ok ())" "in_order fs s' = (t, Ok ())" by (auto simp: in_order_Cons_Ok)
  from s'(1) have "same_tls s s'" by (rule Cons.prems(1) [rotated]) simp
  moreover have "same_tls s' t" by (rule Cons.IH [OF _ s'(2)]) (erule Cons.prems(1) [rotated], simp)
  ultimately show ?case by (rule same_tls_trans)
qed simp

lemma prepareConfig_tls:
  assumes "prepareConfig env name raw d = (raw', Ok s)"
  shows "same_tls raw s"
proof -
  have o: "in_order (prepare_checks env name d) raw = (s, Ok ())"
    using assms by (auto simp: prepareConfig_def split: prod.splits outcome.splits)
  have proto: "same_tls s t" if "check_protocol s = (t, Ok ())" for s t
  proof (cases "srv_Protocol s = []")
    case True
    then have "t = s\<lparr>srv_Protocol := ''tcp''\<rparr>" using that by (simp add: check_protocol_def)
    then show ?thesis using True by (simp add: same_tls_def)
  next
    case False
    then have p: "srv_Protocol t = srv_Protocol s" and t: "t = s\<lparr>srv_Protocol := srv_Protocol t, srv_Udp := srv_Udp t\<rparr>"
      using check_protocol_Ok [OF that] by blast+
    have "srv_Tls t = srv_Tls s" by (subst t) simp
    then show ?thesis using p by (simp add: same_tls_def)
  qed
  have opts: "same_tls s t" if "take_options d s = (t, Ok ())" for s t
    using take_options_Ok [OF that] by (auto simp: same_tls_def)
  have sni: "same_tls s t" if "check_sni_section s = (t, Ok ())" for s t
    using that by (auto simp: check_sni_section_def same_tls_def split: option.splits prod.splits)
  show ?thesis
  proof (rule in_order_same_tls [OF _ o])
    fix f s t assume f: "f \<in> set (prepare_checks env name d)" "f s = (t, Ok ())"
    then show "same_tls s t" using proto [of s t] opts [of s t] sni [of s t] unfolding prepare_checks_def
      by (auto simp: guard_Ok check_required_Ok behind_Ok check_proxy_protocol_Ok check_sources_Ok check_balance_Ok
          put_healthcheck_def put_discovery_def same_tls_def)
  qed
qed

lemma child_server_tls: "same_tls cfg (child_server cfg addr port)"
  by (simp add: child_server_def same_tls_def Let_def)

lemma expandBinds_tls:
  assumes "expandBinds parse name cfg = Ok cs" and "c \<in> snd ` set cs"
  shows "same_tls cfg c"
proof -
  obtain cfg' where cfg': "same_tls cfg cfg'" "cs = [(name, cfg')] \<or>
      (\<exists>tmpl addrs. expand_loop tmpl name cfg' 0 addrs [] = Ok cs)"
  proof (cases "elems (srv_BindIPs cfg) \<noteq> [] \<or> elems (srv_BindPorts cfg) \<noteq> []")
    case True
    with that [of "cfg\<lparr>srv_Binds := Some (generated_binds cfg), srv_BindIPs := None, srv_BindPorts := None\<rparr>"] assms(1)
    show thesis by (auto simp: expandBinds_def Let_def same_tls_def split: if_splits option.splits)
  next
    case False
    with that [of cfg] assms(1) show thesis by (auto simp: expandBinds_def Let_def split: if_splits option.splits)
  qed
  from this(2) show ?thesis
  proof
    assume "\<exists>tmpl addrs. expand_loop tmpl name cfg' 0 addrs [] = Ok cs"
    then obtain a p where "c = child_server cfg' a p" using expand_loop_Ok assms(2) by fastforce
    then show ?thesis using same_tls_trans [OF cfg'(1) child_server_tls] by simp
  qed (use cfg'(1) assms(2) in simp)
qed

section \<open>Configurations with shared records\<close>

lemma same_tls_load [simp]: "same_tls (load h r) s \<longleftrightarrow> same_tls (ref_val r) s"
  by (simp add: same_tls_def load_def)

lemma plain_udp_load [simp]: "plain_udp (load h r) = plain_udp (ref_val r)"
  by (simp add: plain_udp_def server_acme_def load_def)

lemma prepare_ref_tls: "prepare_ref env name r d h = (h', Ok r') \<Longrightarrow> same_tls (ref_val r) (ref_val r')"
  using prepareConfig_tls [of env name "load h r" d]
  by (auto simp: prepare_ref_def split: prod.splits outcome.splits dest: repoint_val)

section \<open>The invariant\<close>

text \<open>
  Every TCP server's hosts are allowed, and no two of them share one; the configurations that a reload
  or a rollback may start again, and the running servers, are without certificates for UDP.
\<close>

definition running_acme :: "Manager \<Rightarrow> string \<Rightarrow> string list option" where
  "running_acme m n = (case map_of (mg_servers m) n of
       Some (s, r) \<Rightarrow> if as_tcp s then Some (server_acme (as_cfg s)) else None
     | None \<Rightarrow> None)"

definition acme_excl :: "Manager \<Rightarrow> bool" where
  "acme_excl m \<longleftrightarrow> (\<forall>hosts. mg_acme m = Some hosts \<longrightarrow>
     (\<forall>n hs. running_acme m n = Some hs \<longrightarrow> set hs \<subseteq> hosts \<and> distinct hs) \<and>
     (\<forall>n n' hs hs'. running_acme m n = Some hs \<longrightarrow> running_acme m n' = Some hs' \<longrightarrow> n \<noteq> n' \<longrightarrow> set hs \<inter> set hs' = {}))"

definition plain_inv :: "Manager \<Rightarrow> bool" where
  "plain_inv m \<longleftrightarrow> refs_all plain_udp (rc_servers (mg_originalCfg m)) \<and>
     (\<forall>(n, s, r)\<in>set (mg_servers m). plain_udp (ref_val r) \<and> (\<not> as_tcp s \<longrightarrow> server_acme (as_cfg s) = []))"

lemma claim_hosts_grows: "claim_hosts hs hosts = (hosts', r) \<Longrightarrow> hosts \<subseteq> hosts'"
  by (induction hs arbitrary: hosts) (auto split: if_splits)

lemma Acme_Enable_grows:
  assumes "Acme_Enable s (Some hosts) = (acme, en)"
  shows "\<exists>hosts'. acme = Some hosts' \<and> hosts \<subseteq> hosts' \<and> ((\<exists>s'. en = Ok s') \<longrightarrow> as_tcp s \<longrightarrow>
    set (server_acme (as_cfg s)) \<subseteq> hosts' \<and> distinct (server_acme (as_cfg s)) \<and>
    set (server_acme (as_cfg s)) \<inter> hosts = {})"
proof (cases "srv_Tls (as_cfg s)")
  case None
  then show ?thesis using assms by (auto simp: Acme_Enable_def server_acme_def)
next
  case (Some t)
  obtain hosts' r where c: "claim_hosts (elems (tls_AcmeHosts t)) hosts = (hosts', r)" by fastforce
  show ?thesis
  proof (cases "as_tcp s")
    case True
    then have "acme = Some hosts'" "(\<exists>s'. en = Ok s') \<longrightarrow> r = Ok ()"
      using assms Some c by (auto simp: Acme_Enable_def split: outcome.splits)
    then show ?thesis using claim_hosts_grows [OF c] c Some by (auto simp: server_acme_def claim_hosts_Ok)
  qed (use assms Some in \<open>auto simp: Acme_Enable_def\<close>)
qed

lemma start_new_acme:
  assumes "start_new env name r s m = (m', res)" and "res \<noteq> Panic" and "mg_acme m = Some hosts"
  shows "\<exists>hosts'. mg_acme m' = Some hosts' \<and> hosts \<subseteq> hosts' \<and> (res = Ok () \<longrightarrow> as_tcp s \<longrightarrow>
    set (server_acme (as_cfg s)) \<subseteq> hosts' \<and> distinct (server_acme (as_cfg s)) \<and>
    set (server_acme (as_cfg s)) \<inter> hosts = {})"
proof -
  obtain acme en where en: "Acme_Enable s (Some hosts) = (acme, en)" by fastforce
  have "mg_acme m' = acme" "res = Ok () \<longrightarrow> (\<exists>s'. en = Ok s')"
    using assms en by (auto simp: start_new_def split: outcome.splits prod.splits)
  then show ?thesis using Acme_Enable_grows [OF en] by auto
qed

lemma start_new_no_acme:
  "start_new env name r s m = (m', res) \<Longrightarrow> mg_acme m = None \<Longrightarrow> mg_acme m' = None"
  by (auto simp: start_new_def Acme_Enable_def split: outcome.splits prod.splits)

text \<open>What \<open>create\<close> does to the hosts: on success the new server's are claimed and were free.\<close>

lemma create_server_acme:
  assumes "create_server env name raw d m = (m', res)" and "res \<noteq> Panic"
  shows "(mg_acme m = None \<longrightarrow> mg_acme m' = None) \<and>
    (\<forall>hosts. mg_acme m = Some hosts \<longrightarrow> (\<exists>hosts'. mg_acme m' = Some hosts' \<and> hosts \<subseteq> hosts' \<and>
      (\<forall>hs. res = Ok () \<longrightarrow> running_acme m' name = Some hs \<longrightarrow> set hs \<subseteq> hosts' \<and> distinct hs \<and> set hs \<inter> hosts = {}))) \<and>
    (res = Ok () \<longrightarrow> (\<exists>s r. mg_servers m' = (name, s, r) # mg_servers m \<and> as_tcp s = (srv_Protocol (ref_val raw) \<noteq> ''udp'') \<and>
      server_acme (as_cfg s) = server_acme (ref_val raw) \<and> plain_udp (ref_val r) = plain_udp (ref_val raw)))"
proof (cases "map_of (mg_servers m) name = None")
  case False
  then show ?thesis using assms by (auto simp: create_server_def)
next
  case True
  obtain h pr where pr: "prepare_ref (me_prepare env) name raw d (mg_heap m) = (h, pr)" by fastforce
  show ?thesis
  proof (cases pr)
    case (Ok r)
    let ?cfg = "load h r"
    let ?cfg' = "?cfg\<lparr>srv_Discovery := map_option discovery_defaults (srv_Discovery ?cfg)\<rparr>"
    obtain h' r' where rp: "repoint h r ?cfg' = (h', r')" by fastforce
    obtain sto sv where sv: "server_New (me_world env) name ?cfg (mg_store m) = (sto, sv)" by fastforce
    have tls: "same_tls (ref_val raw) (ref_val r)" using prepare_ref_tls pr Ok by blast
    have l: "srv_Tls ?cfg = srv_Tls (ref_val r)" "srv_Protocol ?cfg = srv_Protocol (ref_val r)" by (simp_all add: load_def)
    have r': "same_tls (ref_val raw) (ref_val r')"
      using tls repoint_val [OF rp] by (simp add: same_tls_def load_def)
    show ?thesis
    proof (cases sv)
      case (Ok s)
      let ?m = "m\<lparr>mg_heap := h', mg_store := sto\<rparr>"
      have st: "start_new env name r' s ?m = (m', res)"
        using assms True pr \<open>pr = Ok r\<close> rp sv Ok by (simp add: create_server_def)
      obtain dc where n: "as_tcp s = (srv_Protocol ?cfg \<noteq> ''udp'')" "as_cfg s = ?cfg\<lparr>srv_Discovery := dc\<rparr>"
        using server_New_Ok [OF sv [unfolded Ok]] by blast
      then have s: "as_tcp s = (srv_Protocol (ref_val raw) \<noteq> ''udp'')"
        "server_acme (as_cfg s) = server_acme (ref_val raw)"
        using same_tls_acme [OF tls] l by (simp_all add: server_acme_def)
      have new: "\<exists>s'. mg_servers m' = (name, s', r') # mg_servers m \<and> as_cfg s' = as_cfg s \<and> as_tcp s' = as_tcp s"
        if "res = Ok ()" using start_new_cases [OF st] that by auto
      then have run: "running_acme m' name = (if as_tcp s then Some (server_acme (as_cfg s)) else None)" if "res = Ok ()"
        using that by (auto simp: running_acme_def)
      show ?thesis
      proof (intro conjI allI impI)
        fix hosts assume "mg_acme m = Some hosts"
        then have "mg_acme ?m = Some hosts" by simp
        from start_new_acme [OF st assms(2) this] run
        show "\<exists>hosts'. mg_acme m' = Some hosts' \<and> hosts \<subseteq> hosts' \<and>
          (\<forall>hs. res = Ok () \<longrightarrow> running_acme m' name = Some hs \<longrightarrow> set hs \<subseteq> hosts' \<and> distinct hs \<and> set hs \<inter> hosts = {})"
          by (auto split: if_splits)
      next
        assume "mg_acme m = None"
        then show "mg_acme m' = None" using start_new_no_acme [OF st] by simp
      next
        assume "res = Ok ()"
        then show "\<exists>s r. mg_servers m' = (name, s, r) # mg_servers m \<and> as_tcp s = (srv_Protocol (ref_val raw) \<noteq> ''udp'') \<and>
          server_acme (as_cfg s) = server_acme (ref_val raw) \<and> plain_udp (ref_val r) = plain_udp (ref_val raw)"
          using new s same_tls_acme [OF r'] by auto
      qed
    qed (use assms True pr \<open>pr = Ok r\<close> rp sv in \<open>auto simp: create_server_def\<close>)
  qed (use assms True pr in \<open>auto simp: create_server_def\<close>)
qed

lemma create_server_excl:
  assumes "create_server env name raw d m = (m', res)" and "res \<noteq> Panic" and "acme_excl m"
  shows "acme_excl m'"
proof (cases "mg_acme m")
  case None
  then show ?thesis using create_server_acme [OF assms(1,2)] by (simp add: acme_excl_def)
next
  case (Some hosts)
  note c = create_server_acme [OF assms(1,2)]
  from c Some obtain hosts' where h: "mg_acme m' = Some hosts'" "hosts \<subseteq> hosts'"
    "\<And>hs. res = Ok () \<Longrightarrow> running_acme m' name = Some hs \<Longrightarrow> set hs \<subseteq> hosts' \<and> distinct hs \<and> set hs \<inter> hosts = {}"
    by blast
  have old: "set hs \<subseteq> hosts \<and> distinct hs" if "running_acme m n = Some hs" for n hs
    using assms(3) Some that by (simp add: acme_excl_def)
  have run: "running_acme m' n = running_acme m n" if "res \<noteq> Ok () \<or> n \<noteq> name" for n
  proof (cases "res = Ok ()")
    case True
    then obtain s r where "mg_servers m' = (name, s, r) # mg_servers m" using c by blast
    then show ?thesis using that True by (auto simp: running_acme_def)
  next
    case False
    then have "mg_servers m' = mg_servers m" using create_server_cases [OF assms(1)] by (auto split: outcome.splits)
    then show ?thesis by (simp add: running_acme_def)
  qed
  have one: "set hs \<subseteq> hosts' \<and> distinct hs" if "running_acme m' n = Some hs" for n hs
    using that run [of n] old h by (cases "res = Ok () \<and> n = name") fastforce+
  have two: "set hs \<inter> set hs' = {}"
    if n: "running_acme m' n = Some hs" "running_acme m' n' = Some hs'" "n \<noteq> n'" for n n' hs hs'
  proof (cases "res = Ok () \<and> (n = name \<or> n' = name)")
    case True
    then show ?thesis using n run old h(3) by fastforce
  next
    case False
    then show ?thesis using n run [of n] run [of n'] assms(3) Some unfolding acme_excl_def by metis
  qed
  show ?thesis unfolding acme_excl_def using h(1) one two by simp
qed

lemma map_of_clients_delete: "map_of (clients_delete k xs) n = (if n = k then None else map_of xs n)"
  by (induction xs) (auto simp: clients_delete_def)

lemma deleteServer_excl:
  assumes "deleteServer name m = (m', res)" and "acme_excl m" and "plain_inv m"
  shows "acme_excl m'"
proof (cases "map_of (mg_servers m) name")
  case None
  then show ?thesis using assms by (auto simp: deleteServer_def)
next
  case (Some x)
  obtain s r where x: "x = (s, r)" by fastforce
  have m': "mg_servers m' = clients_delete name (mg_servers m)" "mg_acme m' = Acme_Disable s (mg_acme m)"
    using assms(1) Some x by (auto simp: deleteServer_def)
  have run: "running_acme m' n = (if n = name then None else running_acme m n)" for n
    by (simp add: running_acme_def m'(1) map_of_clients_delete)
  show ?thesis
  proof (cases "mg_acme m")
    case None
    then show ?thesis using m'(2) by (simp add: acme_excl_def Acme_Disable_def)
  next
    case (Some hosts)
    then have hosts: "mg_acme m' = Some (hosts - set (server_acme (as_cfg s)))"
      using m'(2) by (simp add: Acme_Disable_def server_acme_def split: option.split)
    have "server_acme (as_cfg s) = [] \<or> running_acme m name = Some (server_acme (as_cfg s))"
      using assms(3) \<open>map_of (mg_servers m) name = Some x\<close> x
      by (auto simp: plain_inv_def running_acme_def dest!: map_of_SomeD)
    then have free: "x \<notin> set (server_acme (as_cfg s))" if "running_acme m n = Some hs" "n \<noteq> name" "x \<in> set hs" for n hs x
      using assms(2) Some that unfolding acme_excl_def by fastforce
    show ?thesis using assms(2) Some hosts unfolding acme_excl_def run by (auto split: if_splits dest: free)
  qed
qed

definition acme_inv :: "Manager \<Rightarrow> bool" where
  "acme_inv m \<longleftrightarrow> acme_excl m \<and> plain_inv m"

lemma create_server_plain:
  assumes "create_server env name raw d m = (m', res)" and "res \<noteq> Panic" and "plain_inv m" and "plain_udp (ref_val raw)"
  shows "plain_inv m'"
proof -
  have o: "mg_originalCfg m' = mg_originalCfg m" using create_server_cases [OF assms(1)] by simp
  show ?thesis
  proof (cases "res = Ok ()")
    case True
    then obtain s r where "mg_servers m' = (name, s, r) # mg_servers m" "plain_udp (ref_val r)"
      "\<not> as_tcp s \<longrightarrow> server_acme (as_cfg s) = []"
      using create_server_acme [OF assms(1,2)] assms(4) by (auto simp: plain_udp_def)
    then show ?thesis using assms(3) o by (auto simp: plain_inv_def)
  next
    case False
    then have "mg_servers m' = mg_servers m" using create_server_cases [OF assms(1)] by (auto split: outcome.splits)
    then show ?thesis using assms(3) o by (simp add: plain_inv_def)
  qed
qed

lemma deleteServer_plain:
  assumes "deleteServer name m = (m', res)" and "plain_inv m"
  shows "plain_inv m'"
  using assms by (auto simp: deleteServer_def plain_inv_def clients_delete_def split: option.splits)

interpretation acme: manager_invariant env acme_inv plain_udp for env
proof unfold_locales
  show "refs_all plain_udp (rc_servers rc) \<Longrightarrow> acme_inv (no_servers rc h)" for rc h
    by (simp add: acme_inv_def acme_excl_def plain_inv_def no_servers_def running_acme_def)
  show "acme_inv m \<Longrightarrow> acme_inv (m\<lparr>mg_heap := h\<rparr>)" for m h
    by (simp add: acme_inv_def acme_excl_def plain_inv_def running_acme_def)
  show "acme_inv m \<Longrightarrow> refs_all plain_udp (rc_servers next_cfg) \<Longrightarrow> acme_inv (finish_reload next_cfg m)" for m next_cfg
    by (simp add: acme_inv_def acme_excl_def plain_inv_def running_acme_def finish_reload_def mergeReloadableConfig_def)
  show "acme_inv m \<Longrightarrow> acme_inv (DumpConfig m)" for m
    by (auto simp: acme_inv_def acme_excl_def plain_inv_def running_acme_def DumpConfig_def refs_all_def)
  show "acme_inv m \<Longrightarrow> refs_all plain_udp (rc_servers (mg_originalCfg m))" for m
    by (simp add: acme_inv_def plain_inv_def)
  show "expandBinds parse name srv = Ok cs \<Longrightarrow> plain_udp srv \<Longrightarrow> c \<in> snd ` set cs \<Longrightarrow> plain_udp c" for parse name srv cs c
    using expandBinds_tls same_tls_acme by blast
qed (auto simp: acme_inv_def intro: create_server_excl create_server_plain deleteServer_excl deleteServer_plain)

section \<open>Starting several servers\<close>

lemma create_all_acme:
  "create_all env raw d ns created m = (m', created', Ok u) \<Longrightarrow>
   distinct ns \<and> set ns \<inter> set (server_names m) = {} \<and> set (server_names m') = set ns \<union> set (server_names m) \<and>
   (acme_excl m \<longrightarrow> acme_excl m') \<and> (mg_acme m \<noteq> None \<longrightarrow> mg_acme m' \<noteq> None) \<and>
   (\<forall>n\<in>set ns. \<exists>r. map_of raw n = Some r \<and>
      running_acme m' n = (if srv_Protocol (ref_val r) = ''udp'' then None else Some (server_acme (ref_val r)))) \<and>
   (\<forall>n. n \<notin> set ns \<longrightarrow> running_acme m' n = running_acme m n)"
proof (induction ns arbitrary: created m)
  case (Cons n ns)
  obtain r where r: "map_of raw n = Some r" using Cons.prems by (auto split: option.splits)
  obtain m1 r1 where c: "create_server env n r d m = (m1, r1)" by fastforce
  have ok: "r1 = Ok ()" "create_all env raw d ns (created @ [n]) m1 = (m', created', Ok u)"
    using Cons.prems r c by (auto split: outcome.splits)
  from create_server_acme [OF c] ok(1) obtain s q where s: "mg_servers m1 = (n, s, q) # mg_servers m"
    "as_tcp s = (srv_Protocol (ref_val r) \<noteq> ''udp'')" "server_acme (as_cfg s) = server_acme (ref_val r)"
    "mg_acme m \<noteq> None \<longrightarrow> mg_acme m1 \<noteq> None" by auto
  then have run: "running_acme m1 k = (if k = n then
      (if srv_Protocol (ref_val r) = ''udp'' then None else Some (server_acme (ref_val r))) else running_acme m k)" for k
    by (auto simp: running_acme_def)
  have names: "set (server_names m1) = insert n (set (server_names m))" "n \<notin> set (server_names m)"
    "acme_excl m \<longrightarrow> acme_excl m1"
    using s(1) create_server_cases [OF c] create_server_excl [OF c] ok(1) by (auto simp: server_names_def)
  note IH = Cons.IH [OF ok(2)]
  have "running_acme m' n = running_acme m1 n" using IH names(1) by auto
  then show ?case using IH r run names s(4) by auto
qed simp

text \<open>
  With an ACME service no two servers share a host, so all children of one server but the first
  would have to go without: a server with ACME hosts cannot be expanded.
\<close>

lemma wanted_binds_load [simp]: "wanted_binds (load h r) = wanted_binds (ref_val r)"
  by (simp add: wanted_binds_def generated_binds_def load_def)

lemma initialize_acme_multibind:
  assumes "initialize_servers env srvs m = (m', Ok u)" and "acme_excl m" and "mg_acme m \<noteq> None"
    and "(name, r) \<in> set srvs" and "srv_Protocol (ref_val r) \<noteq> ''udp''" and "server_acme (ref_val r) \<noteq> []"
  shows "length (wanted_binds (ref_val r)) \<le> 1"
  using assms(1-4)
proof (induction srvs arbitrary: m)
  case (Cons p srvs)
  obtain nm q where p: "p = (nm, q)" by fastforce
  obtain h er where e: "expand_ref (me_template env) nm q (mg_heap m) = (h, er)" by fastforce
  obtain cs where cs: "er = Ok cs" using Cons.prems(1) p e by (auto split: outcome.splits)
  obtain m1 created r1 where c: "create_all env cs (mg_defaults m) (map fst cs) [] (m\<lparr>mg_heap := h\<rparr>) = (m1, created, r1)"
    by (cases "create_all env cs (mg_defaults m) (map fst cs) [] (m\<lparr>mg_heap := h\<rparr>)") auto
  obtain v where r1: "r1 = Ok v" "initialize_servers env srvs m1 = (m', Ok u)"
    using Cons.prems(1) p e cs c by (auto split: outcome.splits)
  have m: "acme_excl (m\<lparr>mg_heap := h\<rparr>)" "mg_acme (m\<lparr>mg_heap := h\<rparr>) \<noteq> None"
    using Cons.prems(2,3) by (simp_all add: acme_excl_def running_acme_def)
  note all = create_all_acme [OF c [unfolded r1(1)]]
  then have m1: "acme_excl m1" "mg_acme m1 \<noteq> None" and dist: "distinct (map fst cs)" using m by auto
  from all have runs: "\<And>n. n \<in> set (map fst cs) \<Longrightarrow> \<exists>r. map_of cs n = Some r \<and> running_acme m1 n =
    (if srv_Protocol (ref_val r) = ''udp'' then None else Some (server_acme (ref_val r)))" by blast
  show ?case
  proof (cases "(name, r) = p")
    case True
    then have qr: "q = r" using p by simp
    have ex: "expandBinds (me_template env) nm (load (mg_heap m) q) = Ok (map (\<lambda>(n, rc). (n, ref_val rc)) cs)"
      using expand_ref_val e cs by blast
    have len: "length cs = length (wanted_binds (ref_val r))"
      using expandBinds_Ok [OF ex] qr by (metis length_map wanted_binds_load)
    show ?thesis
    proof (rule ccontr)
      assume "\<not> length (wanted_binds (ref_val r)) \<le> 1"
      then obtain a b cs' where ab: "cs = a # b # cs'"
        using len by (metis One_nat_def Suc_le_mono le0 length_Cons list.exhaust list.size(3))
      have tls: "same_tls (ref_val r) (ref_val (snd x))" if "x \<in> set cs" for x
      proof -
        have "ref_val (snd x) \<in> snd ` set (map (\<lambda>(n, rc). (n, ref_val rc)) cs)"
          using that by (force simp: case_prod_beta image_image)
        from expandBinds_tls [OF ex this] qr show ?thesis by simp
      qed
      have run: "running_acme m1 (fst x) = Some (server_acme (ref_val r))" if "x \<in> set cs" for x
      proof -
        have "map_of cs (fst x) = Some (snd x)" using that dist by simp
        then have "running_acme m1 (fst x) =
            (if srv_Protocol (ref_val (snd x)) = ''udp'' then None else Some (server_acme (ref_val (snd x))))"
          using runs [of "fst x"] that by auto
        then show ?thesis using same_tls_acme [OF tls [OF that]] assms(5) by simp
      qed
      have "fst a \<noteq> fst b" using dist ab by auto
      then have "set (server_acme (ref_val r)) \<inter> set (server_acme (ref_val r)) = {}"
        using m1 run [of a] run [of b] ab unfolding acme_excl_def by fastforce
      then show False using assms(6) by simp
    qed
  next
    case False
    then show ?thesis using Cons.IH [OF r1(2) m1] Cons.prems(4) by simp
  qed
qed simp

lemma boot_acme_multibind:
  assumes "boot env cfg servers = (m, Ok u)" and "cfg_Acme cfg \<noteq> None" and "(name, s) \<in> set servers"
    and "srv_Protocol s \<noteq> ''udp''" and "server_acme s \<noteq> []"
  shows "length (wanted_binds s) \<le> 1"
proof -
  obtain h rs where f: "fresh_refs servers empty_heap = (h, rs)" by fastforce
  then obtain r where r: "(name, r) \<in> set rs" "ref_val r = s"
    using assms(3) unfolding fresh_refs_val [OF f, symmetric] by auto
  let ?m = "no_servers \<lparr>rc_cfg = cfg, rc_servers = rs\<rparr> h"
  have "initialize_servers env rs ?m = (m, Ok u)"
    using assms(1) f by (simp add: boot_def decode_config_def Initialize_def no_servers_def)
  moreover have "acme_excl ?m" "mg_acme ?m \<noteq> None"
    using assms(2) by (simp_all add: acme_excl_def running_acme_def no_servers_def NewAcmeService_def initConfigGlobals_def)
  ultimately show ?thesis using initialize_acme_multibind r assms(4,5) by blast
qed

end
