(* ===== verification/Acme_Properties.thy ===== *)
theory Acme_Properties
  imports Acme_Hosts Manager_Properties
begin

text \<open>
  The properties of the ACME service over the manager's runs.
\<close>

definition acme_section :: AcmeConfig where
  "acme_section = \<lparr>acme_Challenge = [], acme_HttpBind = [], acme_CacheDir = []\<rparr>"

definition acme_server :: "string slice \<Rightarrow> string \<Rightarrow> string slice \<Rightarrow> Server" where
  "acme_server hosts bind binds = (raw_server 1 sample_healthcheck)\<lparr>srv_Protocol := ''tls'', srv_Bind := bind, srv_Binds := binds,
     srv_Tls := Some \<lparr>tls_AcmeHosts = hosts, tls_CertPath = ''cert'', tls_KeyPath = ''key'',
       tls_common = \<lparr>tls_Ciphers = None, tls_MinVersion = [], tls_MaxVersion = [], tls_SessionTickets = False\<rparr>\<rparr>\<rparr>"

definition acme_booted :: "Manager" where
  "acme_booted = fst (boot sample_menv (sample_cfg\<lparr>cfg_Acme := Some acme_section\<rparr>)
     [(''web'', acme_server (Some [''a.org'']) ''0.0.0.0:443'' None)])"

text \<open>What starting up gives: with one address and a host, and with two addresses and no host.\<close>

lemma acme_runs:
  "snd (boot sample_menv (sample_cfg\<lparr>cfg_Acme := Some acme_section\<rparr>)
     [(''web'', acme_server (Some [''a.org'']) ''0.0.0.0:443'' None)]) = Ok ()"
  "case mg_servers acme_booted of [(n, s, r)] \<Rightarrow> n = ''web'' \<and> as_tcp s \<and> server_acme (as_cfg s) = [''a.org''] | _ \<Rightarrow> False"
  "mg_acme acme_booted \<noteq> None"
  "snd (boot sample_menv (sample_cfg\<lparr>cfg_Acme := Some acme_section\<rparr>)
     [(''web'', acme_server None [] (Some [''0.0.0.0:443'', ''[::]:443'']))]) = Ok ()"
  by code_simp+

lemma mg_reachable_with_reachable: "mg_reachable_with env Q m \<Longrightarrow> mg_reachable env m"
  by (induction rule: mg_reachable_with.induct) (auto intro: mg_boot mg_op)



text \<open>C27: With an ACME service, a server that has ACME hosts and binds more than one address keeps the
  process from starting: the servers it is expanded to claim the same hosts one after the other, and
  the second is refused.\<close>

theorem acme_multibind_never_starts:
  assumes "cfg_Acme cfg \<noteq> None" and "(name, s) \<in> set servers" and "srv_Protocol s \<noteq> ''udp''"
    and "server_acme s \<noteq> []" and "1 < length (wanted_binds s)"
  shows "snd (boot env cfg servers) \<noteq> Ok ()"
  using boot_acme_multibind [of env cfg servers "fst (boot env cfg servers)" "()", OF _ assms(1-4)] assms(5)
  by (auto simp: prod_eq_iff)

theorem acme_multibind_never_starts_witness:
  "snd (boot sample_menv (sample_cfg\<lparr>cfg_Acme := Some acme_section\<rparr>)
     [(''web'', acme_server (Some [''a.org'']) [] (Some [''0.0.0.0:443'', ''[::]:443'']))]) \<noteq> Ok () \<and>
   snd (boot sample_menv (sample_cfg\<lparr>cfg_Acme := Some acme_section\<rparr>)
     [(''web'', acme_server None [] (Some [''0.0.0.0:443'', ''[::]:443'']))]) = Ok ()"
proof
  show "snd (boot sample_menv (sample_cfg\<lparr>cfg_Acme := Some acme_section\<rparr>)
     [(''web'', acme_server (Some [''a.org'']) [] (Some [''0.0.0.0:443'', ''[::]:443'']))]) \<noteq> Ok ()"
    by (rule acme_multibind_never_starts [where name = "''web''" and s = "acme_server (Some [''a.org'']) [] (Some [''0.0.0.0:443'', ''[::]:443''])"])
      (simp_all add: acme_server_def raw_server_def server_acme_def wanted_binds_def sample_server_def)
  show "snd (boot sample_menv (sample_cfg\<lparr>cfg_Acme := Some acme_section\<rparr>)
     [(''web'', acme_server None [] (Some [''0.0.0.0:443'', ''[::]:443'']))]) = Ok ()" by (rule acme_runs(4))
qed

end
