(* ===== verification/Backend_Source.thy ===== *)
theory Backend_Source
  imports Fetch Connection_Users
begin

text \<open>
  The interface between discovery and the scheduler: whatever the kind of discovery and whatever the
  world answers, each backend it reports is live and starts with zero statistics. That is what the
  scheduler's accounting rests on. The laws of a discovery whose fetch keeps this contract are proved
  once; the interpretations discharge it for the eight kinds.
\<close>

section \<open>The interface\<close>

definition fresh_backends :: "Backend list \<Rightarrow> bool" where
  "fresh_backends bs \<longleftrightarrow> (\<forall>b\<in>set bs. Stats b = live_stats)"

lemma fresh_backends_simps [simp]:
  "fresh_backends []" "fresh_backends (b # bs) \<longleftrightarrow> Stats b = live_stats \<and> fresh_backends bs"
  by (auto simp: fresh_backends_def)

text \<open>The results that the events of a discovery stem from: \<open>w\<close> is the world at the time of a fetch.\<close>

locale backend_source =
  fixes fetch :: "'w \<Rightarrow> DiscoveryConfig \<Rightarrow> Backend list outcome"
  assumes fetch_fresh: "fetch w cfg = Ok bs \<Longrightarrow> fresh_backends bs"
begin

lemma step_fresh:
  assumes "disc_step e d = Some (d', out)" and "\<forall>r st. e = Fetched r st \<longrightarrow> (\<exists>w. r = fetch w (dsc_cfg d))"
    and "fresh_backends (dsc_backends d)"
  shows "fresh_backends (dsc_backends d') \<and> (\<forall>bs\<in>set out. fresh_backends bs)"
proof (cases e)
  case (Fetched r st)
  then obtain w where w: "r = fetch w (dsc_cfg d)" using assms(2) by blast
  show ?thesis
  proof (cases r)
    case (Ok bs)
    then have "fresh_backends bs" using w fetch_fresh by metis
    then show ?thesis using assms(1,3) Fetched Ok
      by (cases "dsc_pc d") (auto simp: disc_step_def after_fetch_def)
  qed (use assms(1,3) Fetched in \<open>cases "dsc_pc d"; auto simp: disc_step_def after_fetch_def\<close>)+
qed (use assms(1,3) in \<open>cases "dsc_pc d"; auto simp: disc_step_def after_send_def\<close>)+

lemma published_fresh:
  assumes "disc_run es d = Some (d', out)" and "\<forall>r st. Fetched r st \<in> set es \<longrightarrow> (\<exists>w. r = fetch w (dsc_cfg d))"
    and "fresh_backends (dsc_backends d)"
  shows "\<forall>bs\<in>set out. fresh_backends bs"
  using assms
proof (induction es arbitrary: d out)
  case (Cons e es)
  obtain d1 o1 o2 where s: "disc_step e d = Some (d1, o1)" "disc_run es d1 = Some (d', o2)" "out = o1 @ o2"
    using Cons.prems(1) by (auto simp only: disc_run_Cons)
  have "dsc_cfg d1 = dsc_cfg d" using disc_step_out [OF s(1)] by blast
  moreover have "fresh_backends (dsc_backends d1) \<and> (\<forall>bs\<in>set o1. fresh_backends bs)"
    by (rule step_fresh [OF s(1) _ Cons.prems(3)]) (use Cons.prems(2) in auto)
  ultimately show ?case using Cons.IH [OF s(2)] Cons.prems(2) s(3) by auto
qed simp

text \<open>What such a discovery reports does not disturb the accounting of connections.\<close>

lemma report_tracked: "fetch w cfg = Ok bs \<Longrightarrow> tracked_event m (EvDiscovered bs)"
  using fetch_fresh by (auto simp: tracked_event_def fresh_backends_def live_stats_def zero_stats_def)

end

section \<open>The eight kinds\<close>

text \<open>What the outside answers to the fetches of every kind.\<close>

record outside =
  w_exec :: "string list \<Rightarrow> string option"
  w_compile :: "string \<Rightarrow> matcher option"
  w_http :: "string \<Rightarrow> string option"
  w_json :: "string \<Rightarrow> json_doc option"
  w_dns :: "string \<Rightarrow> dns"
  w_docker :: docker_client
  w_consul_tls :: bool
  w_consul :: "string \<Rightarrow> string \<Rightarrow> bool \<Rightarrow> consul_entry list option"
  w_lxd :: lxd_env

text \<open>The \<open>fetch\<close> field that the constructor of a kind sets.\<close>

fun fetch_of :: "discovery_kind \<Rightarrow> outside \<Rightarrow> DiscoveryConfig \<Rightarrow> Backend list outcome" where
  "fetch_of KStatic w cfg = staticFetch cfg"
| "fetch_of KSrv w cfg = srvFetch (w_dns w) cfg"
| "fetch_of KDocker w cfg = dockerFetch (w_docker w) cfg"
| "fetch_of KJson w cfg = jsonFetch (w_http w) (w_json w) cfg"
| "fetch_of KExec w cfg = execFetch (w_exec w) cfg"
| "fetch_of KPlaintext w cfg = plaintextFetch (w_compile w) (w_http w) cfg"
| "fetch_of KConsul w cfg = consulFetch (w_consul_tls w) (w_consul w) cfg"
| "fetch_of KLxd w cfg = lxdFetch (w_lxd w) cfg"

lemma need_Ok: "need x f = Ok y \<longleftrightarrow> (\<exists>v. x = Some v \<and> f v = Ok y)"
  by (auto simp: need_def split: option.splits)

lemma new_backend_fresh [simp]: "Stats (new_backend h p s) = live_stats"
  by (simp add: new_backend_def)

lemma parse_lines_fresh: "parse_lines re ls = Ok bs \<Longrightarrow> fresh_backends bs"
  by (induction ls arbitrary: bs) (auto simp: bind_outcome_Ok_iff ParseBackend_live split: outcome.splits)

lemma srv_answers_fresh: "srv_answers dns hosts rs = Ok bs \<Longrightarrow> fresh_backends bs"
  by (induction dns hosts rs arbitrary: bs rule: srv_answers.induct)
    (auto simp: bind_outcome_Ok_iff srv_backend_def Let_def split: option.splits if_splits)

lemma json_backends_fresh: "json_backends j doc ks = Ok bs \<Longrightarrow> fresh_backends bs"
  by (induction ks arbitrary: bs)
    (auto simp: bind_outcome_Ok_iff json_backend_def Let_def split: option.splits)

interpretation static: backend_source "\<lambda>_::outside. staticFetch"
  by unfold_locales (auto simp: staticFetch_def need_Ok intro: parse_lines_fresh)

interpretation exec: backend_source execFetch
  by unfold_locales (auto simp: execFetch_def need_Ok intro: parse_lines_fresh split: if_splits option.splits)

interpretation plaintext: backend_source "plaintextFetch compile" for compile
  by unfold_locales (auto simp: plaintextFetch_def need_Ok intro: parse_lines_fresh split: option.splits)

interpretation json: backend_source "\<lambda>(http, parse). jsonFetch http parse"
  by unfold_locales (auto simp: jsonFetch_def need_def intro: json_backends_fresh split: option.splits)

interpretation srv: backend_source srvFetch
  by unfold_locales (auto simp: srvFetch_def need_def intro: srv_answers_fresh split: option.splits if_splits)

interpretation docker: backend_source dockerFetch
  by unfold_locales (auto simp: dockerFetch_def need_Ok fresh_backends_def split: option.splits if_splits)

interpretation consul: backend_source "\<lambda>(tls, query). consulFetch tls query"
  by unfold_locales (auto simp: consulFetch_def need_Ok fresh_backends_def consul_backend_def
      split: option.splits if_splits)

lemma lxd_backend_fresh: "lxd_backend client cfg c = Some b \<Longrightarrow> Stats b = live_stats"
  by (auto simp: lxd_backend_def Let_def split: if_splits)

lemma lxdFetch_fresh: "lxdFetch env cfg = Ok bs \<Longrightarrow> fresh_backends bs"
  using lxd_backend_fresh by (fastforce simp: lxdFetch_def need_def fresh_backends_def map_filter_def
      split: option.splits)

interpretation lxd: backend_source lxdFetch
  by unfold_locales (rule lxdFetch_fresh)

text \<open>A kind chosen by the configuration.\<close>

interpretation any_kind: backend_source "fetch_of k" for k
proof
  fix w cfg bs assume "fetch_of k w cfg = Ok bs"
  then show "fresh_backends bs"
    by (cases k) (auto dest: static.fetch_fresh exec.fetch_fresh plaintext.fetch_fresh srv.fetch_fresh
      docker.fetch_fresh lxd.fetch_fresh json.fetch_fresh [of "(w_http w, w_json w)", simplified]
      consul.fetch_fresh [of "(w_consul_tls w, w_consul w)", simplified])
qed

end
