(* ===== verification/Serving.thy ===== *)
theory Serving
  imports Backend_Source
begin

text \<open>
  A discovery and the scheduler it reports to, as the two goroutines run side by side
  (\<open>Scheduler.Start\<close> in src/src/server/scheduler/scheduler.go with src/src/discovery/discovery.go). They
  meet at two unbuffered channels: \<open>out\<close>, on which a report is handed over, and \<open>stop\<close>, on which the
  scheduler waits for the discovery when it is stopped itself. Everything else each does on its own.
\<close>

section \<open>The composition\<close>

text \<open>Where the scheduler is: in its loop, in \<open>this.Discovery.Stop()\<close>, or beyond it.\<close>

datatype stop_phase = NotStopped | InDiscoveryStop | DiscoveryStopped

record Serving =
  sv_discovery :: Discovery
  sv_scheduler :: Scheduler
  sv_stop :: stop_phase

definition Serving_Start ::
    "string \<Rightarrow> DiscoveryConfig \<Rightarrow> Balancer \<Rightarrow> HealthcheckConfig \<Rightarrow> Serving outcome" where
  "Serving_Start kind dcfg bal cfg =
     bind_outcome (Discovery_New kind dcfg) (\<lambda>d.
       bind_outcome (Discovery_Start d) (\<lambda>d.
         Ok \<lparr>sv_discovery = d, sv_scheduler = Scheduler_start bal cfg, sv_stop = NotStopped\<rparr>))"

datatype serving_event =
    Internal disc_event
  | Report "Backend list"
  | Turn sched_event
  | StopRequest

text \<open>
  What a discovery can do on its own: its non-blocking checks find a caller of \<open>Stop\<close> exactly while
  the scheduler waits there, and what it fetches is what its kind makes of some state of the world.
\<close>

definition disc_enabled :: "stop_phase \<Rightarrow> Discovery \<Rightarrow> disc_event \<Rightarrow> bool" where
  "disc_enabled phase d e \<longleftrightarrow> (case e of
       Fetched r stopping \<Rightarrow> stopping = (phase = InDiscoveryStop) \<and> r \<noteq> Panic \<and>
         (\<exists>w. r = fetch_of (dsc_kind d) w (dsc_cfg d))
     | Checked stopping \<Rightarrow> stopping = (phase = InDiscoveryStop)
     | StopReceived \<Rightarrow> phase = InDiscoveryStop
     | TimerFired \<Rightarrow> True
     | Sent \<Rightarrow> False)"

definition own_turn :: "sched_event \<Rightarrow> bool" where
  "own_turn ev = (case ev of EvDiscovered _ \<Rightarrow> False | EvStop \<Rightarrow> False | _ \<Rightarrow> True)"

inductive serving_step :: "regexp \<Rightarrow> Serving \<Rightarrow> serving_event \<Rightarrow> Serving \<Rightarrow> bool" for re where
  internal: "disc_enabled (sv_stop s) (sv_discovery s) e \<Longrightarrow> \<not> serves_stop e \<Longrightarrow>
    disc_step e (sv_discovery s) = Some (d, []) \<Longrightarrow> serving_step re s (Internal e) (s\<lparr>sv_discovery := d\<rparr>)"
| stop_served: "disc_enabled (sv_stop s) (sv_discovery s) e \<Longrightarrow> serves_stop e \<Longrightarrow>
    disc_step e (sv_discovery s) = Some (d, []) \<Longrightarrow> sched_step re (sv_scheduler s) EvStop sch effs \<Longrightarrow>
    serving_step re s (Internal e) \<lparr>sv_discovery = d, sv_scheduler = sch, sv_stop = DiscoveryStopped\<rparr>"
| report: "sv_stop s = NotStopped \<Longrightarrow> disc_step Sent (sv_discovery s) = Some (d, [bs]) \<Longrightarrow>
    sched_step re (sv_scheduler s) (EvDiscovered bs) sch effs \<Longrightarrow>
    serving_step re s (Report bs) (s\<lparr>sv_discovery := d, sv_scheduler := sch\<rparr>)"
| turn: "sv_stop s = NotStopped \<Longrightarrow> own_turn ev \<Longrightarrow> sched_step re (sv_scheduler s) ev sch effs \<Longrightarrow>
    serving_step re s (Turn ev) (s\<lparr>sv_scheduler := sch\<rparr>)"
| stop_request: "sv_stop s = NotStopped \<Longrightarrow> serving_step re s StopRequest (s\<lparr>sv_stop := InDiscoveryStop\<rparr>)"

inductive_cases serving_stepE:
  "serving_step re s (Internal e) s'" "serving_step re s (Report bs) s'"
  "serving_step re s (Turn ev) s'" "serving_step re s StopRequest s'"

text \<open>A run, in which \<open>ok\<close> holds of every step.\<close>

inductive serving_run ::
    "regexp \<Rightarrow> (Serving \<Rightarrow> serving_event \<Rightarrow> bool) \<Rightarrow> Serving \<Rightarrow> serving_event list \<Rightarrow> Serving \<Rightarrow> bool"
    for re ok s where
  serving_start: "serving_run re ok s [] s"
| serving_next: "serving_run re ok s evs s' \<Longrightarrow> ok s' ev \<Longrightarrow> serving_step re s' ev s'' \<Longrightarrow>
    serving_run re ok s (evs @ [ev]) s''"

section \<open>What each of the two sees\<close>

definition disc_view :: "serving_event \<Rightarrow> disc_event list" where
  "disc_view ev = (case ev of Internal e \<Rightarrow> [e] | Report _ \<Rightarrow> [Sent] | _ \<Rightarrow> [])"

definition sched_view :: "serving_event \<Rightarrow> sched_event list" where
  "sched_view ev = (case ev of Internal e \<Rightarrow> if serves_stop e then [EvStop] else []
     | Report bs \<Rightarrow> [EvDiscovered bs] | Turn ev \<Rightarrow> [ev] | StopRequest \<Rightarrow> [])"

definition report_view :: "serving_event \<Rightarrow> Backend list list" where
  "report_view ev = (case ev of Report bs \<Rightarrow> [bs] | _ \<Rightarrow> [])"

definition disc_events :: "serving_event list \<Rightarrow> disc_event list" where
  "disc_events evs = concat (map disc_view evs)"

definition sched_events :: "serving_event list \<Rightarrow> sched_event list" where
  "sched_events evs = concat (map sched_view evs)"

definition reports :: "serving_event list \<Rightarrow> Backend list list" where
  "reports evs = concat (map report_view evs)"

lemma views_simps [simp]:
  "disc_events [] = []" "disc_events (evs @ [ev]) = disc_events evs @ disc_view ev"
  "sched_events [] = []" "sched_events (evs @ [ev]) = sched_events evs @ sched_view ev"
  "reports [] = []" "reports (evs @ [ev]) = reports evs @ report_view ev"
  by (simp_all add: disc_events_def sched_events_def reports_def)

lemma disc_run_append:
  "disc_run es d = Some (d1, o1) \<Longrightarrow> disc_run es' d1 = Some (d2, o2) \<Longrightarrow> disc_run (es @ es') d = Some (d2, o1 @ o2)"
proof (induction es arbitrary: d o1)
  case (Cons e es)
  then obtain d' o' o'' where s: "disc_step e d = Some (d', o')" "disc_run es d' = Some (d1, o'')" "o1 = o' @ o''"
    by (auto simp only: disc_run_Cons)
  show ?case using Cons.IH [OF s(2) Cons.prems(2)] s(1,3) by simp
qed simp

lemma disc_run_single: "disc_step e d = Some (d', out) \<Longrightarrow> disc_run [e] d = Some (d', out)"
  by simp

lemma sched_view_length: "length (sched_view ev) \<le> 1"
  by (simp add: sched_view_def split: serving_event.split)

lemma sched_events_length: "length (sched_events evs) \<le> length evs"
proof (induction evs rule: rev_induct)
  case (snoc ev evs)
  then show ?case using sched_view_length [of ev] by simp
qed simp

text \<open>The steps of the composition are steps of its parts.\<close>

lemma serving_step_disc:
  "serving_step re s ev s' \<Longrightarrow> disc_run (disc_view ev) (sv_discovery s) = Some (sv_discovery s', report_view ev)"
  by (cases rule: serving_step.cases) (auto simp: disc_view_def report_view_def)

lemma serving_step_sched:
  "serving_step re s ev s' \<Longrightarrow> sched_view ev = [] \<and> sv_scheduler s' = sv_scheduler s \<or>
   (\<exists>e effs. sched_view ev = [e] \<and> sched_step re (sv_scheduler s) e (sv_scheduler s') effs)"
  by (cases rule: serving_step.cases) (auto simp: sched_view_def)

lemma serving_run_disc:
  "serving_run re ok s evs s' \<Longrightarrow>
   disc_run (disc_events evs) (sv_discovery s) = Some (sv_discovery s', reports evs)"
  by (induction rule: serving_run.induct) (auto dest!: serving_step_disc intro: disc_run_append)

lemma serving_run_sched:
  "serving_run re ok s evs s' \<Longrightarrow> sched_run re (sv_scheduler s) (sched_events evs) (sv_scheduler s')"
proof (induction rule: serving_run.induct)
  case (serving_next evs s' ev s'')
  then show ?case using serving_step_sched [OF serving_next.hyps(3)]
    by (auto intro: sched_run.run_step)
qed (simp add: sched_run.run_start)

lemma serving_step_running:
  assumes "serving_step re s ev s'" and "sch_running (sv_scheduler s) \<longleftrightarrow> sv_stop s \<noteq> DiscoveryStopped"
  shows "sch_running (sv_scheduler s') \<longleftrightarrow> sv_stop s' \<noteq> DiscoveryStopped"
proof -
  have run: "sch_running sch' \<longleftrightarrow> ev' \<noteq> EvStop" if "sched_step re sch ev' sch' effs" for sch ev' sch' effs
    using that HandleBackendElect_backends
    by (cases ev') (fastforce simp: sched_step_iff sched_handle_def)+
  from assms show ?thesis
    by (cases rule: serving_step.cases) (auto simp: run own_turn_def)
qed

lemma serving_run_running:
  "serving_run re ok s evs s' \<Longrightarrow> sch_running (sv_scheduler s) \<longleftrightarrow> sv_stop s \<noteq> DiscoveryStopped \<Longrightarrow>
   sch_running (sv_scheduler s') \<longleftrightarrow> sv_stop s' \<noteq> DiscoveryStopped"
  by (induction rule: serving_run.induct) (auto dest: serving_step_running)

lemma disc_step_kind: "disc_step e d = Some (d', out) \<Longrightarrow> dsc_cfg d' = dsc_cfg d \<and> dsc_kind d' = dsc_kind d"
  by (auto simp: disc_step_def after_fetch_def after_send_def split: disc_event.splits disc_pc.splits outcome.splits)

lemma serving_step_kind:
  "serving_step re s ev s' \<Longrightarrow> dsc_cfg (sv_discovery s') = dsc_cfg (sv_discovery s) \<and>
     dsc_kind (sv_discovery s') = dsc_kind (sv_discovery s)"
  by (cases rule: serving_step.cases) (auto dest: disc_step_kind)

lemma serving_run_kind:
  "serving_run re ok s evs s' \<Longrightarrow> dsc_cfg (sv_discovery s') = dsc_cfg (sv_discovery s) \<and>
     dsc_kind (sv_discovery s') = dsc_kind (sv_discovery s)"
  by (induction rule: serving_run.induct) (auto dest: serving_step_kind)

section \<open>Lemmas: the discovered backends\<close>

definition discovered :: "backends \<Rightarrow> Target set" where
  "discovered m = {t. \<exists>b. m t = Some b \<and> Discovered (Stats b)}"

lemma discovered_upd:
  "discovered (m(t \<mapsto> b)) = (if Discovered (Stats b) then insert t (discovered m) else discovered m - {t})"
  by (auto simp: discovered_def)

lemma discovered_mark [simp]: "discovered (mark_undiscovered m) = {}"
  by (auto simp: discovered_def mark_undiscovered_def set_discovered_def)

lemma discovered_remove [simp]: "discovered (remove_unused m) = discovered m"
  by (auto simp: discovered_def remove_unused_def in_use_def split: option.splits if_splits)

lemma discovered_one: "discover_one cfg b m = Ok m' \<Longrightarrow> discovered m' = insert (Target b) (discovered m)"
  by (auto simp: discover_one_def discovered_upd set_discovered_def split: option.splits)

lemma discovered_all: "discover_all cfg bs m = Ok m' \<Longrightarrow> discovered m' = discovered m \<union> Target ` set bs"
  by (induction bs arbitrary: m) (auto dest: discovered_one)

lemma discovered_update: "HandleBackendsUpdate cfg bs m = Ok m' \<Longrightarrow> discovered m' = Target ` set bs"
  by (auto simp: HandleBackendsUpdate_def dest: discovered_all)

lemma discovered_keep: "m t = Some b \<Longrightarrow> Discovered (Stats b') = Discovered (Stats b) \<Longrightarrow> discovered (m(t \<mapsto> b')) = discovered m"
  by (auto simp: discovered_def)

lemma discovered_live [simp]: "discovered (HandleBackendLiveChange t l m) = discovered m"
  by (auto simp: HandleBackendLiveChange_def intro!: discovered_keep split: option.split)

lemma discovered_stats [simp]: "discovered (HandleBackendStatsChange t bs m) = discovered m"
  by (auto simp: HandleBackendStatsChange_def intro!: discovered_keep split: option.split)

lemma discovered_op: "HandleOp op m = Ok (m', effs) \<Longrightarrow> discovered m' = discovered m"
  by (auto simp: HandleOp_def apply_op_def intro!: discovered_keep split: OpAction.splits option.splits)

text \<open>Only a report changes which backends count as discovered, and it changes them to its targets.\<close>

lemma discovered_step:
  assumes "sched_step re s ev s' effs"
  shows "discovered (sch_backends s') =
    (case ev of EvDiscovered bs \<Rightarrow> Target ` set bs | _ \<Rightarrow> discovered (sch_backends s))"
proof -
  obtain rnd order order' where "sched_handle re rnd order order' ev s = Ok (s', effs)"
    using assms by (auto simp: sched_step_iff)
  then show ?thesis
    by (cases ev) (auto simp: sched_handle_def dest: discovered_update discovered_op HandleBackendElect_backends)
qed

lemma discovered_run:
  assumes "serving_run re ok s evs s'" and "discovered (sch_backends (sv_scheduler s)) = {}"
  shows "discovered (sch_backends (sv_scheduler s')) = (if reports evs = [] then {} else Target ` set (last (reports evs)))"
  using assms
proof (induction rule: serving_run.induct)
  case (serving_next evs s' ev s'')
  from serving_next.hyps(3) show ?case
  proof (cases rule: serving_step.cases)
    case (turn ev sch effs)
    then show ?thesis using serving_next discovered_step [OF turn(5)]
      by (auto simp: own_turn_def report_view_def split: sched_event.splits)
  qed (use serving_next in \<open>auto simp: report_view_def dest!: discovered_step\<close>)
qed simp

section \<open>Lemmas: the accounting\<close>

text \<open>A run in which connections are registered while their backend is tracked.\<close>

definition registers_tracked :: "Serving \<Rightarrow> serving_event \<Rightarrow> bool" where
  "registers_tracked s ev \<longleftrightarrow> (\<forall>op. ev = Turn (EvOp op) \<and> op_op op = IncrementConnection \<longrightarrow>
     sch_backends (sv_scheduler s) (op_target op) \<noteq> None)"

text \<open>What the discovery holds is fresh, by the contract of its kind.\<close>

lemma serving_step_fresh:
  assumes "serving_step re s ev s'" and "fresh_backends (dsc_backends (sv_discovery s))"
  shows "fresh_backends (dsc_backends (sv_discovery s')) \<and> (\<forall>bs\<in>set (report_view ev). fresh_backends bs)"
proof -
  let ?k = "dsc_kind (sv_discovery s)"
  from assms(1) show ?thesis
  proof (cases rule: serving_step.cases)
    case (internal e d)
    then show ?thesis using any_kind.step_fresh [of e _ d "[]" ?k] assms(2)
      by (auto simp: disc_enabled_def report_view_def split: disc_event.splits)
  next
    case (stop_served e d sch effs)
    then show ?thesis using any_kind.step_fresh [of e _ d "[]" ?k] assms(2)
      by (auto simp: disc_enabled_def report_view_def split: disc_event.splits)
  next
    case (report d bs sch effs)
    then show ?thesis using any_kind.step_fresh [of Sent _ d "[bs]" ?k] assms(2)
      by (auto simp: report_view_def)
  qed (use assms(2) in \<open>auto simp: report_view_def\<close>)
qed

lemma serving_run_tracked:
  assumes "serving_run re registers_tracked s evs s'" and "fresh_backends (dsc_backends (sv_discovery s))"
  shows "tracked_run re (sv_scheduler s) (sched_events evs) (sv_scheduler s') \<and>
    fresh_backends (dsc_backends (sv_discovery s'))"
  using assms
proof (induction rule: serving_run.induct)
  case (serving_next evs s' ev s'')
  have IH: "tracked_run re (sv_scheduler s) (sched_events evs) (sv_scheduler s')"
    "fresh_backends (dsc_backends (sv_discovery s'))" using serving_next by auto
  note fresh = serving_step_fresh [OF serving_next.hyps(3) IH(2)]
  consider "sched_view ev = []" "sv_scheduler s'' = sv_scheduler s'"
    | e effs where "sched_view ev = [e]" "sched_step re (sv_scheduler s') e (sv_scheduler s'') effs"
    using serving_step_sched [OF serving_next.hyps(3)] by blast
  then have "tracked_run re (sv_scheduler s) (sched_events (evs @ [ev])) (sv_scheduler s'')"
  proof cases
    case (2 e effs)
    have "tracked_event (sch_backends (sv_scheduler s')) e"
      using 2(1) fresh serving_next.hyps(2,3)
      by (auto simp: tracked_event_def sched_view_def report_view_def registers_tracked_def fresh_backends_def
          live_stats_def zero_stats_def own_turn_def elim: serving_stepE(3)
          split: serving_event.splits if_splits sched_event.splits)
    with 2 IH(1) show ?thesis by (auto intro: tracked_run.tracked_next)
  qed (use IH(1) in simp)
  then show ?case using fresh by blast
qed (simp add: tracked_run.tracked_start)

end
