(* ===== verification/Serving_Properties.thy ===== *)
theory Serving_Properties
  imports Serving Tcp_Properties Udp_Properties Discovery_Properties
begin

text \<open>
  The properties of a discovery and a scheduler that run together: which backends the scheduler
  considers discovered, the accounting of the connections of TCP handlers and UDP sessions, and how
  the two are stopped.
\<close>

section \<open>Lemmas: starting and stopping\<close>

lemma Serving_Start_cases:
  assumes "Serving_Start kind dcfg bal cfg = Ok s"
  shows "sv_scheduler s = Scheduler_start bal cfg \<and> sv_stop s = NotStopped \<and>
    dsc_pc (sv_discovery s) = Fetching \<and> dsc_backends (sv_discovery s) = []"
proof -
  obtain d d' where d: "Discovery_New kind dcfg = Ok d" "Discovery_Start d = Ok d'"
    and s: "s = \<lparr>sv_discovery = d', sv_scheduler = Scheduler_start bal cfg, sv_stop = NotStopped\<rparr>"
    using assms by (auto simp: Serving_Start_def)
  have "dsc_backends d = []" using d(1)
    by (auto simp: Discovery_New_def need_def Let_def split: option.splits discovery_kind.splits)
  then show ?thesis using d(2) s by (auto simp: Discovery_Start_def split: option.splits)
qed

lemma Scheduler_start_discovered [simp]: "discovered (sch_backends (Scheduler_start bal cfg)) = {}"
  by (simp add: discovered_def Scheduler_start_def)

lemma sched_step_stop:
  assumes "wf_backends (sch_backends s)" and "sch_running s"
  shows "\<exists>s' effs. sched_step re s EvStop s' effs"
proof -
  obtain order where "set order = dom (sch_backends s)" "distinct order"
    using assms(1) finite_distinct_list [of "dom (sch_backends s)"] by (auto simp: wf_backends_def)
  then have "iteration_order order (sch_backends s)" by (simp add: iteration_order_def)
  then have "sched_step re s EvStop (s\<lparr>sch_running := False\<rparr>) [DiscoveryStop, HealthcheckStop]"
    using assms(2) by (intro sched_step.step [of _ "\<lambda>n. 0" _ order order]) (simp_all add: intn_range_def sched_handle_def)
  then show ?thesis by blast
qed

text \<open>While the scheduler waits in \<open>Stop\<close>, only the discovery can move.\<close>

lemma waiting_step:
  assumes "serving_step re s ev s'" and "sv_stop s = InDiscoveryStop"
  shows "sv_stop s' = DiscoveryStopped \<and> dsc_pc (sv_discovery s') = Returned \<and>
      \<not> (\<exists>b. dsc_pc (sv_discovery s) = Sending b) \<and> dsc_pc (sv_discovery s) \<noteq> Returned \<or>
    sv_stop s' = InDiscoveryStop \<and> (\<exists>t. dsc_pc (sv_discovery s) = Waiting t) \<and>
      dsc_pc (sv_discovery s') = Fetching"
  using assms(1)
proof (cases rule: serving_step.cases)
  case (internal e d)
  then show ?thesis using assms(2)
    by (cases e; cases "dsc_pc (sv_discovery s)") (auto simp: disc_enabled_def disc_step_def)
next
  case (stop_served e d sch effs)
  then show ?thesis using assms(2)
    by (cases e; cases "dsc_pc (sv_discovery s)") (auto simp: disc_enabled_def disc_step_def)
qed (use assms(2) in auto)

lemma waiting_served:
  assumes "sv_stop s = InDiscoveryStop" and "\<exists>sch effs. sched_step re (sv_scheduler s) EvStop sch effs"
    and "fetch_of (dsc_kind (sv_discovery s)) w (dsc_cfg (sv_discovery s)) \<noteq> Panic"
    and "\<not> (\<exists>b. dsc_pc (sv_discovery s) = Sending b)" and "dsc_pc (sv_discovery s) \<noteq> Returned"
  shows "\<exists>ev s'. serving_step re s ev s' \<and> sv_stop s' = DiscoveryStopped"
proof -
  let ?d = "sv_discovery s"
  let ?r = "fetch_of (dsc_kind ?d) w (dsc_cfg ?d)"
  obtain sch effs where sch: "sched_step re (sv_scheduler s) EvStop sch effs" using assms(2) by blast
  obtain e where "disc_enabled (sv_stop s) ?d e" "serves_stop e" "\<exists>d'. disc_step e ?d = Some (d', [])"
  proof (cases "dsc_pc ?d")
    case Fetching
    then show ?thesis using assms(1,3)
      by (intro that [of "Fetched ?r True"]) (auto simp: disc_enabled_def disc_step_def)
  next
    case (Checking b)
    then show ?thesis using assms(1)
      by (intro that [of "Checked True"]) (auto simp: disc_enabled_def disc_step_def)
  next
    case (Waiting t)
    then show ?thesis using assms(1)
      by (intro that [of StopReceived]) (auto simp: disc_enabled_def disc_step_def)
  qed (use assms(4,5) in auto)
  with stop_served [of s e _ re sch effs] sch show ?thesis by fastforce
qed

section \<open>A concrete run\<close>

text \<open>A static list with one backend, and the interval 0 that is the default.\<close>

definition serving_discovery :: DiscoveryConfig where
  "serving_discovery = sample_discovery\<lparr>disc_Static := Some (Some (map show_backend [plain_backend]))\<rparr>"

definition serving_0 :: Serving where
  "serving_0 = \<lparr>sv_discovery = (sample_running 0)\<lparr>dsc_cfg := serving_discovery\<rparr>,
     sv_scheduler = Scheduler_start sample_balancer sample_healthcheck, sv_stop = NotStopped\<rparr>"

definition reported_backends :: "uint64 \<Rightarrow> goint \<Rightarrow> backends" where
  "reported_backends n k = [Target plain_backend \<mapsto> with_stats (\<lambda>s. s\<lparr>Discovered := True, Live := True,
     ActiveConnections := n, TotalConnections := k\<rparr>) plain_backend]"

definition serving_n :: "uint64 \<Rightarrow> goint \<Rightarrow> Serving" where
  "serving_n n k = serving_0\<lparr>sv_discovery := (sv_discovery serving_0)\<lparr>dsc_backends := [plain_backend], dsc_pc := Returned\<rparr>,
     sv_scheduler := (sv_scheduler serving_0)\<lparr>sch_backends := reported_backends n k\<rparr>\<rparr>"

lemma serving_0_simps [simp]:
  "sv_scheduler serving_0 = Scheduler_start sample_balancer sample_healthcheck" "sv_stop serving_0 = NotStopped"
  "sv_discovery serving_0 = (sample_running 0)\<lparr>dsc_cfg := serving_discovery\<rparr>"
  by (simp_all add: serving_0_def)

lemma serving_0_start: "Serving_Start ''static'' serving_discovery sample_balancer sample_healthcheck = Ok serving_0"
proof -
  have "ParseDuration ''0'' = Some 0" by code_simp
  then show ?thesis
    by (simp add: Serving_Start_def serving_0_def Discovery_New_def registry_def Discovery_Start_def serving_discovery_def
      sample_running_def sample_discovery_def Let_def)
qed

lemma serving_fetch: "staticFetch serving_discovery = Ok [plain_backend]"
  by (simp add: serving_discovery_def staticFetch_show plain_backend_printable)

lemma step_plain_report:
  "\<exists>effs. sched_step re (Scheduler_start sample_balancer sample_healthcheck) (EvDiscovered [plain_backend])
     (sv_scheduler (serving_n 0 0)) effs"
  by (intro exI, rule sched_step.step [of _ "\<lambda>n. 0" _ "[Target plain_backend]" "[Target plain_backend]"])
    (simp_all add: sched_eval wrap64_nonneg serving_n_def reported_backends_def plain_backend_def live_stats_def intn_range_def)

lemma step_plain_register:
  "sched_step re (sv_scheduler (serving_n 0 0)) (EvOp (Scheduler_IncrementConnection plain_backend)) (sv_scheduler (serving_n 1 1)) []"
  by (rule sched_step.step [of _ "\<lambda>n. 0" _ "[Target plain_backend]" "[Target plain_backend]"])
    (simp_all add: sched_eval wrap64_nonneg serving_n_def reported_backends_def plain_backend_def live_stats_def intn_range_def)

lemma serving_run_reported:
  assumes ok: "\<And>s e. ok s (Internal e)" "\<And>s bs. ok s (Report bs)"
  shows "serving_run re ok serving_0 [Internal (Fetched (Ok [plain_backend]) False), Internal (Checked False),
    Report [plain_backend]] (serving_n 0 0)"
proof -
  let ?d = "sv_discovery serving_0"
  let ?d1 = "?d\<lparr>dsc_backends := [plain_backend], dsc_pc := Checking True\<rparr>"
  have "serving_step re serving_0 (Internal (Fetched (Ok [plain_backend]) False)) (serving_0\<lparr>sv_discovery := ?d1\<rparr>)"
    by (rule serving_step.internal)
      (simp_all add: disc_enabled_def serving_fetch disc_step_def after_fetch_def sample_running_def)
  then have run1: "serving_run re ok serving_0 ([] @ [Internal (Fetched (Ok [plain_backend]) False)])
      (serving_0\<lparr>sv_discovery := ?d1\<rparr>)"
    by (intro serving_run.serving_next [OF serving_run.serving_start] ok)
  have "serving_step re (serving_0\<lparr>sv_discovery := ?d1\<rparr>) (Internal (Checked False))
      (serving_0\<lparr>sv_discovery := ?d1\<lparr>dsc_pc := Sending True\<rparr>\<rparr>)"
    using serving_step.internal [of "serving_0\<lparr>sv_discovery := ?d1\<rparr>" "Checked False" "?d1\<lparr>dsc_pc := Sending True\<rparr>" re]
    by (simp add: disc_enabled_def disc_step_def serving_0_def)
  then have run2: "serving_run re ok serving_0 (([] @ [Internal (Fetched (Ok [plain_backend]) False)]) @ [Internal (Checked False)])
      (serving_0\<lparr>sv_discovery := ?d1\<lparr>dsc_pc := Sending True\<rparr>\<rparr>)"
    by (intro serving_run.serving_next [OF run1] ok)
  obtain effs where sch: "sched_step re (Scheduler_start sample_balancer sample_healthcheck) (EvDiscovered [plain_backend])
      (sv_scheduler (serving_n 0 0)) effs" using step_plain_report by blast
  have "serving_step re (serving_0\<lparr>sv_discovery := ?d1\<lparr>dsc_pc := Sending True\<rparr>\<rparr>) (Report [plain_backend]) (serving_n 0 0)"
    using serving_step.report [of "serving_0\<lparr>sv_discovery := ?d1\<lparr>dsc_pc := Sending True\<rparr>\<rparr>" "?d1\<lparr>dsc_pc := Returned\<rparr>"
      "[plain_backend]" re "sv_scheduler (serving_n 0 0)" effs] sch
    by (simp add: disc_step_def after_send_def serving_0_def serving_n_def sample_running_def)
  then have "serving_run re ok serving_0 ((([] @ [Internal (Fetched (Ok [plain_backend]) False)]) @ [Internal (Checked False)])
      @ [Report [plain_backend]]) (serving_n 0 0)"
    by (intro serving_run.serving_next [OF run2] ok)
  then show ?thesis by simp
qed

lemma serving_run_registered:
  "serving_run re registers_tracked serving_0 [Internal (Fetched (Ok [plain_backend]) False), Internal (Checked False),
    Report [plain_backend], Turn (EvOp (Scheduler_IncrementConnection plain_backend))] (serving_n 1 1)"
proof -
  let ?inc = "EvOp (Scheduler_IncrementConnection plain_backend)"
  have "serving_step re (serving_n 0 0) (Turn ?inc) (serving_n 1 1)"
    using serving_step.turn [OF _ _ step_plain_register, of re] by (simp add: own_turn_def serving_n_def)
  moreover have "registers_tracked (serving_n 0 0) (Turn ?inc)"
    by (simp add: registers_tracked_def serving_n_def reported_backends_def Scheduler_IncrementConnection_def)
  ultimately show ?thesis
    using serving_run.serving_next [OF serving_run_reported [of registers_tracked re]]
    by (simp add: registers_tracked_def)
qed

section \<open>Reports\<close>

text \<open>C2: From the start, in every run, the backends the scheduler takes for discovered are exactly the
  targets of the last report; the reports are the updates that the fail policy makes of the fetches,
  in order, and while the discovery runs at most the one it is about to hand over is missing.\<close>

theorem discovered_follow_fetches:
  assumes "Serving_Start kind dcfg bal cfg = Ok s0" and "serving_run re ok s0 evs s"
  shows "discovered (sch_backends (sv_scheduler s)) = (if reports evs = [] then {} else Target ` set (last (reports evs))) \<and>
    (\<exists>lost. updates (disc_Failpolicy (dsc_cfg (sv_discovery s0))) (fetched (disc_events evs)) =
      reports evs @ unsent (sv_discovery s) @ lost \<and> (dsc_pc (sv_discovery s) \<noteq> Returned \<longrightarrow> lost = []))"
  using discovered_run [OF assms(2)] disc_run_out [OF serving_run_disc [OF assms(2)]] Serving_Start_cases [OF assms(1)]
  by (simp add: unsent_def)

theorem discovered_follow_fetches_witness:
  "\<exists>s. serving_run (\<lambda>_. None) (\<lambda>_ _. True) serving_0 [Internal (Fetched (Ok [plain_backend]) False), Internal (Checked False),
       Report [plain_backend]] s \<and> discovered (sch_backends (sv_scheduler s)) = {Target plain_backend}"
  using discovered_follow_fetches [OF serving_0_start serving_run_reported [of "\<lambda>_ _. True" "\<lambda>_. None"]]
    serving_run_reported [of "\<lambda>_ _. True" "\<lambda>_. None"]
  by (auto simp: reports_def report_view_def)

section \<open>Accounting\<close>

interpretation served: connection_user "\<lambda>ops. tcp_sends ops \<or> udp_sends ops"
  by unfold_locales (use tcp.sends_releases udp.sends_releases in blast)



section \<open>Stopping\<close>

text \<open>C28: A scheduler that waits for its discovery to stop: when the discovery is handing over a report
  or has returned (which it does after its first report when the interval is 0), neither can move any
  more and the stop never returns. In every other state the discovery can serve the stop, and every
  run does so within two steps: the one exception is a timer that fires first, and then the next
  fetch ends in the stop.\<close>

theorem stop_terminates:
  assumes "Serving_Start kind dcfg bal cfg = Ok s0" and "serving_run re ok s0 evs s"
    and "sv_stop s = InDiscoveryStop"
    and "fetch_of (dsc_kind (sv_discovery s0)) w (dsc_cfg (sv_discovery s0)) \<noteq> Panic"
  shows "if (\<exists>b. dsc_pc (sv_discovery s) = Sending b) \<or> dsc_pc (sv_discovery s) = Returned
    then \<nexists>ev s'. serving_step re s ev s'
    else (\<exists>ev s'. serving_step re s ev s' \<and> sv_stop s' = DiscoveryStopped) \<and>
      (\<forall>ev s'. serving_step re s ev s' \<longrightarrow> sv_stop s' = DiscoveryStopped \<or>
        (\<exists>ev s''. serving_step re s' ev s'') \<and>
        (\<forall>ev s''. serving_step re s' ev s'' \<longrightarrow> sv_stop s'' = DiscoveryStopped))"
proof (cases "(\<exists>b. dsc_pc (sv_discovery s) = Sending b) \<or> dsc_pc (sv_discovery s) = Returned")
  case True
  then show ?thesis using waiting_step [OF _ assms(3)] by fastforce
next
  case False
  note start = Serving_Start_cases [OF assms(1)]
  have stoppable: "\<exists>ev s'. serving_step re q ev s' \<and> sv_stop s' = DiscoveryStopped"
    if "serving_run re ok' s0 es q" "sv_stop q = InDiscoveryStop"
      "\<not> ((\<exists>b. dsc_pc (sv_discovery q) = Sending b) \<or> dsc_pc (sv_discovery q) = Returned)" for ok' es q
  proof (rule waiting_served [OF that(2)])
    have "wf_backends (sch_backends (sv_scheduler q))"
      using sched_run_wf [OF serving_run_sched [OF that(1)]] start by simp
    moreover have "sch_running (sv_scheduler q)"
      using serving_run_running [OF that(1)] start that(2) by (simp add: Scheduler_start_def)
    ultimately show "\<exists>sch effs. sched_step re (sv_scheduler q) EvStop sch effs" by (rule sched_step_stop)
    show "fetch_of (dsc_kind (sv_discovery q)) w (dsc_cfg (sv_discovery q)) \<noteq> Panic"
      using serving_run_kind [OF that(1)] assms(4) by simp
  qed (use that(3) in auto)
  have any: "serving_run re (\<lambda>_ _. True) s0 evs s"
    using assms(2) by (induction rule: serving_run.induct) (auto intro: serving_run.intros)
  have "sv_stop s' = DiscoveryStopped \<or> (\<exists>ev s''. serving_step re s' ev s'') \<and>
      (\<forall>ev s''. serving_step re s' ev s'' \<longrightarrow> sv_stop s'' = DiscoveryStopped)"
    if step: "serving_step re s ev s'" for ev s'
    using waiting_step [OF step assms(3)] stoppable [OF serving_run.serving_next [OF any _ step]] waiting_step [of re s']
    by fastforce
  then show ?thesis using stoppable [OF any assms(3) False] False by auto
qed

text \<open>The run above ends in a discovery that has returned; a stop right at the start is served.\<close>

theorem stop_terminates_witness:
  "(\<nexists>ev s'. serving_step (\<lambda>_. None) ((serving_n 0 0)\<lparr>sv_stop := InDiscoveryStop\<rparr>) ev s') \<and>
   (\<exists>ev s'. serving_step (\<lambda>_. None) (serving_0\<lparr>sv_stop := InDiscoveryStop\<rparr>) ev s' \<and> sv_stop s' = DiscoveryStopped)"
proof -
  let ?ok = "\<lambda>_ _. True"
  have w: "fetch_of (dsc_kind (sv_discovery serving_0)) w (dsc_cfg (sv_discovery serving_0)) \<noteq> Panic" for w
    by (simp add: sample_running_def serving_fetch)
  have "serving_step (\<lambda>_. None) (serving_n 0 0) StopRequest ((serving_n 0 0)\<lparr>sv_stop := InDiscoveryStop\<rparr>)"
    by (rule serving_step.stop_request) (simp add: serving_n_def)
  from serving_run.serving_next [OF serving_run_reported [of ?ok] _ this]
  have "\<nexists>ev s'. serving_step (\<lambda>_. None) ((serving_n 0 0)\<lparr>sv_stop := InDiscoveryStop\<rparr>) ev s'"
    using stop_terminates [OF serving_0_start _ _ w, of "\<lambda>_. None" ?ok] by (fastforce simp: serving_n_def)
  moreover have "serving_step (\<lambda>_. None) serving_0 StopRequest (serving_0\<lparr>sv_stop := InDiscoveryStop\<rparr>)"
    by (rule serving_step.stop_request) simp
  from serving_run.serving_next [OF serving_run.serving_start [of _ ?ok] _ this]
  have "\<exists>ev s'. serving_step (\<lambda>_. None) (serving_0\<lparr>sv_stop := InDiscoveryStop\<rparr>) ev s' \<and> sv_stop s' = DiscoveryStopped"
    using stop_terminates [OF serving_0_start _ _ w, of "\<lambda>_. None" ?ok] by (fastforce simp: sample_running_def)
  ultimately show ?thesis by blast
qed

end
