(* ===== verification/Proxy_Timed.thy ===== *)
theory Proxy_Timed
  imports Proxy
begin

text \<open>
  \<open>proxy\<close> (src/src/server/tcp/proxy.go) with its two goroutines side by side and the read deadline
  between them: the copier reads, writes and hands each count over on \<open>stats\<close>; the collector renews the
  deadline of \<open>from\<close> at its start and for each count it has received. Times are nanoseconds since the
  start; an event happens at a time, and a read that has not returned by the deadline fails then.
\<close>

section \<open>One turn of the copy loop\<close>

definition after_read :: "copy_io \<Rightarrow> copy_end" where
  "after_read io = (if ci_readErr io = Some EOF then Finished None
     else if ci_readErr io \<noteq> None then Finished (ci_readErr io) else Running)"

text \<open>The count that is handed over, and how the loop goes on.\<close>

definition copy_turn :: "copy_io \<Rightarrow> ReadWriteCount list \<times> copy_end" where
  "copy_turn io =
     (if ci_data io = [] then ([], after_read io)
      else (copy_count io,
        if ci_writeErr io \<noteq> None then Finished (ci_writeErr io)
        else if length (ci_data io) \<noteq> ci_writeN io then Finished (Some ErrShortWrite)
        else after_read io))"

section \<open>The two goroutines\<close>

text \<open>The copier is in \<open>Read\<close>, in \<open>ch <- rwc\<close> (with what follows), or out of the loop.\<close>

datatype copier = InRead | InHandover ReadWriteCount copy_end | Ended "io_error option"

text \<open>The collector has not run yet, is in its \<open>select\<close>, has received a count, or has returned.\<close>

datatype collecting = NotStarted | Selecting | Received ReadWriteCount | Over

record proxying =
  px_timeout :: int
  px_deadline :: "int option"
  px_copier :: copier
  px_collecting :: collecting
  px_collector :: collector
  px_closed :: bool

definition new_proxying :: "goint \<Rightarrow> proxying" where
  "new_proxying timeout = \<lparr>px_timeout = timeout, px_deadline = None, px_copier = InRead,
     px_collecting = NotStarted, px_collector = new_collector, px_closed = False\<rparr>"

datatype px_event =
    ColStart
  | Arrive copy_io
  | ReadExpires
  | Handover ReadWriteCount
  | Counted ReadWriteCount
  | PushTick
  | CloseBoth
  | ColEnd

definition renew :: "int \<Rightarrow> proxying \<Rightarrow> proxying" where
  "renew now p = (if px_timeout p > 0 then p\<lparr>px_deadline := Some (now + px_timeout p)\<rparr> else p)"

definition copier_goes_on :: "copy_end \<Rightarrow> copier" where
  "copier_goes_on e = (case e of Running \<Rightarrow> InRead | Finished err \<Rightarrow> Ended err)"

text \<open>
  One step at time \<open>now\<close>: the new state and what is sent on \<open>outStats\<close>. \<open>None\<close>: the event cannot
  happen now. \<open>CloseBoth\<close> closes both connections and \<open>stats\<close>.
\<close>

definition px_step :: "int \<Rightarrow> px_event \<Rightarrow> proxying \<Rightarrow> (proxying \<times> ReadWriteCount list) option" where
  "px_step now ev p = (case ev of
       ColStart \<Rightarrow> if px_collecting p = NotStarted then Some ((renew now p)\<lparr>px_collecting := Selecting\<rparr>, []) else None
     | Arrive io \<Rightarrow>
         if px_copier p = InRead \<and> (\<forall>d. px_deadline p = Some d \<longrightarrow> now < d) then
           (case copy_turn io of
              ([], e) \<Rightarrow> Some (p\<lparr>px_copier := copier_goes_on e\<rparr>, [])
            | (rwc # _, e) \<Rightarrow> Some (p\<lparr>px_copier := InHandover rwc e\<rparr>, []))
         else None
     | ReadExpires \<Rightarrow>
         if px_copier p = InRead \<and> (\<exists>d. px_deadline p = Some d \<and> d \<le> now)
         then Some (p\<lparr>px_copier := Ended (Some (IoError ''i/o timeout''))\<rparr>, []) else None
     | Handover rwc \<Rightarrow> (case px_copier p of
           InHandover c e \<Rightarrow> if c = rwc \<and> px_collecting p = Selecting
             then Some (p\<lparr>px_copier := copier_goes_on e, px_collecting := Received c\<rparr>, []) else None
         | _ \<Rightarrow> None)
     | Counted rwc \<Rightarrow>
         if px_collecting p = Received rwc
         then Some ((if CountRead rwc > 0 then renew now p else p)
           \<lparr>px_collecting := Selecting, px_collector := fst (collector_step (ColStats rwc) (px_collector p))\<rparr>, [])
         else None
     | PushTick \<Rightarrow>
         if px_collecting p = Selecting
         then (case collector_step ColTick (px_collector p) of (c, out) \<Rightarrow> Some (p\<lparr>px_collector := c\<rparr>, out)) else None
     | CloseBoth \<Rightarrow> (case px_copier p of
           Ended err \<Rightarrow> if px_closed p then None else Some (p\<lparr>px_closed := True\<rparr>, [])
         | _ \<Rightarrow> None)
     | ColEnd \<Rightarrow>
         if px_collecting p = Selecting \<and> px_closed p
         then (case collector_step ColClosed (px_collector p) of
             (c, out) \<Rightarrow> Some (p\<lparr>px_collecting := Over, px_collector := c\<rparr>, out)) else None)"

fun px_run :: "(int \<times> px_event) list \<Rightarrow> proxying \<Rightarrow> (proxying \<times> ReadWriteCount list) option" where
  "px_run [] p = Some (p, [])"
| "px_run ((now, ev) # evs) p = (case px_step now ev p of None \<Rightarrow> None
     | Some (p, out) \<Rightarrow> map_option (\<lambda>(p, outs). (p, out @ outs)) (px_run evs p))"

lemma px_run_Cons:
  "px_run ((now, ev) # evs) p = Some (p', out) \<longleftrightarrow>
   (\<exists>p1 o1 o2. px_step now ev p = Some (p1, o1) \<and> px_run evs p1 = Some (p', o2) \<and> out = o1 @ o2)"
  by (fastforce split: option.splits)

section \<open>Lemmas: the deadline\<close>

text \<open>When the deadline was renewed last: at the start of the collector or with the last count.\<close>

fun last_activity :: "int option \<Rightarrow> (int \<times> px_event) list \<Rightarrow> int option" where
  "last_activity t [] = t"
| "last_activity t ((now, ev) # evs) =
     last_activity (case ev of ColStart \<Rightarrow> Some now | Counted _ \<Rightarrow> Some now | _ \<Rightarrow> t) evs"

text \<open>A count stems from a read that returned bytes, so its \<open>CountRead\<close> is positive.\<close>

definition counts_read :: "proxying \<Rightarrow> bool" where
  "counts_read p \<longleftrightarrow> (\<forall>c e. px_copier p = InHandover c e \<longrightarrow> CountRead c > 0) \<and>
     (\<forall>c. px_collecting p = Received c \<longrightarrow> CountRead c > 0)"

lemma copy_turn_read:
  assumes "io_contract io" and "copy_turn io = (rwc # rest, e)"
  shows "CountRead rwc > 0"
proof -
  have "length (ci_data io) \<noteq> 0" "length (ci_data io) < 2 ^ 64" "rwc = hd (copy_count io)" "copy_count io \<noteq> []"
    using assms by (auto simp: copy_turn_def io_contract_def BUFFER_SIZE_def split: if_splits)
  then have "unat (CountRead rwc) = length (ci_data io)"
    by (simp add: copy_count_def unat_of_nat split: if_splits)
  then show ?thesis using \<open>length (ci_data io) \<noteq> 0\<close> unat_0 by (metis word_gt_0)
qed

definition contract_event :: "px_event \<Rightarrow> bool" where
  "contract_event ev \<longleftrightarrow> (\<forall>io. ev = Arrive io \<longrightarrow> io_contract io)"

lemma px_step_counts:
  assumes "px_step now ev p = Some (p', out)" and "contract_event ev" and "counts_read p"
  shows "counts_read p' \<and> px_timeout p' = px_timeout p"
  using assms copy_turn_read
  by (auto simp: px_step_def counts_read_def contract_event_def renew_def copier_goes_on_def
      split: px_event.splits if_splits list.splits prod.splits copier.splits copy_end.splits)

lemma px_step_deadline:
  assumes "px_step now ev p = Some (p', out)" and "counts_read p"
    and "px_deadline p = (if px_timeout p > 0 then map_option (\<lambda>t. t + px_timeout p) t else None)"
  shows "px_deadline p' = (if px_timeout p > 0
    then map_option (\<lambda>t. t + px_timeout p) (last_activity t [(now, ev)]) else None)"
  using assms
  by (auto simp: px_step_def counts_read_def renew_def split: px_event.splits if_splits list.splits prod.splits copier.splits)

lemma px_run_deadline:
  assumes "px_run evs p = Some (p', out)" and "\<forall>(t, ev)\<in>set evs. contract_event ev" and "counts_read p"
    and "px_deadline p = (if px_timeout p > 0 then map_option (\<lambda>t. t + px_timeout p) t else None)"
  shows "px_timeout p' = px_timeout p \<and>
    px_deadline p' = (if px_timeout p > 0 then map_option (\<lambda>t. t + px_timeout p) (last_activity t evs) else None)"
  using assms
proof (induction evs arbitrary: p t out)
  case (Cons e evs)
  obtain now ev where e: "e = (now, ev)" by fastforce
  obtain p1 o1 o2 where s: "px_step now ev p = Some (p1, o1)" "px_run evs p1 = Some (p', o2)"
    using Cons.prems(1) by (auto simp only: e px_run_Cons)
  have c: "contract_event ev" using Cons.prems(2) by (simp add: e)
  note p1 = px_step_counts [OF s(1) c Cons.prems(3)]
  have "px_deadline p1 = (if px_timeout p1 > 0
      then map_option (\<lambda>t. t + px_timeout p1) (last_activity t [(now, ev)]) else None)"
    using px_step_deadline [OF s(1) Cons.prems(3,4)] p1 by simp
  from Cons.IH [OF s(2) _ _ this] Cons.prems(2) p1 show ?case by (simp add: e)
qed simp

section \<open>Lemmas: against the two loops\<close>

text \<open>What was read, and what the collector has been through.\<close>

definition arrived :: "(int \<times> px_event) list \<Rightarrow> copy_io list" where
  "arrived evs = concat (map (\<lambda>(t, ev). case ev of Arrive io \<Rightarrow> [io] | _ \<Rightarrow> []) evs)"

definition col_events :: "(int \<times> px_event) list \<Rightarrow> collector_event list" where
  "col_events evs = concat (map (\<lambda>(t, ev). case ev of
     Counted rwc \<Rightarrow> [ColStats rwc] | PushTick \<Rightarrow> [ColTick] | ColEnd \<Rightarrow> [ColClosed] | _ \<Rightarrow> []) evs)"

lemma views_Cons [simp]:
  "arrived [] = []" "arrived ((t, ev) # evs) = (case ev of Arrive io \<Rightarrow> [io] | _ \<Rightarrow> []) @ arrived evs"
  "col_events [] = []" "col_events ((t, ev) # evs) = (case ev of
     Counted rwc \<Rightarrow> [ColStats rwc] | PushTick \<Rightarrow> [ColTick] | ColEnd \<Rightarrow> [ColClosed] | _ \<Rightarrow> []) @ col_events evs"
  by (simp_all add: arrived_def col_events_def)

lemma Copy_Cons:
  "Copy (io # ios) = (case copy_turn io of (counts, e) \<Rightarrow>
     let out = take (ci_writeN io) (ci_data io)
     in (case e of
           Running \<Rightarrow> (case Copy ios of (rwcs, out', e') \<Rightarrow> (counts @ rwcs, out @ out', e'))
         | Finished err \<Rightarrow> (counts, out, Finished err)))"
  by (auto simp: copy_turn_def after_read_def Let_def split: prod.splits)

text \<open>
  The copy loop, started in the copier's place, goes through what arrives from there on: the counts
  still to be handed over come first, and a timeout cuts the loop short.
\<close>

definition counts_due :: "copier \<Rightarrow> copy_io list \<Rightarrow> ReadWriteCount list" where
  "counts_due c ios = (case c of InRead \<Rightarrow> fst (Copy ios)
     | InHandover rwc Running \<Rightarrow> rwc # fst (Copy ios)
     | InHandover rwc _ \<Rightarrow> [rwc] | Ended _ \<Rightarrow> [])"

definition col_due :: "collecting \<Rightarrow> ReadWriteCount list" where
  "col_due c = (case c of Received rwc \<Rightarrow> [rwc] | _ \<Rightarrow> [])"

lemma copy_turn_counts: "copy_turn io = (counts, e) \<Longrightarrow> counts = [] \<or> (\<exists>c. counts = [c])"
  by (auto simp: copy_turn_def copy_count_def split: if_splits)

lemma px_run_collector:
  "px_run evs p = Some (p', outs) \<Longrightarrow> col_open (px_collector p) \<longleftrightarrow> px_collecting p \<noteq> Over \<Longrightarrow>
   collector_run (col_events evs) (px_collector p) = (px_collector p', outs) \<and>
   (col_open (px_collector p') \<longleftrightarrow> px_collecting p' \<noteq> Over)"
proof (induction evs arbitrary: p outs)
  case (Cons e evs)
  obtain now ev where e: "e = (now, ev)" by fastforce
  obtain p1 o1 o2 where s: "px_step now ev p = Some (p1, o1)" "px_run evs p1 = Some (p', o2)" "outs = o1 @ o2"
    using Cons.prems(1) by (auto simp only: e px_run_Cons)
  have p1: "col_open (px_collector p1) \<longleftrightarrow> px_collecting p1 \<noteq> Over"
    using s(1) Cons.prems(2) by (auto simp: px_step_def renew_def
        split: px_event.splits if_splits list.splits prod.splits copier.splits)
  note IH = Cons.IH [OF s(2) p1]
  show ?case using s(1,3) Cons.prems(2) IH e
    by (auto simp: px_step_def renew_def split: px_event.splits if_splits list.splits prod.splits copier.splits)
qed simp

text \<open>All counts of the bytes that were copied reach the collector.\<close>

lemma ended_arrived: "px_run evs p = Some (p', outs) \<Longrightarrow> px_copier p = Ended err \<Longrightarrow> arrived evs = []"
proof (induction evs arbitrary: p outs)
  case (Cons e evs)
  obtain now ev where e: "e = (now, ev)" by fastforce
  obtain p1 o1 o2 where s: "px_step now ev p = Some (p1, o1)" "px_run evs p1 = Some (p', o2)"
    using Cons.prems(1) by (auto simp only: e px_run_Cons)
  then have "px_copier p1 = Ended err \<and> (\<forall>io. ev \<noteq> Arrive io)" using Cons.prems(2)
    by (auto simp: px_step_def renew_def split: px_event.splits if_splits)
  then show ?case using Cons.IH [OF s(2)] by (cases ev) (auto simp: e)
qed simp

lemma px_run_over:
  "px_run evs p = Some (p', outs) \<Longrightarrow> px_collecting p = Over \<longrightarrow> px_closed p \<Longrightarrow>
   px_collecting p' = Over \<longrightarrow> px_closed p'"
proof (induction evs arbitrary: p outs)
  case (Cons e evs)
  obtain now ev where e: "e = (now, ev)" by fastforce
  obtain p1 o1 o2 where s: "px_step now ev p = Some (p1, o1)" "px_run evs p1 = Some (p', o2)"
    using Cons.prems(1) by (auto simp only: e px_run_Cons)
  have "px_collecting p1 = Over \<longrightarrow> px_closed p1" using s(1) Cons.prems(2)
    by (auto simp: px_step_def renew_def split: px_event.splits if_splits copier.splits prod.splits list.splits)
  then show ?case by (rule Cons.IH [OF s(2)])
qed simp

lemma counts_due_arrive:
  "copy_turn io = (counts, e) \<Longrightarrow> counts_due InRead (io # ios) =
   (case counts of [] \<Rightarrow> counts_due (copier_goes_on e) ios | rwc # _ \<Rightarrow> counts_due (InHandover rwc e) ios)"
  using copy_turn_counts [of io counts e]
  by (auto simp: counts_due_def Copy_Cons copier_goes_on_def Let_def simp del: Copy.simps
      split: prod.split copy_end.split)

lemma counts_due_simps [simp]:
  "counts_due (Ended err) ios = []" "counts_due InRead [] = []"
  "counts_due (InHandover rwc e) ios = rwc # counts_due (copier_goes_on e) ios"
  by (auto simp: counts_due_def copier_goes_on_def split: copy_end.split)

lemma px_run_counts:
  "px_run evs p = Some (p', outs) \<Longrightarrow> px_collecting p' = Over \<Longrightarrow> px_collecting p \<noteq> Over \<Longrightarrow>
   (px_closed p \<longrightarrow> (\<exists>err. px_copier p = Ended err)) \<Longrightarrow>
   col_due (px_collecting p) @ counts_due (px_copier p) (arrived evs) = collected (col_events evs)"
proof (induction evs arbitrary: p outs)
  case (Cons e evs)
  obtain now ev where e: "e = (now, ev)" by fastforce
  obtain p1 o1 o2 where s: "px_step now ev p = Some (p1, o1)" "px_run evs p1 = Some (p', o2)"
    using Cons.prems(1) by (auto simp only: e px_run_Cons)
  have closed: "px_closed p1 \<longrightarrow> (\<exists>err. px_copier p1 = Ended err)" using s(1) Cons.prems(4)
    by (auto simp: px_step_def renew_def copier_goes_on_def
        split: px_event.splits if_splits copier.splits prod.splits list.splits copy_end.splits)
  show ?case
  proof (cases "ev = ColEnd")
    case True
    then have "px_collecting p = Selecting" "px_closed p" "px_copier p1 = px_copier p"
      using s(1) by (auto simp: px_step_def split: if_splits)
    then show ?thesis using True Cons.prems(4) by (auto simp: e col_due_def)
  next
    case False
    then have "px_collecting p1 \<noteq> Over" using s(1) Cons.prems(3)
      by (auto simp: px_step_def renew_def split: px_event.splits if_splits copier.splits prod.splits list.splits)
    note IH = Cons.IH [OF s(2) Cons.prems(2) this closed]
    show ?thesis
    proof (cases ev)
      case (Arrive io)
      obtain counts c where t: "copy_turn io = (counts, c)" by fastforce
      then show ?thesis using s(1) IH Arrive counts_due_arrive [OF t]
        by (auto simp: e px_step_def split: if_splits list.splits)
    next
      case ReadExpires
      then have "px_copier p = InRead" "px_copier p1 = Ended (Some (IoError ''i/o timeout''))" "px_collecting p1 = px_collecting p"
        using s(1) by (auto simp: px_step_def split: if_splits)
      then show ?thesis using IH ReadExpires ended_arrived [OF s(2)] by (simp add: e)
    qed (use s(1) IH False in \<open>auto simp: e px_step_def renew_def col_due_def split: if_splits copier.splits\<close>)
  qed
qed simp

end
