(* ===== verification/Proxy_Properties.thy ===== *)
theory Proxy_Properties
  imports Proxy_Timed
begin

text \<open>
  The properties of one direction of a proxied connection, with its copier, its collector and the read
  deadline between them.
\<close>

section \<open>The idle timeout\<close>

text \<open>C29: The idle timeout is exact: a read fails for idleness only when a timeout is set and has
  passed since the collector started or last took a count, and from that moment on nothing more is
  read. Until then, and without a timeout at any time, the direction goes on reading.\<close>

theorem idle_timeout_exact:
  assumes "px_run evs (new_proxying timeout) = Some (p, outs)" and "\<forall>(t, ev)\<in>set evs. contract_event ev"
    and "px_copier p = InRead"
  shows "(px_step now ReadExpires p \<noteq> None \<longleftrightarrow>
      timeout > 0 \<and> (\<exists>t. last_activity None evs = Some t \<and> t + timeout \<le> now)) \<and>
    (px_step now (Arrive io) p \<noteq> None \<longleftrightarrow> px_step now ReadExpires p = None)"
proof -
  have "counts_read (new_proxying timeout)" by (simp add: counts_read_def new_proxying_def)
  from px_run_deadline [OF assms(1,2) this, of None]
  have d: "px_deadline p = (if timeout > 0 then map_option (\<lambda>t. t + timeout) (last_activity None evs) else None)"
    by (simp add: new_proxying_def)
  have "px_step now (Arrive io) p \<noteq> None \<longleftrightarrow> (\<forall>d. px_deadline p = Some d \<longrightarrow> now < d)"
    using assms(3) by (auto simp: px_step_def split: prod.splits list.splits)
  moreover have "px_step now ReadExpires p \<noteq> None \<longleftrightarrow> (\<exists>d. px_deadline p = Some d \<and> d \<le> now)"
    using assms(3) by (simp add: px_step_def)
  ultimately show ?thesis using d by (auto simp: not_less)
qed

text \<open>Ten nanoseconds of timeout: two bytes arrive at 4 and are counted at 5.\<close>

definition sample_io :: copy_io where
  "sample_io = \<lparr>ci_data = ''ab'', ci_readErr = None, ci_writeN = 2, ci_writeErr = None\<rparr>"

abbreviation sample_count :: ReadWriteCount where
  "sample_count \<equiv> \<lparr>CountRead = 2, CountWrite = 2, rwc_Target = zero_target\<rparr>"

definition sample_arrival :: "(int \<times> px_event) list" where
  "sample_arrival = [(0, ColStart), (4, Arrive sample_io), (5, Handover sample_count), (5, Counted sample_count)]"

lemma sample_turn: "copy_turn sample_io = ([sample_count], Running)"
  by (simp add: copy_turn_def copy_count_def after_read_def sample_io_def)

lemma sample_contract: "\<forall>(t, ev)\<in>set sample_arrival. contract_event ev"
  by (auto simp: sample_arrival_def contract_event_def io_contract_def sample_io_def BUFFER_SIZE_def)

lemma sample_run:
  "\<exists>p. px_run sample_arrival (new_proxying 10) = Some (p, []) \<and> px_copier p = InRead \<and>
     px_collecting p = Selecting \<and> \<not> px_closed p"
  by (simp add: sample_arrival_def px_step_def new_proxying_def renew_def sample_turn copier_goes_on_def)

theorem idle_timeout_exact_witness:
  "\<exists>p. px_run sample_arrival (new_proxying 10) = Some (p, []) \<and>
     px_step 14 ReadExpires p = None \<and> px_step 15 ReadExpires p \<noteq> None \<and> px_step 15 (Arrive sample_io) p = None"
proof -
  obtain p where p: "px_run sample_arrival (new_proxying 10) = Some (p, [])" "px_copier p = InRead"
    using sample_run by blast
  note exact = idle_timeout_exact [OF p(1) sample_contract p(2), of _ sample_io]
  have "last_activity None sample_arrival = Some 5" by (simp add: sample_arrival_def)
  then have "\<not> px_step 14 ReadExpires p \<noteq> None" "px_step 15 ReadExpires p \<noteq> None"
    "\<not> px_step 15 (Arrive sample_io) p \<noteq> None"
    using exact [of 14] exact [of 15] by simp_all
  then show ?thesis using p(1) by metis
qed

section \<open>Counting\<close>

text \<open>C30: Once a direction is over, on every path (end of stream, read or write error, short write, idle
  timeout), what the collector has published adds up to the bytes that the other side accepted, and
  in addition to what idle ticks published again; the connections are closed by then.\<close>

theorem direction_counts_bytes:
  assumes "px_run evs (new_proxying timeout) = Some (p, outs)" and "px_collecting p = Over"
    and "\<forall>(t, ev)\<in>set evs. contract_event ev"
  shows "px_closed p \<and> (\<exists>rwcs out e. Copy (arrived evs) = (rwcs, out, e) \<and>
    copied_writes outs = of_nat (length out) + copied_writes (resent (col_events evs) new_collector))"
proof -
  obtain rwcs out e where c: "Copy (arrived evs) = (rwcs, out, e)" by (cases "Copy (arrived evs)") auto
  have io: "\<forall>io\<in>set (arrived evs). io_contract io"
    using assms(3) by (fastforce simp: arrived_def contract_event_def split: px_event.splits)
  have start: "px_collecting (new_proxying timeout) \<noteq> Over" "\<not> px_closed (new_proxying timeout)"
    "px_collector (new_proxying timeout) = new_collector" "px_copier (new_proxying timeout) = InRead"
    "col_open new_collector" "pending new_collector = 0"
    by (simp_all add: new_proxying_def new_collector_def pending_def)
  have "collected (col_events evs) = rwcs"
    using px_run_counts [OF assms(1,2) start(1)] start(2,4) c
    by (simp add: counts_due_def col_due_def new_proxying_def)
  moreover have run: "collector_run (col_events evs) new_collector = (px_collector p, outs)" "\<not> col_open (px_collector p)"
    using px_run_collector [OF assms(1)] start assms(2) by auto
  moreover have "copied_writes rwcs = of_nat (length out)" using Copy_spec [OF io c] by blast
  ultimately have "copied_writes outs = of_nat (length out) + copied_writes (resent (col_events evs) new_collector)"
    using collector_run_spec [OF run(1) start(5)] start(6) by (simp add: pending_def)
  moreover have "px_closed p" using px_run_over [OF assms(1)] start(1) assms(2) by blast
  ultimately show ?thesis using c by blast
qed

theorem direction_counts_bytes_witness:
  "\<exists>p. px_run (sample_arrival @ [(15, ReadExpires), (15, CloseBoth), (15, ColEnd)]) (new_proxying 10) = Some (p, [sample_count]) \<and>
     px_closed p \<and> copied_writes [sample_count] = 2"
proof -
  let ?evs = "sample_arrival @ [(15, ReadExpires), (15, CloseBoth), (15, ColEnd)]"
  have "\<exists>p. px_run ?evs (new_proxying 10) = Some (p, [sample_count]) \<and> px_collecting p = Over \<and> px_closed p"
    by (simp add: sample_arrival_def px_step_def new_proxying_def renew_def sample_turn copier_goes_on_def
      new_collector_def publish_def IsZero_def zero_target_def)
  then obtain p where p: "px_run ?evs (new_proxying 10) = Some (p, [sample_count])" "px_collecting p = Over" "px_closed p"
    by blast
  have "\<forall>(t, ev)\<in>set ?evs. contract_event ev" using sample_contract by (auto simp: contract_event_def)
  from direction_counts_bytes [OF p(1,2) this] p show ?thesis
    by (auto simp: sample_arrival_def sample_io_def new_collector_def copy_count_def)
qed

end
