(* ===== verification/Cli.thy ===== *)
theory Cli
  imports Api
begin

text \<open>
  The command line (src/src/cmd) and the entry point (src/main.go): from the arguments or the
  GOBETWEEN variable to a running process that knows where its configuration came from. The parsing of
  flags is the cobra library's, a parameter here; its defaults are those the code registers.
\<close>

section \<open>Commands and flags\<close>

record Flags =
  fl_showVersion :: bool
  fl_configPath :: string
  fl_pidFilePath :: string
  fl_format :: string
  fl_isConfigEnvVars :: bool
  fl_consulKey :: string
  fl_consulScheme :: string

definition default_flags :: Flags where
  "default_flags = \<lparr>fl_showVersion = False, fl_configPath = [], fl_pidFilePath = [], fl_format = ''toml'',
     fl_isConfigEnvVars = False, fl_consulKey = ''gobetween'', fl_consulScheme = ''http''\<rparr>"

datatype command = RootCmd | FromFileCmd | FromUrlCmd | FromConsulCmd

record invocation =
  iv_command :: command
  iv_args :: "string list"
  iv_flags :: Flags

text \<open>\<open>info.Configuration\<close>: what the process says about the origin of its configuration.\<close>

datatype Configuration = InfoFile string | InfoUrl string | InfoConsul string string

section \<open>The surroundings\<close>

text \<open>
  \<open>pr_parse\<close>: the command that cobra runs for the arguments after the program's name, \<open>None\<close> when it
  reports an error or prints a help text instead. \<open>pr_pid_file\<close>: whether the file exists, and what
  reading it gives. \<open>pr_consul\<close> takes the scheme, the address and the key.
\<close>

record process_env =
  pr_app :: app_env
  pr_args :: "string list"
  pr_GOBETWEEN :: string
  pr_decode_args :: "string \<Rightarrow> string list option"
  pr_parse :: "string list \<Rightarrow> invocation option"
  pr_getenv :: "string \<Rightarrow> string"
  pr_codec :: "(Config \<times> (string \<times> Server) list) codec"
  pr_read_file :: "string \<Rightarrow> string option"
  pr_http_get :: "string \<Rightarrow> string option"
  pr_consul :: "string \<Rightarrow> string \<Rightarrow> string \<Rightarrow> string option option"
  pr_pid_file :: "string \<Rightarrow> bool \<times> string option"
  pr_can_write :: "string \<Rightarrow> bool"
  pr_alive :: "goint \<Rightarrow> bool"
  pr_pid :: goint

definition loader_of :: "process_env \<Rightarrow> Flags \<Rightarrow> (Config \<times> (string \<times> Server) list) loader_env" where
  "loader_of env fl = \<lparr>ld_isConfigEnvVars = fl_isConfigEnvVars fl, ld_format = fl_format fl, ld_getenv = pr_getenv env,
     ld_codec = pr_codec env, ld_read_file = pr_read_file env, ld_http_get = pr_http_get env,
     ld_consul = pr_consul env (fl_consulScheme fl)\<rparr>"

section \<open>The process\<close>

text \<open>
  How \<open>main\<close> ends: an exit with a status, a panic or fatal error while the parts start, or never.
\<close>

datatype ending = Exited nat | Crashed | Running App

record Process =
  ps_flags :: Flags
  ps_loader :: "configLoader option"
  ps_info :: "Configuration option"
  ps_pidfile :: "(string \<times> string) option"

definition new_process :: Process where
  "new_process = \<lparr>ps_flags = default_flags, ps_loader = None, ps_info = None, ps_pidfile = None\<rparr>"

text \<open>The pid file is written before any command runs, also before one that only prints a text.\<close>

definition PersistentPreRun :: "process_env \<Rightarrow> Process \<Rightarrow> Process option" where
  "PersistentPreRun env ps =
     (let path = fl_pidFilePath (ps_flags ps)
      in if path = [] then Some ps
         else case WritePidFile (fst (pr_pid_file env path)) (snd (pr_pid_file env path)) (pr_alive env) (pr_pid env) of
             Ok s \<Rightarrow> if pr_can_write env path then Some (ps\<lparr>ps_pidfile := Some (path, s)\<rparr>) else None
           | _ \<Rightarrow> None)"

text \<open>The part that the three commands share: set the loader, load, remember the origin, start.\<close>

definition load_and_start :: "process_env \<Rightarrow> configLoader \<Rightarrow> Configuration \<Rightarrow> Process \<Rightarrow> Process \<times> ending" where
  "load_and_start env loader origin ps =
     (let ps = ps\<lparr>ps_loader := Some loader\<rparr>
      in case LoadConfig (loader_of env (ps_flags ps)) (ps_loader ps) of
           Err e \<Rightarrow> (ps, Exited 1)
         | Panic \<Rightarrow> (ps, Crashed)
         | Ok (cfg, servers) \<Rightarrow>
             (let ps = ps\<lparr>ps_info := Some origin\<rparr>
              in case main_start (pr_app env) cfg servers of
                   Ok app \<Rightarrow> (ps, Running app)
                 | _ \<Rightarrow> (ps, Crashed)))"

definition FromFile_Run :: "process_env \<Rightarrow> string list \<Rightarrow> Process \<Rightarrow> Process \<times> ending" where
  "FromFile_Run env args ps = (case args of
       [path] \<Rightarrow> load_and_start env (FromFile path) (InfoFile path) ps
     | _ \<Rightarrow> (ps, Exited 0))"

definition FromUrl_Run :: "process_env \<Rightarrow> string list \<Rightarrow> Process \<Rightarrow> Process \<times> ending" where
  "FromUrl_Run env args ps = (case args of
       [url] \<Rightarrow> load_and_start env (FromURL url) (InfoUrl url) ps
     | _ \<Rightarrow> (ps, Exited 0))"

definition FromConsul_Run :: "process_env \<Rightarrow> string list \<Rightarrow> Process \<Rightarrow> Process \<times> ending" where
  "FromConsul_Run env args ps = (case args of
       [host] \<Rightarrow> load_and_start env (FromConsul host (fl_consulKey (ps_flags ps)))
                  (InfoConsul host (fl_consulKey (ps_flags ps))) ps
     | _ \<Rightarrow> (ps, Exited 0))"

definition Root_Run :: "process_env \<Rightarrow> string list \<Rightarrow> Process \<Rightarrow> Process \<times> ending" where
  "Root_Run env args ps =
     (if fl_showVersion (ps_flags ps) then (ps, Exited 0)
      else if fl_configPath (ps_flags ps) = [] then (ps, Exited 0)
      else FromFile_Run env [fl_configPath (ps_flags ps)] ps)"

definition run_command :: "process_env \<Rightarrow> command \<Rightarrow> string list \<Rightarrow> Process \<Rightarrow> Process \<times> ending" where
  "run_command env c args ps = (case c of
       RootCmd \<Rightarrow> Root_Run env args ps
     | FromFileCmd \<Rightarrow> FromFile_Run env args ps
     | FromUrlCmd \<Rightarrow> FromUrl_Run env args ps
     | FromConsulCmd \<Rightarrow> FromConsul_Run env args ps)"

text \<open>The error that cobra returns is dropped, and \<open>main\<close> returns: the exit status is 0.\<close>

definition Execute :: "process_env \<Rightarrow> string list \<Rightarrow> Process \<times> ending" where
  "Execute env args = (case pr_parse env (tl args) of
       None \<Rightarrow> (new_process, Exited 0)
     | Some iv \<Rightarrow>
         (let ps = new_process\<lparr>ps_flags := iv_flags iv\<rparr>
          in case PersistentPreRun env ps of
               None \<Rightarrow> (ps, Exited 1)
             | Some ps \<Rightarrow> run_command env (iv_command iv) (iv_args iv) ps))"

definition main :: "process_env \<Rightarrow> Process \<times> ending" where
  "main env =
     (if pr_GOBETWEEN env \<noteq> [] \<and> length (pr_args env) > 1 then (new_process, Exited 1)
      else if pr_GOBETWEEN env \<noteq> [] then
        (case pr_decode_args env (pr_GOBETWEEN env) of
           None \<Rightarrow> (new_process, Exited 1)
         | Some a \<Rightarrow> Execute env ([] # a))
      else Execute env (pr_args env))"

text \<open>
  A SIGHUP to a running process: the loader that the command has set is asked again, in the
  surroundings of that moment.
\<close>

definition hangup :: "process_env \<Rightarrow> Process \<Rightarrow> App \<Rightarrow> App \<times> unit outcome" where
  "hangup env ps app = reloadOnSignal (pr_app env) (loader_of env (ps_flags ps)) (ps_loader ps) app"

section \<open>Lemmas\<close>

lemma load_and_start_Running:
  assumes "load_and_start env loader origin ps = (ps', Running app)"
  shows "ps' = ps\<lparr>ps_loader := Some loader, ps_info := Some origin\<rparr> \<and>
    (\<exists>cfg servers. LoadConfig (loader_of env (ps_flags ps)) (Some loader) = Ok (cfg, servers) \<and>
      main_start (pr_app env) cfg servers = Ok app)"
  using assms by (auto simp: load_and_start_def Let_def split: outcome.splits prod.splits)

definition origin_of :: "configLoader \<Rightarrow> Configuration" where
  "origin_of loader = (case loader of FromFile p \<Rightarrow> InfoFile p | FromURL u \<Rightarrow> InfoUrl u | FromConsul h k \<Rightarrow> InfoConsul h k)"

text \<open>What each command asks for, from its arguments and flags.\<close>

definition asked :: "command \<Rightarrow> string list \<Rightarrow> Flags \<Rightarrow> configLoader option" where
  "asked c args fl = (case (c, args) of
       (RootCmd, _) \<Rightarrow> if fl_showVersion fl \<or> fl_configPath fl = [] then None else Some (FromFile (fl_configPath fl))
     | (FromFileCmd, [p]) \<Rightarrow> Some (FromFile p)
     | (FromUrlCmd, [u]) \<Rightarrow> Some (FromURL u)
     | (FromConsulCmd, [h]) \<Rightarrow> Some (FromConsul h (fl_consulKey fl))
     | _ \<Rightarrow> None)"

lemma run_command_asked:
  "run_command env c args ps = (case asked c args (ps_flags ps) of
       None \<Rightarrow> (ps, Exited 0)
     | Some loader \<Rightarrow> load_and_start env loader (origin_of loader) ps)"
  by (auto simp: run_command_def asked_def origin_of_def Root_Run_def FromFile_Run_def FromUrl_Run_def
      FromConsul_Run_def split: command.splits list.splits)

lemma PersistentPreRun_Some:
  assumes "PersistentPreRun env ps = Some ps'"
  shows "ps' = ps\<lparr>ps_pidfile := ps_pidfile ps'\<rparr> \<and>
    (if fl_pidFilePath (ps_flags ps) = [] then ps_pidfile ps' = ps_pidfile ps
     else ps_pidfile ps' = Some (fl_pidFilePath (ps_flags ps), Itoa (pr_pid env)))"
  using assms
  by (auto simp: PersistentPreRun_def WritePidFile_def Let_def split: if_splits outcome.splits option.splits)

text \<open>The arguments that \<open>main\<close> hands to cobra.\<close>

definition given_args :: "process_env \<Rightarrow> string list option" where
  "given_args env =
     (if pr_GOBETWEEN env = [] then Some (tl (pr_args env))
      else if length (pr_args env) > 1 then None
      else pr_decode_args env (pr_GOBETWEEN env))"

lemma main_Running:
  assumes "main env = (ps, Running app)"
  shows "\<exists>args iv. given_args env = Some args \<and> pr_parse env args = Some iv \<and> ps_flags ps = iv_flags iv \<and>
    asked (iv_command iv) (iv_args iv) (iv_flags iv) = ps_loader ps \<and>
    ps_info ps = map_option origin_of (ps_loader ps) \<and>
    ps_pidfile ps = (if fl_pidFilePath (iv_flags iv) = [] then None
      else Some (fl_pidFilePath (iv_flags iv), Itoa (pr_pid env))) \<and>
    (\<exists>loader cfg servers. ps_loader ps = Some loader \<and>
      LoadConfig (loader_of env (ps_flags ps)) (Some loader) = Ok (cfg, servers) \<and>
      main_start (pr_app env) cfg servers = Ok app)"
proof -
  obtain args where args: "given_args env = Some args" "Execute env ([] # args) = (ps, Running app)"
    using assms by (auto simp: main_def given_args_def Execute_def split: if_splits option.splits)
  obtain iv ps1 where iv: "pr_parse env args = Some iv"
    "PersistentPreRun env (new_process\<lparr>ps_flags := iv_flags iv\<rparr>) = Some ps1"
    "run_command env (iv_command iv) (iv_args iv) ps1 = (ps, Running app)"
    using args(2) by (auto simp: Execute_def Let_def split: option.splits)
  have ps1: "ps1 = new_process\<lparr>ps_flags := iv_flags iv, ps_pidfile := ps_pidfile ps1\<rparr>"
    "ps_pidfile ps1 = (if fl_pidFilePath (iv_flags iv) = [] then None
      else Some (fl_pidFilePath (iv_flags iv), Itoa (pr_pid env)))"
    using PersistentPreRun_Some [OF iv(2)] by (simp_all add: new_process_def split: if_splits)
  then have flags: "ps_flags ps1 = iv_flags iv" by (metis Process.ext_inject Process.surjective Process.update_convs(4) Process.update_convs(1))
  obtain loader where l: "asked (iv_command iv) (iv_args iv) (iv_flags iv) = Some loader"
    "load_and_start env loader (origin_of loader) ps1 = (ps, Running app)"
    using iv(3) flags by (auto simp: run_command_asked split: option.splits)
  from load_and_start_Running [OF l(2)] flags have
    ps: "ps = ps1\<lparr>ps_loader := Some loader, ps_info := Some (origin_of loader)\<rparr>"
    "\<exists>cfg servers. LoadConfig (loader_of env (iv_flags iv)) (Some loader) = Ok (cfg, servers) \<and>
      main_start (pr_app env) cfg servers = Ok app" by auto
  show ?thesis using args(1) iv(1) l(1) ps flags ps1(2) by (intro exI [of _ args] exI [of _ iv]) simp
qed

end
