(* ===== verification/Server_Heap.thy ===== *)
theory Server_Heap
  imports Manager_Correct
begin

text \<open>
  The configurations behind their pointers: what a write through the pointers of one server leaves
  unchanged, and that decoding, expanding and preparing a list of servers whose records are separate
  gives each of them what it would get alone.
\<close>

section \<open>Pointers\<close>

definition in_bounds :: "'a list \<Rightarrow> nat option \<Rightarrow> bool" where
  "in_bounds xs p \<longleftrightarrow> (\<forall>i. p = Some i \<longrightarrow> i < length xs)"

definition distinct_ptrs :: "nat option \<Rightarrow> nat option \<Rightarrow> bool" where
  "distinct_ptrs p q \<longleftrightarrow> (\<forall>i. p = Some i \<longrightarrow> q \<noteq> Some i)"

lemma point_spec:
  assumes "point xs p v = (xs', p')" and "in_bounds xs p"
  shows "map_option (nth xs') p' = v \<and> in_bounds xs' p' \<and>
    (\<forall>q. in_bounds xs q \<longrightarrow> in_bounds xs' q) \<and>
    (\<forall>q. in_bounds xs q \<and> distinct_ptrs q p \<longrightarrow> map_option (nth xs') q = map_option (nth xs) q \<and> distinct_ptrs q p')"
proof (cases v)
  case None
  then show ?thesis using assms by (auto simp: point_def in_bounds_def distinct_ptrs_def)
next
  case (Some x)
  show ?thesis
  proof (cases p)
    case None
    then have "xs' = xs @ [x]" "p' = Some (length xs)" using assms(1) Some by (auto simp: point_def)
    then show ?thesis using Some
      by (auto simp: in_bounds_def distinct_ptrs_def nth_append split: option.split) (auto simp: map_option_case nth_append split: option.splits)
  next
    case (Some i)
    then have "xs' = xs[i := x]" "p' = Some i" "i < length xs"
      using assms \<open>v = Some x\<close> by (auto simp: point_def in_bounds_def)
    then show ?thesis using Some \<open>v = Some x\<close>
      by (auto simp: in_bounds_def distinct_ptrs_def map_option_case split: option.splits)
  qed
qed

lemma point_same: "in_bounds xs p \<Longrightarrow> point xs p (map_option (nth xs) p) = (xs, p)"
  by (auto simp: point_def in_bounds_def split: option.splits)

text \<open>The records of a server are allocated; those of two servers are different ones.\<close>

definition in_heap :: "Heap \<Rightarrow> ServerRef \<Rightarrow> bool" where
  "in_heap h r \<longleftrightarrow> in_bounds (hp_Discovery h) (ref_Discovery r) \<and>
     in_bounds (hp_Healthcheck h) (ref_Healthcheck r) \<and> in_bounds (hp_Sni h) (ref_Sni r)"

definition apart :: "ServerRef \<Rightarrow> ServerRef \<Rightarrow> bool" where
  "apart q r \<longleftrightarrow> distinct_ptrs (ref_Discovery q) (ref_Discovery r) \<and>
     distinct_ptrs (ref_Healthcheck q) (ref_Healthcheck r) \<and> distinct_ptrs (ref_Sni q) (ref_Sni r)"

lemma apart_sym: "apart q r \<longleftrightarrow> apart r q"
  by (auto simp: apart_def distinct_ptrs_def)

lemma load_same: "ref_val q = ref_val r \<Longrightarrow> map_option (nth (hp_Discovery h)) (ref_Discovery q) = map_option (nth (hp_Discovery h')) (ref_Discovery r) \<Longrightarrow>
  map_option (nth (hp_Healthcheck h)) (ref_Healthcheck q) = map_option (nth (hp_Healthcheck h')) (ref_Healthcheck r) \<Longrightarrow>
  map_option (nth (hp_Sni h)) (ref_Sni q) = map_option (nth (hp_Sni h')) (ref_Sni r) \<Longrightarrow> load h q = load h' r"
  by (simp add: load_def)

lemma repoint_spec:
  assumes "repoint h r s = (h', r')" and "in_heap h r"
  shows "load h' r' = s \<and> in_heap h' r' \<and> (\<forall>q. in_heap h q \<longrightarrow> in_heap h' q) \<and>
    (\<forall>q. in_heap h q \<and> apart q r \<longrightarrow> load h' q = load h q \<and> apart q r')"
proof -
  obtain ds d hcs hc ns n where p: "point (hp_Discovery h) (ref_Discovery r) (srv_Discovery s) = (ds, d)"
    "point (hp_Healthcheck h) (ref_Healthcheck r) (srv_Healthcheck s) = (hcs, hc)"
    "point (hp_Sni h) (ref_Sni r) (srv_Sni s) = (ns, n)" by (meson surj_pair)
  then have h': "h' = \<lparr>hp_Discovery = ds, hp_Healthcheck = hcs, hp_Sni = ns\<rparr>"
    "r' = \<lparr>ref_val = s, ref_Discovery = d, ref_Healthcheck = hc, ref_Sni = n\<rparr>"
    using assms(1) by (auto simp: repoint_def)
  have b: "in_bounds (hp_Discovery h) (ref_Discovery r)" "in_bounds (hp_Healthcheck h) (ref_Healthcheck r)"
    "in_bounds (hp_Sni h) (ref_Sni r)" using assms(2) by (simp_all add: in_heap_def)
  note spec = point_spec [OF p(1) b(1)] point_spec [OF p(2) b(2)] point_spec [OF p(3) b(3)]
  show ?thesis using spec by (simp add: h' load_def in_heap_def apart_def)
qed

text \<open>Writing a server back where it was read leaves the heap as it is.\<close>

lemma repoint_load:
  assumes "in_heap h r"
  shows "repoint h r (load h r) = (h, r\<lparr>ref_val := load h r\<rparr>)"
  using assms by (simp add: repoint_def load_def point_same in_heap_def)

lemma load_update [simp]: "load h (r\<lparr>ref_val := load h r\<rparr>) = load h r"
  by (simp add: load_def)

lemma refs_update [simp]: "in_heap h (r\<lparr>ref_val := s\<rparr>) = in_heap h r" "apart q (r\<lparr>ref_val := s\<rparr>) = apart q r"
  by (simp_all add: in_heap_def apart_def)

section \<open>Lists of servers\<close>

definition loads :: "Heap \<Rightarrow> (string \<times> ServerRef) list \<Rightarrow> (string \<times> Server) list" where
  "loads h rs = map (\<lambda>(n, r). (n, load h r)) rs"

definition separate :: "Heap \<Rightarrow> (string \<times> ServerRef) list \<Rightarrow> bool" where
  "separate h rs \<longleftrightarrow> (\<forall>p\<in>set rs. in_heap h (snd p)) \<and> sorted_wrt (\<lambda>p q. apart (snd p) (snd q)) rs"

text \<open>\<open>h'\<close> extends \<open>h\<close>: what is apart from the records of \<open>rs\<close> reads as before.\<close>

definition extends :: "Heap \<Rightarrow> (string \<times> ServerRef) list \<Rightarrow> Heap \<Rightarrow> bool" where
  "extends h rs h' \<longleftrightarrow> (\<forall>q. in_heap h q \<longrightarrow> in_heap h' q \<and> ((\<forall>p\<in>set rs. apart q (snd p)) \<longrightarrow> load h' q = load h q))"

lemma loads_simps [simp]: "loads h [] = []" "loads h ((n, r) # rs) = (n, load h r) # loads h rs"
  by (simp_all add: loads_def)

lemma loads_names [simp]: "map fst (loads h rs) = map fst rs"
  by (auto simp: loads_def)

lemma loads_eq: "(\<And>n r. (n, r) \<in> set rs \<Longrightarrow> load h' r = load h r) \<Longrightarrow> loads h' rs = loads h rs"
  by (auto simp: loads_def)

lemma fresh_refs_spec:
  "fresh_refs ss h = (h', rs) \<Longrightarrow> loads h' rs = ss \<and> separate h' rs \<and> extends h [] h' \<and>
   (\<forall>q. in_heap h q \<longrightarrow> (\<forall>p\<in>set rs. apart q (snd p)))"
proof (induction ss arbitrary: h rs)
  case (Cons p ss)
  obtain n s where p: "p = (n, s)" by fastforce
  obtain h1 r where f: "fresh_ref h s = (h1, r)" by fastforce
  obtain rs1 where g: "fresh_refs ss h1 = (h', rs1)" "rs = (n, r) # rs1"
    using Cons.prems f p by (auto split: prod.splits)
  let ?none = "\<lparr>ref_val = s, ref_Discovery = None, ref_Healthcheck = None, ref_Sni = None\<rparr>"
  have none: "in_heap h ?none" "\<And>q. apart q ?none" by (simp_all add: in_heap_def in_bounds_def apart_def distinct_ptrs_def)
  note spec = repoint_spec [OF f [unfolded fresh_ref_def] none(1)]
  note IH = Cons.IH [OF g(1)]
  have r: "load h' r = load h1 r" "in_heap h' r" "\<forall>x\<in>set rs1. apart r (snd x)"
    using IH spec by (auto simp: extends_def)
  have "in_heap h1 q \<and> load h1 q = load h q \<and> apart q r" if "in_heap h q" for q
    using spec none(2) that by blast
  then show ?case using IH spec r g(2) p by (auto simp: separate_def extends_def)
qed (simp add: separate_def extends_def)

lemma separate_Cons:
  "separate h ((n, r) # rs) \<longleftrightarrow> in_heap h r \<and> (\<forall>p\<in>set rs. apart r (snd p)) \<and> separate h rs"
  by (auto simp: separate_def)

lemma extends_trans: "extends h rs h1 \<Longrightarrow> extends h1 rs' h' \<Longrightarrow> extends h (rs @ rs') h'"
  by (auto simp: extends_def)

lemma extends_separate:
  assumes "extends h [(n, r)] h1" and "\<forall>p\<in>set rs. apart r (snd p)" and "separate h rs"
  shows "separate h1 rs \<and> loads h1 rs = loads h rs"
proof -
  have "in_heap h1 (snd p) \<and> load h1 (snd p) = load h (snd p)" if "p \<in> set rs" for p
    using assms that apart_sym by (auto simp: extends_def separate_def)
  then show ?thesis using assms(3) by (auto simp: separate_def loads_def)
qed

section \<open>Expansion and preparation\<close>

definition single_bind :: "Server \<Rightarrow> bool" where
  "single_bind s \<longleftrightarrow> elems (srv_Binds s) = [] \<and> elems (srv_BindIPs s) = [] \<and> elems (srv_BindPorts s) = []"

lemma single_bind_load [simp]: "single_bind (load h r) = single_bind (ref_val r)"
  by (simp add: single_bind_def load_def)

definition read_refs :: "Heap \<Rightarrow> (string \<times> ServerRef) list \<Rightarrow> (string \<times> ServerRef) list" where
  "read_refs h rs = map (\<lambda>(n, r). (n, r\<lparr>ref_val := load h r\<rparr>)) rs"

lemma read_refs_simps [simp]:
  "map fst (read_refs h rs) = map fst rs" "loads h (read_refs h rs) = loads h rs"
  "separate h (read_refs h rs) = separate h rs"
  "(\<forall>p\<in>set (read_refs h rs). apart q (snd p)) = (\<forall>p\<in>set rs. apart q (snd p))"
  by (auto simp: read_refs_def loads_def separate_def sorted_wrt_map case_prod_beta apart_def)

lemma expand_single:
  assumes "in_heap h r" and "single_bind (ref_val r)"
  shows "expand_ref parse n r h = (h, Ok [(n, r\<lparr>ref_val := load h r\<rparr>)])"
proof -
  have s: "single_bind (load h r)" using assms(2) by simp
  then have "expandBinds parse n (load h r) = Ok [(n, load h r)]" by (simp add: expandBinds_def single_bind_def)
  then show ?thesis using s repoint_load [OF assms(1)] by (simp add: expand_ref_def single_bind_def)
qed

lemma rawExpandedServers_single:
  "\<forall>p\<in>set rs. in_heap h (snd p) \<and> single_bind (ref_val (snd p)) \<Longrightarrow> distinct (map fst (result @ rs)) \<Longrightarrow>
   rawExpandedServers parse rs result h = (h, Ok (result @ read_refs h rs))"
proof (induction rs arbitrary: result)
  case (Cons p rs)
  obtain n r where p: "p = (n, r)" by fastforce
  have "map_of result n = None" using Cons.prems(2) p by (auto simp: map_of_eq_None_iff)
  then show ?case using Cons.IH [of "result @ [(n, r\<lparr>ref_val := load h r\<rparr>)]"] Cons.prems p expand_single [of h r]
    by (simp add: read_refs_def)
qed (simp add: read_refs_def)

text \<open>\<open>P\<close> gives what each of the servers becomes when it is prepared.\<close>

definition prepares :: "prepare_env \<Rightarrow> ConnectionOptions \<Rightarrow> (string \<Rightarrow> Server \<Rightarrow> Server) \<Rightarrow> (string \<times> Server) list \<Rightarrow> bool" where
  "prepares env d P ss \<longleftrightarrow> (\<forall>p\<in>set ss. \<exists>raw. prepareConfig env (fst p) (snd p) d = (raw, Ok (P (fst p) (snd p))))"

lemma prepares_simps [simp]:
  "prepares env d P []" "prepares env d P ((n, s) # ss) \<longleftrightarrow> (\<exists>raw. prepareConfig env n s d = (raw, Ok (P n s))) \<and> prepares env d P ss"
  by (auto simp: prepares_def)

definition outcomes :: "(string \<Rightarrow> Server \<Rightarrow> Server) \<Rightarrow> (string \<times> Server) list \<Rightarrow> (string \<times> Server) list" where
  "outcomes P ss = map (\<lambda>(n, s). (n, P n s)) ss"

lemma prepare_ref_spec:
  assumes "in_heap h r" and "prepareConfig env n (load h r) d = (raw, Ok s)"
  shows "\<exists>h' r'. prepare_ref env n r d h = (h', Ok r') \<and> load h' r' = s \<and> in_heap h' r' \<and>
    extends h [(n, r)] h' \<and> (\<forall>q. in_heap h q \<and> apart q r \<longrightarrow> apart q r')"
proof -
  obtain h' r' where rp: "repoint h r s = (h', r')" by fastforce
  then have "prepare_ref env n r d h = (h', Ok r')" using assms(2) by (simp add: prepare_ref_def)
  then show ?thesis using repoint_spec [OF rp assms(1)] by (auto simp: extends_def)
qed

lemma prepare_all_spec:
  "separate h rs \<Longrightarrow> prepares env d P (loads h rs) \<Longrightarrow>
   \<exists>h' ps. prepare_all env d rs h = (h', Ok ps) \<and> loads h' ps = outcomes P (loads h rs) \<and> extends h rs h'"
proof (induction rs arbitrary: h)
  case Nil
  then show ?case by (simp add: outcomes_def extends_def)
next
  case (Cons p rs)
  obtain n r where p: "p = (n, r)" by fastforce
  obtain raw where raw: "prepareConfig env n (load h r) d = (raw, Ok (P n (load h r)))"
    using Cons.prems(2) p by auto
  have sep: "in_heap h r" "\<forall>p\<in>set rs. apart r (snd p)" "separate h rs"
    using Cons.prems(1) p by (auto simp: separate_Cons)
  obtain h1 r1 where r1: "prepare_ref env n r d h = (h1, Ok r1)" "load h1 r1 = P n (load h r)" "in_heap h1 r1"
    "extends h [(n, r)] h1" "\<And>q. in_heap h q \<Longrightarrow> apart q r \<Longrightarrow> apart q r1"
    using prepare_ref_spec [OF sep(1) raw] by blast
  note rest = extends_separate [OF r1(4) sep(2,3)]
  obtain h' ps where ps: "prepare_all env d rs h1 = (h', Ok ps)" "loads h' ps = outcomes P (loads h rs)" "extends h1 rs h'"
    using Cons.IH [of h1] rest Cons.prems(2) p by auto
  have "\<forall>p\<in>set rs. apart r1 (snd p)" using r1(5) sep(2,3) apart_sym by (metis separate_def)
  then have "load h' r1 = P n (load h r)" using ps(3) r1(2,3) by (simp add: extends_def)
  then show ?case using ps r1(1) p extends_trans [OF r1(4) ps(3)] by (simp add: outcomes_def)
qed

end
