(* ===== verification/Reload_Unchanged.thy ===== *)
theory Reload_Unchanged
  imports Server_Heap Manager_Properties
begin

text \<open>
  A reload whose configuration is the one the servers run with: the running servers hold prepared
  configurations behind pointers of their own, the reload prepares a fresh copy of the same text, and
  the plan compares equal values.
\<close>

section \<open>Starting the servers\<close>

text \<open>The discovery's constructor changes nothing in a configuration of this kind.\<close>

definition keeps_discovery :: "Server \<Rightarrow> bool" where
  "keeps_discovery s \<longleftrightarrow> (\<forall>d. srv_Discovery s = Some d \<longrightarrow> disc_Kind d \<noteq> ''json'' \<and> disc_Kind d \<noteq> ''plaintext'')"

lemma keeps_discovery_defaults:
  assumes "keeps_discovery s"
  shows "s\<lparr>srv_Discovery := map_option discovery_defaults (srv_Discovery s)\<rparr> = s"
proof -
  have "discovery_defaults d = d" if "srv_Discovery s = Some d" for d
  proof -
    have "\<forall>k. registry (disc_Kind d) = Some k \<longrightarrow> k \<noteq> KJson \<and> k \<noteq> KPlaintext"
      using assms that by (auto simp: keeps_discovery_def registry_def)
    then show ?thesis
      by (auto simp: discovery_defaults_def Discovery_New_def Let_def split: option.split discovery_kind.split)
  qed
  then show ?thesis by (cases "srv_Discovery s") auto
qed

definition runs :: "Manager \<Rightarrow> (string \<times> ServerRef) list" where
  "runs m = map (\<lambda>(n, s, r). (n, r)) (mg_servers m)"

lemma Manager_All_loads: "Manager_All m = loads (mg_heap m) (runs m)"
  by (auto simp: Manager_All_def loads_def runs_def)

lemma runs_heap [simp]: "runs (m\<lparr>mg_heap := h\<rparr>) = runs m" "runs (finish_reload rc m) = runs m"
  by (simp_all add: runs_def finish_reload_def)

lemma start_new_heap: "start_new env name r s m = (m', res) \<Longrightarrow> mg_heap m' = mg_heap m"
  by (auto simp: start_new_def split: prod.splits outcome.splits)

text \<open>A server that was created runs with what \<open>prepareConfig\<close> made of its configuration.\<close>

lemma create_server_loads:
  assumes "create_server env n r d m = (m', Ok u)" and "in_heap (mg_heap m) r"
    and "\<And>raw s. prepareConfig (me_prepare env) n (load (mg_heap m) r) d = (raw, Ok s) \<Longrightarrow> keeps_discovery s"
  shows "\<exists>raw s q. prepareConfig (me_prepare env) n (load (mg_heap m) r) d = (raw, Ok s) \<and>
    runs m' = (n, q) # runs m \<and> load (mg_heap m') q = s \<and> in_heap (mg_heap m') q \<and>
    extends (mg_heap m) [(n, r)] (mg_heap m') \<and> (\<forall>x. in_heap (mg_heap m) x \<and> apart x r \<longrightarrow> apart x q)"
proof -
  obtain h1 r1 where p: "prepare_ref (me_prepare env) n r d (mg_heap m) = (h1, Ok r1)"
    using assms(1) by (auto simp: create_server_def split: prod.splits outcome.splits option.splits if_splits)
  then obtain raw s where s: "prepareConfig (me_prepare env) n (load (mg_heap m) r) d = (raw, Ok s)"
    by (auto simp: prepare_ref_def split: prod.splits outcome.splits)
  have r1: "load h1 r1 = s" "in_heap h1 r1" "extends (mg_heap m) [(n, r)] h1"
    "\<And>x. in_heap (mg_heap m) x \<Longrightarrow> apart x r \<Longrightarrow> apart x r1"
    using prepare_ref_spec [OF assms(2) s] p by auto
  let ?q = "r1\<lparr>ref_val := s\<rparr>"
  have "repoint h1 r1 (load h1 r1\<lparr>srv_Discovery := map_option discovery_defaults (srv_Discovery (load h1 r1))\<rparr>) = (h1, ?q)"
    using repoint_load [OF r1(2)] keeps_discovery_defaults [OF assms(3) [OF s]] r1(1) by simp
  then obtain sto srv m1 where n: "m1 = m\<lparr>mg_heap := h1, mg_store := sto\<rparr>" "start_new env n ?q srv m1 = (m', Ok u)"
    using assms(1) p r1(1)
    by (auto simp: create_server_def Let_def split: prod.splits outcome.splits option.splits if_splits)
  have "runs m' = (n, ?q) # runs m" using start_new_cases [OF n(2)] n(1) by (auto simp: runs_def)
  moreover have "mg_heap m' = h1" using start_new_heap [OF n(2)] n(1) by simp
  moreover have "load h1 ?q = s" using load_update [of h1 r1] r1(1) by simp
  ultimately show ?thesis using s r1(2-4) by (intro exI [of _ raw] exI [of _ s] exI [of _ ?q]) simp
qed

text \<open>Starting a list of servers: each runs with what it would be prepared to alone.\<close>

lemma initialize_servers_loads:
  assumes "initialize_servers env rs m = (m', Ok u)" and "separate (mg_heap m) rs"
    and "\<forall>p\<in>set rs. single_bind (ref_val (snd p))"
    and "\<And>n s raw p. (n, s) \<in> set (loads (mg_heap m) rs) \<Longrightarrow>
      prepareConfig (me_prepare env) n s (mg_defaults m) = (raw, Ok p) \<Longrightarrow> keeps_discovery p \<and> P n s = p"
    and "\<forall>p\<in>set (runs m). in_heap (mg_heap m) (snd p) \<and> (\<forall>x\<in>set rs. apart (snd p) (snd x))"
  shows "prepares (me_prepare env) (mg_defaults m) P (loads (mg_heap m) rs) \<and>
    Manager_All m' = rev (outcomes P (loads (mg_heap m) rs)) @ Manager_All m \<and>
    (\<forall>p\<in>set (runs m'). in_heap (mg_heap m') (snd p)) \<and> extends (mg_heap m) rs (mg_heap m')"
  using assms
proof (induction rs arbitrary: m)
  case Nil
  then show ?case by (simp add: outcomes_def extends_def)
next
  case (Cons p rs)
  obtain n r where p: "p = (n, r)" by fastforce
  let ?r = "r\<lparr>ref_val := load (mg_heap m) r\<rparr>"
  have sep: "in_heap (mg_heap m) r" "\<forall>p\<in>set rs. apart r (snd p)" "separate (mg_heap m) rs"
    using Cons.prems(2) p by (auto simp: separate_Cons)
  have "expand_ref (me_template env) n r (mg_heap m) = (mg_heap m, Ok [(n, ?r)])"
    using expand_single [OF sep(1)] Cons.prems(3) p by simp
  then obtain m1 u1 where c: "create_server env n ?r (mg_defaults m) m = (m1, Ok u1)"
    "initialize_servers env rs m1 = (m', Ok u)"
    using Cons.prems(1) p by (auto split: prod.splits outcome.splits)
  have keeps: "keeps_discovery s \<and> P n (load (mg_heap m) r) = s"
    if "prepareConfig (me_prepare env) n (load (mg_heap m) ?r) (mg_defaults m) = (raw, Ok s)" for raw s
    using Cons.prems(4) [of n "load (mg_heap m) r" raw s] that p by simp
  obtain raw s q where q: "prepareConfig (me_prepare env) n (load (mg_heap m) r) (mg_defaults m) = (raw, Ok s)"
    "runs m1 = (n, q) # runs m" "load (mg_heap m1) q = s" "in_heap (mg_heap m1) q"
    "extends (mg_heap m) [(n, ?r)] (mg_heap m1)" "\<And>x. in_heap (mg_heap m) x \<Longrightarrow> apart x ?r \<Longrightarrow> apart x q"
    using create_server_loads [OF c(1)] sep(1) keeps by auto
  have ext: "extends (mg_heap m) [(n, r)] (mg_heap m1)" using q(5) by (simp add: extends_def)
  note rest = extends_separate [OF ext sep(2,3)]
  have defaults: "mg_defaults m1 = mg_defaults m" using create_server_cases [OF c(1)] by simp
  have old: "loads (mg_heap m1) (runs m) = loads (mg_heap m) (runs m)" "\<forall>p\<in>set (runs m). in_heap (mg_heap m1) (snd p)"
    using Cons.prems(5) ext p by (auto simp: extends_def intro!: loads_eq)
  have new: "\<forall>x\<in>set rs. apart q (snd x)" using q(6) sep(2,3) by (metis apart_sym refs_update(2) separate_def)
  have IH: "prepares (me_prepare env) (mg_defaults m) P (loads (mg_heap m) rs)"
    "Manager_All m' = rev (outcomes P (loads (mg_heap m) rs)) @ Manager_All m1"
    "\<forall>p\<in>set (runs m'). in_heap (mg_heap m') (snd p)" "extends (mg_heap m1) rs (mg_heap m')"
    using Cons.IH [OF c(2)] rest Cons.prems(3-5) defaults old(2) new q(2,4) p by auto
  have "P n (load (mg_heap m) r) = s" using keeps q(1) by simp
  moreover have "Manager_All m1 = (n, s) # Manager_All m" using q(2,3) old(1) by (simp add: Manager_All_loads)
  ultimately show ?case using IH q(1) extends_trans [OF ext IH(4)] p by (simp add: outcomes_def)
qed

section \<open>Reloading\<close>

lemma create_all_original: "create_all env raw d ns created m = (m', created', res) \<Longrightarrow> mg_originalCfg m' = mg_originalCfg m"
proof (induction ns arbitrary: created m)
  case (Cons n ns)
  show ?case
  proof (cases "map_of raw n")
    case (Some r)
    obtain m1 r1 where c: "create_server env n r d m = (m1, r1)" by fastforce
    then have "mg_originalCfg m1 = mg_originalCfg m" using create_server_cases by blast
    then show ?thesis using Cons.prems Cons.IH [of _ m1] Some c by (cases r1) auto
  qed (use Cons.prems in simp)
qed simp

lemma initialize_servers_original: "initialize_servers env rs m = (m', Ok u) \<Longrightarrow> mg_originalCfg m' = mg_originalCfg m"
proof (induction rs arbitrary: m)
  case (Cons p rs)
  obtain n r where p: "p = (n, r)" by fastforce
  obtain h cs m1 c u1 where e: "expand_ref (me_template env) n r (mg_heap m) = (h, Ok cs)"
    "create_all env cs (mg_defaults m) (map fst cs) [] (m\<lparr>mg_heap := h\<rparr>) = (m1, c, Ok u1)"
    "initialize_servers env rs m1 = (m', Ok u)"
    using Cons.prems p by (auto split: prod.splits outcome.splits)
  show ?case using Cons.IH [OF e(3)] create_all_original [OF e(2)] by simp
qed simp

lemma planReload_same:
  assumes "mset current = mset desired" and "distinct (map fst current)"
  shows "empty_plan (planReload current desired)"
proof -
  have "mset (map fst current) = mset (map fst desired)" using assms(1) by simp
  then have d: "set current = set desired" "distinct (map fst desired)"
    using mset_eq_setD [OF assms(1)] mset_eq_imp_distinct_iff assms(2) by blast+
  then have "map_of current = map_of desired" using assms(2) map_of_inject_set by blast
  moreover have "map_of desired (fst p) = Some (snd p)" if "p \<in> set desired" for p
    using d(2) that by (metis map_of_is_SomeI prod.collapse)
  ultimately show ?thesis using d(1) by (auto simp: planReload_def empty_plan_def filter_empty_conv split: option.splits)
qed

text \<open>
  The manager between two reloads: each server of the list runs with what it is prepared to, and the
  records of the running and of the original configuration are allocated.
\<close>

definition settled :: "menv \<Rightarrow> ConnectionOptions \<Rightarrow> (string \<Rightarrow> Server \<Rightarrow> Server) \<Rightarrow> (string \<times> Server) list \<Rightarrow> Manager \<Rightarrow> bool" where
  "settled env d P ss m \<longleftrightarrow> prepares (me_prepare env) d P ss \<and> mset (Manager_All m) = mset (outcomes P ss) \<and>
     (\<forall>p\<in>set (runs m). in_heap (mg_heap m) (snd p)) \<and>
     (\<forall>p\<in>set (rc_servers (mg_originalCfg m)). in_heap (mg_heap m) (snd p) \<and> single_bind (ref_val (snd p))) \<and>
     distinct (map fst (rc_servers (mg_originalCfg m)))"

lemma fresh_refs_names: "fresh_refs ss h = (h', rs) \<Longrightarrow> map fst rs = map fst ss"
  using fresh_refs_spec [of ss h h' rs] loads_names by metis

lemma fresh_refs_single:
  "fresh_refs ss h = (h', rs) \<Longrightarrow> \<forall>p\<in>set ss. single_bind (snd p) \<Longrightarrow> \<forall>p\<in>set rs. single_bind (ref_val (snd p))"
proof
  fix p assume f: "fresh_refs ss h = (h', rs)" "\<forall>p\<in>set ss. single_bind (snd p)" "p \<in> set rs"
  have "(fst p, load h' (snd p)) \<in> set (loads h' rs)" using f(3) by (force simp: loads_def)
  then have "single_bind (load h' (snd p))" using f(2) fresh_refs_spec [OF f(1)] by fastforce
  then show "single_bind (ref_val (snd p))" by simp
qed

lemma reload_settled:
  assumes "settled env (normalizeDefaults (cfg_Defaults cfg)) P ss m"
    and "\<forall>p\<in>set ss. single_bind (snd p)" and "distinct (map fst ss)"
  shows "\<exists>m'. mg_step env (OpReload cfg ss) m = (m', Ok ()) \<and> mg_servers m' = mg_servers m \<and>
    settled env (normalizeDefaults (cfg_Defaults cfg)) P ss m'"
proof -
  let ?d = "normalizeDefaults (cfg_Defaults cfg)" and ?orig = "rc_servers (mg_originalCfg m)"
  obtain h rs where f: "fresh_refs ss (mg_heap m) = (h, rs)" by fastforce
  note fresh = fresh_refs_spec [OF f] fresh_refs_names [OF f] fresh_refs_single [OF f assms(2)]
  have sep: "separate h rs" and ss: "loads h rs = ss" and ext: "extends (mg_heap m) [] h"
    and others: "\<And>q. in_heap (mg_heap m) q \<Longrightarrow> \<forall>p\<in>set rs. apart q (snd p)" using fresh by auto
  have "\<forall>p\<in>set rs. in_heap h (snd p) \<and> single_bind (ref_val (snd p))" using sep fresh by (auto simp: separate_def)
  then have next_raw: "rawExpandedServers (me_template env) rs [] h = (h, Ok (read_refs h rs))"
    using rawExpandedServers_single [of rs h "[]"] fresh(2) assms(3) by simp
  obtain h1 ps where ps: "prepare_all (me_prepare env) ?d (read_refs h rs) h = (h1, Ok ps)"
    "loads h1 ps = outcomes P ss" "extends h (read_refs h rs) h1"
    using prepare_all_spec [of h "read_refs h rs" "me_prepare env" ?d P] sep ss assms(1) by (auto simp: settled_def)
  have keep: "in_heap h1 q \<and> load h1 q = load (mg_heap m) q" if "in_heap (mg_heap m) q" for q
    using ext ps(3) others [OF that] that by (simp add: extends_def)
  have orig: "\<forall>p\<in>set ?orig. in_heap h1 (snd p) \<and> single_bind (ref_val (snd p))" "distinct (map fst ?orig)"
    using assms(1) keep by (auto simp: settled_def)
  then have cur_raw: "rawExpandedServers (me_template env) ?orig [] h1 = (h1, Ok (read_refs h1 ?orig))"
    using rawExpandedServers_single [of ?orig h1 "[]"] by simp
  have all: "Manager_All (m\<lparr>mg_heap := h1\<rparr>) = Manager_All m"
  proof -
    have "\<forall>p\<in>set (runs m). in_heap (mg_heap m) (snd p)" using assms(1) by (simp add: settled_def)
    then have "loads h1 (runs m) = loads (mg_heap m) (runs m)" using keep by (intro loads_eq) force
    then show ?thesis by (simp add: Manager_All_loads)
  qed
  have names: "map fst (outcomes P ss) = map fst ss" by (auto simp: outcomes_def)
  have "distinct (map fst (Manager_All m))"
    using assms(1,3) names unfolding settled_def by (metis mset_map mset_eq_imp_distinct_iff)
  moreover have "map (\<lambda>(n, r). (n, load h1 r)) ps = outcomes P ss" using ps(2) by (simp add: loads_def)
  ultimately have plan: "empty_plan (planReload (Manager_All (m\<lparr>mg_heap := h1\<rparr>)) (map (\<lambda>(n, r). (n, load h1 r)) ps))"
    using planReload_same all assms(1) by (simp add: settled_def)
  let ?rc = "\<lparr>rc_cfg = cfg, rc_servers = rs\<rparr>"
  let ?m' = "finish_reload ?rc (m\<lparr>mg_heap := h1\<rparr>)"
  have "Reload env ?rc (m\<lparr>mg_heap := h\<rparr>) = (?m', Ok ())"
    using next_raw ps(1) cur_raw plan by (simp add: Reload_def reload_prepare_def Let_def)
  then have step: "mg_step env (OpReload cfg ss) m = (?m', Ok ())" using f by (simp add: decode_config_def)
  have m': "mg_heap ?m' = h1" "runs ?m' = runs m" "rc_servers (mg_originalCfg ?m') = rs" "Manager_All ?m' = Manager_All m"
    using all by (simp_all add: finish_reload_def mergeReloadableConfig_def Manager_All_def runs_def)
  have "\<forall>p\<in>set rs. in_heap h1 (snd p) \<and> single_bind (ref_val (snd p))"
    using sep ps(3) fresh(3) by (auto simp: separate_def extends_def)
  moreover have "\<forall>p\<in>set (runs m). in_heap h1 (snd p)" using assms(1) keep by (simp add: settled_def)
  moreover have "distinct (map fst rs)" using assms(3) fresh(2) by simp
  ultimately have "settled env ?d P ss ?m'"
    using assms(1) unfolding settled_def m' by blast
  then show ?thesis using step by (intro exI [of _ ?m']) (simp add: finish_reload_def)
qed

text \<open>What a server is prepared to.\<close>

definition prepared_as :: "prepare_env \<Rightarrow> ConnectionOptions \<Rightarrow> string \<Rightarrow> Server \<Rightarrow> Server" where
  "prepared_as env d name s = (case prepareConfig env name s d of (_, Ok p) \<Rightarrow> p | _ \<Rightarrow> s)"

lemma boot_settled:
  assumes "boot env cfg ss = (m, Ok u)" and "\<forall>p\<in>set ss. single_bind (snd p)" and "distinct (map fst ss)"
    and "\<forall>(n, s)\<in>set ss. keeps_discovery (prepared_as (me_prepare env) (normalizeDefaults (cfg_Defaults cfg)) n s)"
  shows "settled env (normalizeDefaults (cfg_Defaults cfg))
    (prepared_as (me_prepare env) (normalizeDefaults (cfg_Defaults cfg))) ss m"
proof -
  let ?d = "normalizeDefaults (cfg_Defaults cfg)"
  let ?P = "prepared_as (me_prepare env) ?d"
  have P: "keeps_discovery p \<and> ?P n s = p"
    if "(n, s) \<in> set ss" "prepareConfig (me_prepare env) n s ?d = (raw, Ok p)" for n s raw p
    using assms(4) that by (auto simp: prepared_as_def)
  obtain h rs where f: "fresh_refs ss empty_heap = (h, rs)" by fastforce
  note fresh = fresh_refs_spec [OF f] fresh_refs_names [OF f] fresh_refs_single [OF f assms(2)]
  define m0 where "m0 = \<lparr>mg_servers = [], mg_defaults = ?d,
      mg_originalCfg = \<lparr>rc_cfg = initConfigGlobals cfg, rc_servers = rs\<rparr>,
      mg_acme = NewAcmeService (initConfigGlobals cfg), mg_store = empty_store, mg_heap = h\<rparr>"
  have i: "initialize_servers env rs m0 = (m, Ok u)"
    using assms(1) f by (simp add: boot_def decode_config_def Initialize_def m0_def)
  have m0: "mg_heap m0 = h" "mg_defaults m0 = ?d" "runs m0 = []" "Manager_All m0 = []"
    by (simp_all add: m0_def runs_def Manager_All_def)
  have r: "prepares (me_prepare env) ?d ?P ss" "Manager_All m = rev (outcomes ?P ss)"
    "\<forall>p\<in>set (runs m). in_heap (mg_heap m) (snd p)" "extends h rs (mg_heap m)"
    using initialize_servers_loads [OF i, of ?P] fresh m0 P by auto
  have "mg_originalCfg m = mg_originalCfg m0" by (rule initialize_servers_original [OF i])
  then have "rc_servers (mg_originalCfg m) = rs" by (simp add: m0_def)
  then show ?thesis using r fresh assms(3) by (auto simp: settled_def separate_def extends_def)
qed

section \<open>A discovery that writes its defaults\<close>

definition plaintext_server :: Server where
  "plaintext_server = (raw_server 1 sample_healthcheck)\<lparr>srv_Discovery := Some (sample_discovery\<lparr>disc_Kind := ''plaintext'',
     disc_Plaintext := Some \<lparr>PlaintextEndpoint = ''http://h/'', PlaintextRegexpPattern = []\<rparr>\<rparr>)\<rparr>"

text \<open>The plaintext constructor writes the default pattern through the embedded pointer into the
  configuration that the running server shows. So a reload of the very same text finds a difference
  and replaces the server: it succeeds, but the server is a new one with a statistics handler of its
  own, and the connections of the old one are dropped.\<close>

theorem unchanged_reload_restarts_plaintext:
  "case boot sample_menv sample_cfg [(''a'', plaintext_server)] of (m, res) \<Rightarrow> res = Ok () \<and>
     (case mg_step sample_menv (OpReload sample_cfg [(''a'', plaintext_server)]) m of (m', res') \<Rightarrow> res' = Ok () \<and>
        map (\<lambda>(n, s, r). (n, as_handler s)) (mg_servers m) = [(''a'', 0)] \<and>
        map (\<lambda>(n, s, r). (n, as_handler s)) (mg_servers m') = [(''a'', 1)])"
  by code_simp

end
