(* ===== verification/Cli_Properties.thy ===== *)
theory Cli_Properties
  imports Cli Api_Properties Reload_Unchanged
begin

text \<open>
  The properties of the process from its command line on: what a running process remembers, and what
  the signals that make it reload do to it.
\<close>

section \<open>A running process\<close>

text \<open>A process that runs was asked to by its arguments or by GOBETWEEN, never by both; it runs what
  its loader gave, in a state of the process model; it shows where the configuration came from, its pid
  file, if one was asked for, holds its pid, and the loader it will use for every reload is the one it
  was started with: a reload is never refused for want of a loader.\<close>

theorem running_process:
  assumes "main env = (ps, Running app)"
  shows "\<exists>iv loader cfg servers.
    (pr_GOBETWEEN env = [] \<and> pr_parse env (tl (pr_args env)) = Some iv \<or>
     length (pr_args env) \<le> 1 \<and> Option.bind (pr_decode_args env (pr_GOBETWEEN env)) (pr_parse env) = Some iv) \<and>
    asked (iv_command iv) (iv_args iv) (iv_flags iv) = Some loader \<and>
    LoadConfig (loader_of env (iv_flags iv)) (Some loader) = Ok (cfg, servers) \<and>
    main_start (pr_app env) cfg servers = Ok app \<and> app_reachable (pr_app env) app \<and>
    ps_info ps = Some (origin_of loader) \<and>
    ps_pidfile ps = (if fl_pidFilePath (iv_flags iv) = [] then None
      else Some (fl_pidFilePath (iv_flags iv), Itoa (pr_pid env))) \<and>
    (\<forall>env' app'. hangup env' ps app' = reloadOnSignal (pr_app env') (loader_of env' (iv_flags iv)) (Some loader) app')"
proof -
  obtain args iv loader cfg servers where r: "given_args env = Some args" "pr_parse env args = Some iv"
    "ps_flags ps = iv_flags iv" "asked (iv_command iv) (iv_args iv) (iv_flags iv) = ps_loader ps"
    "ps_info ps = map_option origin_of (ps_loader ps)" "ps_loader ps = Some loader"
    "ps_pidfile ps = (if fl_pidFilePath (iv_flags iv) = [] then None
      else Some (fl_pidFilePath (iv_flags iv), Itoa (pr_pid env)))"
    "LoadConfig (loader_of env (ps_flags ps)) (Some loader) = Ok (cfg, servers)"
    "main_start (pr_app env) cfg servers = Ok app"
    using main_Running [OF assms] by blast
  moreover have "pr_GOBETWEEN env = [] \<and> pr_parse env (tl (pr_args env)) = Some iv \<or>
     length (pr_args env) \<le> 1 \<and> Option.bind (pr_decode_args env (pr_GOBETWEEN env)) (pr_parse env) = Some iv"
    using r(1,2) by (auto simp: given_args_def split: if_splits)
  moreover have "app_reachable (pr_app env) app" using r(9) by (rule app_start)
  ultimately show ?thesis
    by (intro exI [of _ iv] exI [of _ loader] exI [of _ cfg] exI [of _ servers]) (auto simp: hangup_def)
qed

text \<open>A process on a small machine: the configuration is a file, and an old pid file is left over.\<close>

definition sample_servers :: "(string \<times> Server) list" where
  "sample_servers = [(''a'', raw_server 1 sample_healthcheck)]"

definition sample_invocation :: invocation where
  "sample_invocation = \<lparr>iv_command = FromFileCmd, iv_args = [''gb.toml''],
     iv_flags = default_flags\<lparr>fl_pidFilePath := ''gb.pid''\<rparr>\<rparr>"

definition sample_process :: process_env where
  "sample_process = \<lparr>pr_app = sample_app_env, pr_args = [''gobetween'', ''from-file'', ''gb.toml''], pr_GOBETWEEN = [],
     pr_decode_args = (\<lambda>_. None),
     pr_parse = (\<lambda>args. if args = [''from-file'', ''gb.toml''] then Some sample_invocation else None),
     pr_getenv = (\<lambda>_. []), pr_codec = \<lparr>cd_toml = (\<lambda>_. Some (sample_cfg, sample_servers)), cd_json = (\<lambda>_. None)\<rparr>,
     pr_read_file = (\<lambda>path. if path = ''gb.toml'' then Some [] else None), pr_http_get = (\<lambda>_. None),
     pr_consul = (\<lambda>_ _ _. None), pr_pid_file = (\<lambda>_. (True, Some ''77'')), pr_can_write = (\<lambda>_. True),
     pr_alive = (\<lambda>_. False), pr_pid = 123\<rparr>"

lemma sample_process_runs:
  "\<exists>ps app. main sample_process = (ps, Running app) \<and> ps_flags ps = iv_flags sample_invocation \<and>
     ps_loader ps = Some (FromFile ''gb.toml'')"
proof -
  have "case main sample_process of
      (ps, Running app) \<Rightarrow> ps_flags ps = iv_flags sample_invocation \<and> ps_loader ps = Some (FromFile ''gb.toml'')
    | _ \<Rightarrow> False" by code_simp
  then show ?thesis by (auto split: prod.splits ending.splits)
qed

theorem running_process_witness:
  "\<exists>ps app. main sample_process = (ps, Running app) \<and> app_reachable sample_app_env app \<and>
     ps_pidfile ps = Some (''gb.pid'', ''123'') \<and> ps_info ps = Some (InfoFile ''gb.toml'')"
proof -
  obtain ps app where m: "main sample_process = (ps, Running app)" using sample_process_runs by blast
  have parse: "pr_parse sample_process (tl (pr_args sample_process)) = Some sample_invocation"
    "pr_decode_args sample_process = (\<lambda>_. None)" "pr_app sample_process = sample_app_env"
    by (simp_all add: sample_process_def)
  have vals: "asked (iv_command sample_invocation) (iv_args sample_invocation) (iv_flags sample_invocation) =
      Some (FromFile ''gb.toml'')" "fl_pidFilePath (iv_flags sample_invocation) = ''gb.pid''"
    "Itoa (pr_pid sample_process) = ''123''" by code_simp+
  from running_process [OF m] m parse vals show ?thesis by (auto simp: origin_of_def)
qed

section \<open>Signals while nothing has changed\<close>

text \<open>The process after \<open>k\<close> signals, with what each reload returned.\<close>

fun hangups :: "nat \<Rightarrow> process_env \<Rightarrow> Process \<Rightarrow> App \<Rightarrow> App \<times> unit outcome list" where
  "hangups 0 env ps app = (app, [])"
| "hangups (Suc k) env ps app =
     (let (app1, res) = hangup env ps app; (app2, rest) = hangups k env ps app1 in (app2, res # rest))"

lemma Logging_Configure_again:
  "Logging_Configure can_open level_ok cfg initial_logger = Ok lg \<Longrightarrow> Logging_Configure can_open level_ok cfg lg = Ok lg"
  by (auto simp: Logging_Configure_def initial_logger_def Let_def split: if_splits)

lemma hangup_settled:
  assumes "LoadConfig (loader_of env (ps_flags ps)) (ps_loader ps) = Ok (cfg, ss)"
    and "\<forall>p\<in>set ss. single_bind (snd p)" and "distinct (map fst ss)"
    and "settled (ae_manager (an_api (pr_app env))) (normalizeDefaults (cfg_Defaults cfg)) P ss (ap_manager app)"
    and "Logging_Configure (an_can_open (pr_app env)) (an_level_ok (pr_app env)) (cfg_Logging cfg) (ap_logger app)
      = Ok (ap_logger app)"
  shows "\<exists>m. hangup env ps app = (app\<lparr>ap_manager := m\<rparr>, Ok ()) \<and> mg_servers m = mg_servers (ap_manager app) \<and>
    settled (ae_manager (an_api (pr_app env))) (normalizeDefaults (cfg_Defaults cfg)) P ss m"
proof -
  obtain m where m: "mg_step (ae_manager (an_api (pr_app env))) (OpReload cfg ss) (ap_manager app) = (m, Ok ())"
    "mg_servers m = mg_servers (ap_manager app)"
    "settled (ae_manager (an_api (pr_app env))) (normalizeDefaults (cfg_Defaults cfg)) P ss m"
    using reload_settled [OF assms(4,2,3)] by blast
  then show ?thesis using assms(1,5) by (intro exI [of _ m]) (simp add: hangup_def reloadOnSignal_def del: mg_step.simps)
qed

lemma hangups_settled:
  assumes "LoadConfig (loader_of env (ps_flags ps)) (ps_loader ps) = Ok (cfg, ss)"
    and "\<forall>p\<in>set ss. single_bind (snd p)" and "distinct (map fst ss)"
    and "settled (ae_manager (an_api (pr_app env))) (normalizeDefaults (cfg_Defaults cfg)) P ss (ap_manager app)"
    and "Logging_Configure (an_can_open (pr_app env)) (an_level_ok (pr_app env)) (cfg_Logging cfg) (ap_logger app)
      = Ok (ap_logger app)"
  shows "\<exists>m. hangups k env ps app = (app\<lparr>ap_manager := m\<rparr>, replicate k (Ok ())) \<and>
    mg_servers m = mg_servers (ap_manager app)"
  using assms(4,5)
proof (induction k arbitrary: app)
  case (Suc k)
  from hangup_settled [OF assms(1-3) Suc.prems] obtain m where
    m: "hangup env ps app = (app\<lparr>ap_manager := m\<rparr>, Ok ())" "mg_servers m = mg_servers (ap_manager app)"
    "settled (ae_manager (an_api (pr_app env))) (normalizeDefaults (cfg_Defaults cfg)) P ss m" by blast
  from Suc.IH [of "app\<lparr>ap_manager := m\<rparr>"] Suc.prems(2) m show ?case by auto
next
  case 0
  then show ?case by (intro exI [of _ "ap_manager app"]) simp
qed



end
