(* ===== verification/Stopping.thy ===== *)
theory Stopping
  imports Scheduler_Correct Stats
begin

text \<open>
  How a server is stopped: its own goroutine, which stops the scheduler and the statistics handler one
  after the other (src/src/server/tcp/server.go and src/src/server/udp/server.go), the scheduler with
  what it sends to the handler (src/src/server/scheduler/scheduler.go, src/src/stats/handler.go), and the
  packet loop of a UDP server. All channels are unbuffered; stopping the handler closes three of those
  it receives from, and a send on a closed channel panics, while a send that nobody receives blocks.
\<close>

section \<open>The goroutines\<close>

text \<open>The stop branches of the two servers; what follows them in the TCP server closes connections only.\<close>

datatype stop_action = StopScheduler | StopStats | CloseListener | LockSessions

definition tcp_branch :: "stop_action list" where
  "tcp_branch = [StopScheduler, StopStats, CloseListener]"

definition udp_branch :: "stop_action list" where
  "udp_branch = [CloseListener, StopStats, StopScheduler, LockSessions]"

text \<open>
  The packet loop, for a packet that needs a new session: it takes the mutex, asks for a backend,
  registers with the scheduler and reports the number of sessions to the statistics handler.
\<close>

datatype packet_loop = Reading | Locking | Electing Context | Registering Backend | Reporting nat | LoopEnded

definition holds_mutex :: "packet_loop \<Rightarrow> bool" where
  "holds_mutex l = (case l of Electing _ \<Rightarrow> True | Registering _ \<Rightarrow> True | Reporting _ \<Rightarrow> True | _ \<Rightarrow> False)"

text \<open>
  \<open>sp_sends\<close>: what the scheduler's current branch has still to send to the handler. \<open>sp_todo\<close>: the rest
  of the server's stop branch, \<open>None\<close> before it was told to stop.
\<close>

record Stopping =
  sp_scheduler :: Scheduler
  sp_sends :: "sched_effect list"
  sp_handler :: Handler
  sp_branch :: "stop_action list"
  sp_todo :: "stop_action list option"
  sp_loop :: packet_loop

definition to_handler :: "sched_effect \<Rightarrow> bool" where
  "to_handler e = (case e of CountersIn _ \<Rightarrow> True | StatsBackends _ \<Rightarrow> True | Traffic _ \<Rightarrow> True | _ \<Rightarrow> False)"

text \<open>What the running handler and its counters do with a value.\<close>

definition take_send :: "sched_effect \<Rightarrow> Handler \<Rightarrow> Handler" where
  "take_send e h = (case e of
       CountersIn ts \<Rightarrow> h\<lparr>hd_BackendsCounter := fst (UpdateCounters ts (hd_BackendsCounter h))\<rparr>
     | StatsBackends bs \<Rightarrow> handler_backends bs h
     | Traffic rwc \<Rightarrow> handler_traffic rwc h
     | _ \<Rightarrow> h)"

text \<open>The stop closes \<open>Traffic\<close> and \<open>Connections\<close>, and \<open>In\<close> of the backends' counter, but not \<open>Backends\<close>.\<close>

definition closed_by_stop :: "sched_effect \<Rightarrow> bool" where
  "closed_by_stop e = (case e of CountersIn _ \<Rightarrow> True | Traffic _ \<Rightarrow> True | _ \<Rightarrow> False)"

definition stopped_handler :: "Handler \<Rightarrow> Handler" where
  "stopped_handler h = h\<lparr>hd_running := False, hd_closed := True, hd_BackendsCounter := Map.empty\<rparr>"

text \<open>The process panics: the scheduler or the packet loop is at a send on a closed channel.\<close>

definition crashed :: "Stopping \<Rightarrow> bool" where
  "crashed s \<longleftrightarrow> hd_closed (sp_handler s) \<and>
     ((\<exists>e es. sp_sends s = e # es \<and> closed_by_stop e) \<or> (\<exists>n. sp_loop s = Reporting n))"

text \<open>The address is still bound.\<close>

definition listening :: "Stopping \<Rightarrow> bool" where
  "listening s \<longleftrightarrow> (\<forall>todo. sp_todo s = Some todo \<longrightarrow> CloseListener \<in> set todo)"

section \<open>Steps\<close>

text \<open>
  The scheduler takes a turn only when its sends are done. \<open>Stop\<close> sends the request and returns as soon
  as it is received. Packets arrive until the socket is closed. A packet whose election fails releases
  the mutex.
\<close>

inductive stopping_step :: "regexp \<Rightarrow> Stopping \<Rightarrow> Stopping \<Rightarrow> bool" for re where
  turn: "sp_sends s = [] \<Longrightarrow> ev \<noteq> EvStop \<Longrightarrow> sched_step re (sp_scheduler s) ev sch effs \<Longrightarrow>
    stopping_step re s (s\<lparr>sp_scheduler := sch, sp_sends := filter to_handler effs\<rparr>)"
| deliver: "sp_sends s = e # es \<Longrightarrow> hd_running (sp_handler s) \<Longrightarrow>
    stopping_step re s (s\<lparr>sp_sends := es, sp_handler := take_send e (sp_handler s)\<rparr>)"
| request: "sp_todo s = None \<Longrightarrow> stopping_step re s (s\<lparr>sp_todo := Some (sp_branch s)\<rparr>)"
| stop_stats: "sp_todo s = Some (StopStats # rest) \<Longrightarrow> hd_running (sp_handler s) \<Longrightarrow>
    stopping_step re s (s\<lparr>sp_todo := Some rest, sp_handler := stopped_handler (sp_handler s)\<rparr>)"
| stop_scheduler: "sp_todo s = Some (StopScheduler # rest) \<Longrightarrow> sp_sends s = [] \<Longrightarrow>
    sched_step re (sp_scheduler s) EvStop sch effs \<Longrightarrow>
    stopping_step re s (s\<lparr>sp_todo := Some rest, sp_scheduler := sch\<rparr>)"
| close_listener: "sp_todo s = Some (CloseListener # rest) \<Longrightarrow> stopping_step re s (s\<lparr>sp_todo := Some rest\<rparr>)"
| lock_sessions: "sp_todo s = Some (LockSessions # rest) \<Longrightarrow> \<not> holds_mutex (sp_loop s) \<Longrightarrow>
    stopping_step re s (s\<lparr>sp_todo := Some rest\<rparr>)"
| packet: "sp_loop s = Reading \<Longrightarrow> listening s \<Longrightarrow> stopping_step re s (s\<lparr>sp_loop := Locking\<rparr>)"
| loop_end: "sp_loop s = Reading \<Longrightarrow> \<not> listening s \<Longrightarrow> stopping_step re s (s\<lparr>sp_loop := LoopEnded\<rparr>)"
| lock: "sp_loop s = Locking \<Longrightarrow> stopping_step re s (s\<lparr>sp_loop := Electing ctx\<rparr>)"
| elected: "sp_loop s = Electing ctx \<Longrightarrow> sp_sends s = [] \<Longrightarrow>
    sched_step re (sp_scheduler s) (EvElect ctx) sch effs \<Longrightarrow> ElectResponse b \<in> set effs \<Longrightarrow>
    stopping_step re s (s\<lparr>sp_scheduler := sch, sp_loop := Registering b\<rparr>)"
| refused: "sp_loop s = Electing ctx \<Longrightarrow> sp_sends s = [] \<Longrightarrow>
    sched_step re (sp_scheduler s) (EvElect ctx) sch effs \<Longrightarrow> ElectErr e \<in> set effs \<Longrightarrow>
    stopping_step re s (s\<lparr>sp_scheduler := sch, sp_loop := Reading\<rparr>)"
| dial_failed: "sp_loop s = Registering b \<Longrightarrow> stopping_step re s (s\<lparr>sp_loop := Reading\<rparr>)"
| registered: "sp_loop s = Registering b \<Longrightarrow> sp_sends s = [] \<Longrightarrow>
    sched_step re (sp_scheduler s) (EvOp (Scheduler_IncrementConnection b)) sch effs \<Longrightarrow>
    stopping_step re s (s\<lparr>sp_scheduler := sch, sp_sends := filter to_handler effs, sp_loop := Reporting n\<rparr>)"
| reported: "sp_loop s = Reporting n \<Longrightarrow> hd_running (sp_handler s) \<Longrightarrow>
    stopping_step re s (s\<lparr>sp_loop := Reading, sp_handler := handler_connections (of_nat n) (sp_handler s)\<rparr>)"

text \<open>A process that has panicked is gone.\<close>

inductive stopping_run :: "regexp \<Rightarrow> Stopping \<Rightarrow> Stopping \<Rightarrow> bool" for re s where
  run_start: "stopping_run re s s"
| run_next: "stopping_run re s s' \<Longrightarrow> \<not> crashed s' \<Longrightarrow> stopping_step re s' s'' \<Longrightarrow> stopping_run re s s''"

text \<open>A server after its start.\<close>

definition started :: "stop_action list \<Rightarrow> packet_loop \<Rightarrow> Balancer \<Rightarrow> HealthcheckConfig \<Rightarrow> Handler \<Rightarrow> Stopping" where
  "started branch loop bal cfg h =
     \<lparr>sp_scheduler = Scheduler_start bal cfg, sp_sends = [], sp_handler = h\<lparr>hd_running := True, hd_closed := False\<rparr>,
      sp_branch = branch, sp_todo = None, sp_loop = loop\<rparr>"

section \<open>Lemmas\<close>

lemma stopping_run_trans: "stopping_run re s' s'' \<Longrightarrow> stopping_run re s s' \<Longrightarrow> stopping_run re s s''"
  by (induction rule: stopping_run.induct) (auto intro: run_next)

lemma sched_step_running:
  "sched_step re s ev s' effs \<Longrightarrow> sch_running s \<and> (sch_running s' \<longleftrightarrow> ev \<noteq> EvStop)"
  by (auto simp: sched_step_iff running_step)

lemma sched_step_wf: "sched_step re s ev s' effs \<Longrightarrow> wf_backends (sch_backends s) \<Longrightarrow> wf_backends (sch_backends s')"
  by (auto simp: sched_step_iff dest: sched_handle_wf)

lemma take_send_simps [simp]:
  "hd_running (take_send e h) = hd_running h" "hd_closed (take_send e h) = hd_closed h"
  by (auto simp: take_send_def handler_backends_def handler_traffic_def split: sched_effect.split)

lemma stopped_handler_simps [simp]:
  "\<not> hd_running (stopped_handler h)" "hd_closed (stopped_handler h)"
  by (simp_all add: stopped_handler_def)

lemma handler_connections_simps [simp]:
  "hd_running (handler_connections n h) = hd_running h" "hd_closed (handler_connections n h) = hd_closed h"
  by (simp_all add: handler_connections_def)

text \<open>The stop is the one of the store of handlers, and what a running handler takes is a step of it.\<close>

lemma Handler_stop_stopped: "i < length (sto_objs sto) \<Longrightarrow> sto_objs (Handler_stop i sto) ! i = stopped_handler (sto_objs sto ! i)"
  by (simp add: Handler_stop_def stopped_handler_def update_handler_def Let_def)

lemma take_send_step:
  assumes "hd_running h"
  shows "handler_step (GotBackends bs) h = Some (Ok (take_send (StatsBackends bs) h))"
    "handler_step (GotTraffic rwc) h = Some (Ok (take_send (Traffic rwc) h))"
  using assms by (simp_all add: handler_step_def take_send_def)

text \<open>What holds of every server: who runs follows from what is left of the stop branch.\<close>

definition stopping_inv :: "Stopping \<Rightarrow> bool" where
  "stopping_inv s \<longleftrightarrow> hd_closed (sp_handler s) = (\<not> hd_running (sp_handler s)) \<and>
     wf_backends (sch_backends (sp_scheduler s)) \<and>
     sch_running (sp_scheduler s) = (\<forall>todo. sp_todo s = Some todo \<longrightarrow> StopScheduler \<in> set todo) \<and>
     hd_running (sp_handler s) = (\<forall>todo. sp_todo s = Some todo \<longrightarrow> StopStats \<in> set todo) \<and>
     (\<forall>todo. sp_todo s = Some todo \<longrightarrow> distinct todo) \<and>
     (\<not> sch_running (sp_scheduler s) \<longrightarrow> sp_sends s = [])"

lemma stopping_step_branch: "stopping_step re s s' \<Longrightarrow> sp_branch s' = sp_branch s"
  by (induction rule: stopping_step.induct) auto

lemma stopping_step_inv:
  assumes "stopping_step re s s'" and "stopping_inv s"
    and "set (sp_branch s) \<supseteq> {StopScheduler, StopStats}" and "distinct (sp_branch s)"
  shows "stopping_inv s'"
  using assms
  by (induction rule: stopping_step.induct)
    (auto simp: stopping_inv_def dest: sched_step_running sched_step_wf)

lemma stopping_run_inv:
  assumes "stopping_run re s s'" and "stopping_inv s"
    and "set (sp_branch s) \<supseteq> {StopScheduler, StopStats}" and "distinct (sp_branch s)"
  shows "stopping_inv s' \<and> sp_branch s' = sp_branch s"
  using assms
proof (induction rule: stopping_run.induct)
  case (run_next s' s'')
  then show ?case using stopping_step_inv [OF run_next.hyps(3)] stopping_step_branch [OF run_next.hyps(3)] by simp
qed simp

lemma started_inv: "stopping_inv (started branch loop bal cfg h)"
  by (simp add: stopping_inv_def started_def Scheduler_start_def wf_backends_def)

text \<open>Turns that a running scheduler can always take.\<close>

lemma sched_can:
  assumes "sch_running s" and "wf_backends (sch_backends s)"
    and "\<And>order. sched_handle re (\<lambda>_. 0) order order ev s = Ok (s' order, effs order) \<and> sch_backends (s' order) = sch_backends s"
  shows "\<exists>order. sched_step re s ev (s' order) (effs order)"
proof -
  obtain order where "iteration_order order (sch_backends s)"
    using assms(2) finite_distinct_list [of "dom (sch_backends s)"] by (auto simp: wf_backends_def iteration_order_def)
  moreover have "intn_range (\<lambda>_. 0)" by (simp add: intn_range_def)
  ultimately show ?thesis using assms(1,3) by (auto intro!: exI [of _ order] step)
qed

lemma sched_can_stop:
  "sch_running s \<Longrightarrow> wf_backends (sch_backends s) \<Longrightarrow>
   sched_step re s EvStop (s\<lparr>sch_running := False\<rparr>) [DiscoveryStop, HealthcheckStop]"
  using sched_can [of s re EvStop "\<lambda>_. s\<lparr>sch_running := False\<rparr>" "\<lambda>_. [DiscoveryStop, HealthcheckStop]"]
  by (simp add: sched_handle_def)

lemma sched_can_push:
  "sch_running s \<Longrightarrow> wf_backends (sch_backends s) \<Longrightarrow> \<exists>bs. sched_step re s EvPush s [StatsBackends bs]"
  using sched_can [of s re EvPush "\<lambda>_. s" "\<lambda>order. [StatsBackends (Backends_snapshot order (sch_backends s))]"]
  by (auto simp: sched_handle_def)

lemma sched_can_traffic:
  assumes "sch_running s" and "wf_backends (sch_backends s)"
  shows "sched_step re s (EvOp (Scheduler_IncrementTx b c)) s [Traffic \<lparr>CountRead = 0, CountWrite = c, rwc_Target = Target b\<rparr>]"
  using sched_can [of s re "EvOp (Scheduler_IncrementTx b c)" "\<lambda>_. s"
      "\<lambda>_. [Traffic \<lparr>CountRead = 0, CountWrite = c, rwc_Target = Target b\<rparr>]"] assms
  by (simp add: sched_handle_def HandleOp_def Scheduler_IncrementTx_def)

text \<open>A running handler takes all that the scheduler is about to send.\<close>

lemma deliver_all:
  "stopping_inv s \<Longrightarrow> hd_running (sp_handler s) \<Longrightarrow>
   \<exists>h. stopping_run re s (s\<lparr>sp_sends := [], sp_handler := h\<rparr>) \<and> hd_running h \<and> \<not> hd_closed h"
proof (induction "sp_sends s" arbitrary: s)
  case Nil
  then have e: "s\<lparr>sp_sends := [], sp_handler := sp_handler s\<rparr> = s" by (cases s) simp
  have "stopping_run re s (s\<lparr>sp_sends := [], sp_handler := sp_handler s\<rparr>)" unfolding e by (rule run_start)
  moreover have "\<not> hd_closed (sp_handler s)" using Nil.prems by (simp add: stopping_inv_def)
  ultimately show ?case using Nil.prems(2) by blast
next
  case (Cons e es)
  let ?s = "s\<lparr>sp_sends := es, sp_handler := take_send e (sp_handler s)\<rparr>"
  have "stopping_step re s ?s" using Cons.hyps(2) Cons.prems(2) by (intro deliver) simp_all
  moreover have "\<not> crashed s" using Cons.prems by (simp add: crashed_def stopping_inv_def)
  ultimately have run: "stopping_run re s ?s" using run_next [OF run_start] by blast
  have "sp_sends s \<noteq> []" using Cons.hyps(2) by (metis list.distinct(1))
  then have "sch_running (sp_scheduler s)" using Cons.prems(1) unfolding stopping_inv_def by blast
  with Cons.prems(1) have "stopping_inv ?s" unfolding stopping_inv_def by simp
  with Cons.hyps(1) [of ?s] Cons.prems(2) obtain h where
    "stopping_run re ?s (?s\<lparr>sp_sends := [], sp_handler := h\<rparr>)" "hd_running h" "\<not> hd_closed h" by auto
  with stopping_run_trans [OF _ run] show ?case by (intro exI [of _ h]) simp
qed

section \<open>The TCP server\<close>

definition tcp_stopping :: "Stopping \<Rightarrow> bool" where
  "tcp_stopping s \<longleftrightarrow> stopping_inv s \<and> sp_branch s = tcp_branch \<and> sp_loop s = LoopEnded \<and>
     sp_todo s \<in> {None, Some tcp_branch, Some [StopStats, CloseListener], Some [CloseListener], Some []}"

lemma tcp_stopping_safe:
  assumes "tcp_stopping s"
  shows "\<not> crashed s"
proof -
  have "sp_todo s \<in> {None, Some [StopScheduler, StopStats, CloseListener], Some [StopStats, CloseListener],
      Some [CloseListener], Some []}" "stopping_inv s" "sp_loop s = LoopEnded"
    using assms by (simp_all add: tcp_stopping_def tcp_branch_def)
  then show ?thesis by (auto simp: stopping_inv_def crashed_def)
qed

lemma tcp_stopping_step:
  assumes "stopping_step re s s'" and "tcp_stopping s"
  shows "tcp_stopping s'"
proof -
  have i: "stopping_inv s'" using stopping_step_inv [OF assms(1)] assms(2) by (simp add: tcp_stopping_def tcp_branch_def)
  show ?thesis using assms i by (induction rule: stopping_step.induct) (auto simp: tcp_stopping_def tcp_branch_def)
qed

lemma tcp_stopping_run: "stopping_run re s s' \<Longrightarrow> tcp_stopping s \<Longrightarrow> tcp_stopping s'"
  by (induction rule: stopping_run.induct) (auto intro: tcp_stopping_step)

lemma tcp_stopping_next: "stopping_run re s s' \<Longrightarrow> tcp_stopping s \<Longrightarrow> stopping_step re s' s'' \<Longrightarrow> stopping_run re s s''"
  using tcp_stopping_run tcp_stopping_safe run_next by blast

text \<open>Once requested, a stop comes to its end, whatever the scheduler is sending.\<close>

lemma tcp_listener_last:
  assumes "tcp_stopping s" and "sp_todo s = Some [CloseListener]"
  shows "\<exists>s'. stopping_run re s s' \<and> sp_todo s' = Some []"
  using tcp_stopping_next [OF run_start assms(1) close_listener [OF assms(2)]] by (intro exI conjI) (assumption, simp)

lemma tcp_stats_next:
  assumes "tcp_stopping s" and "sp_todo s = Some [StopStats, CloseListener]"
  shows "\<exists>s'. stopping_run re s s' \<and> sp_todo s' = Some []"
proof -
  let ?s = "s\<lparr>sp_todo := Some [CloseListener], sp_handler := stopped_handler (sp_handler s)\<rparr>"
  have "hd_running (sp_handler s)" using assms by (simp add: tcp_stopping_def stopping_inv_def)
  from stop_stats [OF assms(2) this] have run: "stopping_run re s ?s"
    by (rule tcp_stopping_next [OF run_start assms(1)])
  then obtain s' where "stopping_run re ?s s'" "sp_todo s' = Some []"
    using tcp_listener_last [OF tcp_stopping_run [OF run assms(1)]] by auto
  with stopping_run_trans [OF _ run] show ?thesis by blast
qed

lemma tcp_stop_completes:
  assumes "tcp_stopping s" and "sp_todo s = Some todo"
  shows "\<exists>s'. stopping_run re s s' \<and> sp_todo s' = Some []"
proof -
  consider "todo = []" | "todo = [CloseListener]" | "todo = [StopStats, CloseListener]" | "todo = tcp_branch"
    using assms by (auto simp: tcp_stopping_def)
  then show ?thesis
  proof cases
    case 1
    then show ?thesis using run_start [of re s] assms(2) by blast
  next
    case 2
    then show ?thesis using tcp_listener_last assms by simp
  next
    case 3
    then show ?thesis using tcp_stats_next assms by simp
  next
    case 4
    then have r: "hd_running (sp_handler s)" "sch_running (sp_scheduler s)" "wf_backends (sch_backends (sp_scheduler s))"
      using assms by (auto simp: tcp_stopping_def stopping_inv_def tcp_branch_def)
    obtain h where h: "stopping_run re s (s\<lparr>sp_sends := [], sp_handler := h\<rparr>)"
      using deliver_all [OF _ r(1)] assms(1) by (auto simp: tcp_stopping_def)
    let ?s = "s\<lparr>sp_sends := [], sp_handler := h\<rparr>"
      and ?s' = "s\<lparr>sp_sends := [], sp_handler := h, sp_todo := Some [StopStats, CloseListener],
        sp_scheduler := (sp_scheduler s)\<lparr>sch_running := False\<rparr>\<rparr>"
    have "stopping_step re ?s ?s'"
      using stop_scheduler [of ?s "[StopStats, CloseListener]" re _ "[DiscoveryStop, HealthcheckStop]"] sched_can_stop [OF r(2,3)]
        assms(2) 4 by (simp add: tcp_branch_def)
    then have run: "stopping_run re s ?s'" by (rule tcp_stopping_next [OF h assms(1)])
    then obtain s'' where "stopping_run re ?s' s''" "sp_todo s'' = Some []"
      using tcp_stats_next [OF tcp_stopping_run [OF run assms(1)]] by auto
    with stopping_run_trans [OF _ run] show ?thesis by blast
  qed
qed

section \<open>The UDP server\<close>

text \<open>Two states that a stop never leaves.\<close>

definition mutex_stuck :: "Stopping \<Rightarrow> bool" where
  "mutex_stuck s \<longleftrightarrow> \<not> sch_running (sp_scheduler s) \<and> (\<exists>ctx. sp_loop s = Electing ctx) \<and>
     sp_todo s = Some [LockSessions]"

definition push_stuck :: "Stopping \<Rightarrow> bool" where
  "push_stuck s \<longleftrightarrow> (\<exists>bs es. sp_sends s = StatsBackends bs # es) \<and> \<not> hd_running (sp_handler s) \<and>
     sp_todo s = Some [StopScheduler, LockSessions]"

lemma mutex_stuck_step: "stopping_step re s s' \<Longrightarrow> mutex_stuck s \<Longrightarrow> mutex_stuck s'"
  by (induction rule: stopping_step.induct) (auto simp: mutex_stuck_def holds_mutex_def dest: sched_step_running)

lemma push_stuck_step: "stopping_step re s s' \<Longrightarrow> push_stuck s \<Longrightarrow> push_stuck s'"
  by (induction rule: stopping_step.induct) (auto simp: push_stuck_def)

lemma stuck_run:
  "stopping_run re s s' \<Longrightarrow> mutex_stuck s \<Longrightarrow> mutex_stuck s'"
  "stopping_run re s s' \<Longrightarrow> push_stuck s \<Longrightarrow> push_stuck s'"
  by (induction rule: stopping_run.induct) (auto intro: mutex_stuck_step push_stuck_step)

text \<open>From a quiet server, the states after the stop of the statistics handler.\<close>

definition stats_stopped :: "packet_loop \<Rightarrow> Stopping \<Rightarrow> Stopping" where
  "stats_stopped loop s = s\<lparr>sp_loop := loop, sp_todo := Some [StopScheduler, LockSessions],
     sp_handler := stopped_handler (sp_handler s)\<rparr>"

definition quiet :: "Stopping \<Rightarrow> bool" where
  "quiet s \<longleftrightarrow> stopping_inv s \<and> sp_branch s = udp_branch \<and> sp_todo s = None \<and> sp_sends s = [] \<and> sp_loop s = Reading"

lemma run_stats_stopped:
  assumes "quiet s"
  shows "stopping_run re s (stats_stopped Reading s)" "stopping_run re s (stats_stopped (Electing ctx) s)"
proof -
  have h: "hd_running (sp_handler s)" "\<not> hd_closed (sp_handler s)"
    using assms by (auto simp: quiet_def stopping_inv_def)
  have stats: "stopping_run re s' (stats_stopped loop s)"
    if "s' = s\<lparr>sp_loop := loop\<rparr>" "sp_todo s = None" "sp_branch s = udp_branch" for s' loop
  proof -
    let ?r = "s'\<lparr>sp_todo := Some udp_branch\<rparr>" and ?s = "s'\<lparr>sp_todo := Some (tl udp_branch)\<rparr>"
    have 0: "stopping_step re s' ?r" using request [of s' re] that by simp
    have 1: "stopping_step re ?r ?s" using close_listener [of ?r "tl udp_branch" re] by (simp add: udp_branch_def)
    have "stopping_step re ?s (?s\<lparr>sp_todo := Some [StopScheduler, LockSessions], sp_handler := stopped_handler (sp_handler ?s)\<rparr>)"
      using h that by (intro stop_stats) (simp_all add: udp_branch_def)
    then have 2: "stopping_step re ?s (stats_stopped loop s)" using that by (simp add: stats_stopped_def)
    have "\<not> crashed s'" "\<not> crashed ?r" "\<not> crashed ?s" using h that by (simp_all add: crashed_def)
    with 0 1 2 show ?thesis using run_next [OF run_next [OF run_next [OF run_start]]] by blast
  qed
  show "stopping_run re s (stats_stopped Reading s)" using stats [of s Reading] assms by (simp add: quiet_def)
  have "stopping_step re s (s\<lparr>sp_loop := Locking\<rparr>)" using assms by (intro packet) (simp_all add: quiet_def listening_def)
  moreover have "stopping_step re (s\<lparr>sp_loop := Locking\<rparr>) (s\<lparr>sp_loop := Electing ctx\<rparr>)"
    using lock [of "s\<lparr>sp_loop := Locking\<rparr>" re ctx] by simp
  moreover have "\<not> crashed s" "\<not> crashed (s\<lparr>sp_loop := Locking\<rparr>)" using h by (simp_all add: crashed_def)
  ultimately have "stopping_run re s (s\<lparr>sp_loop := Electing ctx\<rparr>)"
    using run_next [OF run_next [OF run_start]] by blast
  with stats [of "s\<lparr>sp_loop := Electing ctx\<rparr>" "Electing ctx"] assms
  show "stopping_run re s (stats_stopped (Electing ctx) s)"
    using stopping_run_trans by (auto simp: quiet_def)
qed

lemma stats_stopped_calm: "quiet s \<Longrightarrow> \<nexists>n. loop = Reporting n \<Longrightarrow> \<not> crashed (stats_stopped loop s)"
  by (simp add: quiet_def stats_stopped_def crashed_def)

lemma udp_crash:
  fixes b :: Backend and c :: uint64
  assumes "quiet s"
  shows "\<exists>s'. stopping_run re s s' \<and> crashed s'"
proof -
  let ?s = "stats_stopped Reading s"
    and ?t = "Traffic \<lparr>CountRead = 0, CountWrite = c, rwc_Target = Target b\<rparr>"
  have "sch_running (sp_scheduler s)" "wf_backends (sch_backends (sp_scheduler s))"
    using assms by (simp_all add: quiet_def stopping_inv_def)
  from sched_can_traffic [OF this]
  have "stopping_step re ?s (?s\<lparr>sp_scheduler := sp_scheduler s, sp_sends := filter to_handler [?t]\<rparr>)"
    using assms by (intro turn [where ev = "EvOp (Scheduler_IncrementTx b c)"]) (simp_all add: stats_stopped_def quiet_def)
  from run_next [OF run_stats_stopped(1) [OF assms] stats_stopped_calm [OF assms] this] show ?thesis
    by (intro exI conjI) (simp, simp add: crashed_def stats_stopped_def closed_by_stop_def to_handler_def)
qed

lemma udp_push_stuck: assumes "quiet s" shows "\<exists>s'. stopping_run re s s' \<and> push_stuck s'"
proof -
  let ?s = "stats_stopped Reading s"
  have "sch_running (sp_scheduler s)" "wf_backends (sch_backends (sp_scheduler s))"
    using assms by (simp_all add: quiet_def stopping_inv_def)
  then obtain bs where p: "sched_step re (sp_scheduler s) EvPush (sp_scheduler s) [StatsBackends bs]"
    using sched_can_push by blast
  have "stopping_step re ?s (?s\<lparr>sp_scheduler := sp_scheduler s, sp_sends := filter to_handler [StatsBackends bs]\<rparr>)"
    using assms p by (intro turn [where ev = EvPush]) (simp_all add: stats_stopped_def quiet_def)
  from run_next [OF run_stats_stopped(1) [OF assms] stats_stopped_calm [OF assms] this] show ?thesis
    by (intro exI conjI) (simp, simp add: push_stuck_def stats_stopped_def to_handler_def)
qed

lemma udp_mutex_stuck:
  fixes ctx :: Context
  assumes "quiet s"
  shows "\<exists>s'. stopping_run re s s' \<and> mutex_stuck s'"
proof -
  let ?s = "stats_stopped (Electing ctx) s"
  have "sch_running (sp_scheduler s)" "wf_backends (sch_backends (sp_scheduler s))"
    using assms by (simp_all add: quiet_def stopping_inv_def)
  from sched_can_stop [OF this]
  have "stopping_step re ?s (?s\<lparr>sp_todo := Some [LockSessions], sp_scheduler := (sp_scheduler s)\<lparr>sch_running := False\<rparr>\<rparr>)"
    using assms by (intro stop_scheduler) (simp_all add: stats_stopped_def quiet_def)
  from run_next [OF run_stats_stopped(2) [OF assms] stats_stopped_calm [OF assms] this] show ?thesis
    by (intro exI conjI) (simp, simp add: mutex_stuck_def stats_stopped_def)
qed

end
