(* ===== verification/Counting.thy ===== *)
theory Counting
  imports Counters
begin

text \<open>
  Three kinds of goroutines that hand values round in a ring: the scheduler sends the targets to the
  pool of bandwidth counters (src/src/server/scheduler/scheduler.go), the pool sends traffic and stop
  requests to the counters (src/src/stats/counters/backendscounter.go), and each counter sends its
  statistics to the scheduler (src/src/stats/counters/counter.go). No channel is buffered, so every
  handover waits for the other side to be in its \<open>select\<close>.
\<close>

section \<open>The goroutines\<close>

text \<open>The scheduler: in its \<open>select\<close>, or in \<open>BackendsCounter.In <- Targets()\<close>.\<close>

datatype sched_pc = InSelect | SendingTargets "Target list"

text \<open>The pool: in its \<open>select\<close>, in \<open>counter.Traffic <- rwc\<close>, or stopping counters one after the other.\<close>

datatype pool_pc = PoolSelect | Routing ReadWriteCount | Stopping_counters "Target list"

text \<open>
  \<open>cg_counters\<close>: the counters whose goroutines run; \<open>cg_reporting\<close>: those of them in \<open>Out <- stats\<close>,
  the others are in their \<open>select\<close>.
\<close>

record Counting =
  cg_scheduler :: sched_pc
  cg_pool :: pool_pc
  cg_counters :: counters
  cg_reporting :: "Target set"

definition counting_start :: Counting where
  "counting_start = \<lparr>cg_scheduler = InSelect, cg_pool = PoolSelect, cg_counters = Map.empty, cg_reporting = {}\<rparr>"

text \<open>The counters that run once the pool has taken new targets: the new ones have been started.\<close>

definition with_targets :: "Target list \<Rightarrow> counters \<Rightarrow> counters" where
  "with_targets ts cs = cs ++ fst (UpdateCounters ts cs)"

inductive counting_step :: "Counting \<Rightarrow> Counting \<Rightarrow> bool" where
  ticked: "cg_counters s t = Some c \<Longrightarrow> t \<notin> cg_reporting s \<Longrightarrow> counter_tick c = Ok c' \<Longrightarrow>
    counting_step s (s\<lparr>cg_counters := (cg_counters s)(t \<mapsto> c'), cg_reporting := insert t (cg_reporting s)\<rparr>)"
| stats_taken: "t \<in> cg_reporting s \<Longrightarrow> cg_scheduler s = InSelect \<Longrightarrow>
    counting_step s (s\<lparr>cg_reporting := cg_reporting s - {t}\<rparr>)"
| traffic: "cg_pool s = PoolSelect \<Longrightarrow>
    counting_step s (s\<lparr>cg_pool := (if cg_counters s (rwc_Target rwc) = None then PoolSelect else Routing rwc)\<rparr>)"
| routed: "cg_pool s = Routing rwc \<Longrightarrow> rwc_Target rwc \<notin> cg_reporting s \<Longrightarrow>
    counting_step s (s\<lparr>cg_pool := PoolSelect, cg_counters := route_traffic rwc (cg_counters s)\<rparr>)"
| discovered: "cg_scheduler s = InSelect \<Longrightarrow> counting_step s (s\<lparr>cg_scheduler := SendingTargets ts\<rparr>)"
| targets_taken: "cg_scheduler s = SendingTargets ts \<Longrightarrow> cg_pool s = PoolSelect \<Longrightarrow>
    distinct gone \<Longrightarrow> set gone = snd (UpdateCounters ts (cg_counters s)) \<Longrightarrow>
    counting_step s (s\<lparr>cg_scheduler := InSelect, cg_pool := Stopping_counters gone,
      cg_counters := with_targets ts (cg_counters s)\<rparr>)"
| counter_stopped: "cg_pool s = Stopping_counters (t # ts) \<Longrightarrow> t \<notin> cg_reporting s \<Longrightarrow>
    counting_step s (s\<lparr>cg_pool := Stopping_counters ts, cg_counters := (cg_counters s)(t := None)\<rparr>)"
| updated: "cg_pool s = Stopping_counters [] \<Longrightarrow> counting_step s (s\<lparr>cg_pool := PoolSelect\<rparr>)"

inductive_cases counting_stepE: "counting_step s s'"

inductive counting_run :: "Counting \<Rightarrow> Counting \<Rightarrow> bool" for s where
  counting_none: "counting_run s s"
| counting_next: "counting_run s s' \<Longrightarrow> counting_step s' s'' \<Longrightarrow> counting_run s s''"

lemma counting_run_trans: "counting_run s' s'' \<Longrightarrow> counting_run s s' \<Longrightarrow> counting_run s s''"
  by (induction rule: counting_run.induct) (auto intro: counting_next)

lemma counting_run_step: "counting_step s s' \<Longrightarrow> counting_run s' s'' \<Longrightarrow> counting_run s s''"
  by (rule counting_run_trans [OF _ counting_next [OF counting_none]])

section \<open>The ring\<close>

text \<open>The counters that the pool must reach before it is in its \<open>select\<close> again.\<close>

definition pool_needs :: "pool_pc \<Rightarrow> Target list" where
  "pool_needs p = (case p of PoolSelect \<Rightarrow> [] | Routing rwc \<Rightarrow> [rwc_Target rwc] | Stopping_counters ts \<Rightarrow> ts)"

text \<open>The scheduler waits for the pool, the pool for a counter, and the counter for the scheduler.\<close>

definition ring_blocked :: "Counting \<Rightarrow> bool" where
  "ring_blocked s \<longleftrightarrow> (\<exists>ts. cg_scheduler s = SendingTargets ts) \<and> (\<exists>t \<in> set (pool_needs (cg_pool s)). t \<in> cg_reporting s)"

lemma ring_blocked_step:
  assumes "counting_step s s'" and "ring_blocked s"
  shows "ring_blocked s' \<and> cg_scheduler s' = cg_scheduler s"
  using assms by cases (auto simp: ring_blocked_def pool_needs_def split: pool_pc.splits)

lemma ring_blocked_run: "counting_run s s' \<Longrightarrow> ring_blocked s \<Longrightarrow> ring_blocked s' \<and> cg_scheduler s' = cg_scheduler s"
  by (induction rule: counting_run.induct) (auto dest: ring_blocked_step)

text \<open>Outside such a ring the pool gets back to its \<open>select\<close> alone.\<close>

lemma stop_all:
  "cg_pool s = Stopping_counters ts \<Longrightarrow> set ts \<inter> cg_reporting s = {} \<Longrightarrow>
   \<exists>cs. counting_run s (s\<lparr>cg_pool := PoolSelect, cg_counters := cs\<rparr>)"
proof (induction ts arbitrary: s)
  case Nil
  have "counting_run s (s\<lparr>cg_pool := PoolSelect\<rparr>)" by (rule counting_next [OF counting_none updated [OF Nil.prems(1)]])
  moreover have "s\<lparr>cg_pool := PoolSelect\<rparr> = s\<lparr>cg_pool := PoolSelect, cg_counters := cg_counters s\<rparr>" by simp
  ultimately show ?case by metis
next
  case (Cons t ts)
  let ?s = "s\<lparr>cg_pool := Stopping_counters ts, cg_counters := (cg_counters s)(t := None)\<rparr>"
  have "counting_step s ?s" using Cons.prems by (intro counter_stopped) auto
  moreover obtain cs where "counting_run ?s (?s\<lparr>cg_pool := PoolSelect, cg_counters := cs\<rparr>)"
    using Cons.IH [of ?s] Cons.prems(2) by auto
  ultimately have "counting_run s (?s\<lparr>cg_pool := PoolSelect, cg_counters := cs\<rparr>)" by (rule counting_run_step)
  then show ?case by (intro exI [of _ cs]) simp
qed

lemma pool_free:
  assumes "set (pool_needs (cg_pool s)) \<inter> cg_reporting s = {}"
  shows "\<exists>cs. counting_run s (s\<lparr>cg_pool := PoolSelect, cg_counters := cs\<rparr>)"
proof (cases "cg_pool s")
  case PoolSelect
  then have "s\<lparr>cg_pool := PoolSelect, cg_counters := cg_counters s\<rparr> = s" by (cases s) simp
  then show ?thesis using counting_none by metis
next
  case (Routing rwc)
  then show ?thesis using assms routed [OF Routing]
    by (intro exI [of _ "route_traffic rwc (cg_counters s)"] counting_next [OF counting_none]) (simp add: pool_needs_def)
next
  case (Stopping_counters ts)
  then show ?thesis using stop_all assms by (simp add: pool_needs_def)
qed

lemma stopped_counters: "finite (dom cs) \<Longrightarrow> \<exists>gone. distinct gone \<and> set gone = snd (UpdateCounters ts cs)"
  by (rule finite_distinct_list [THEN exE, of "snd (UpdateCounters ts cs)"])
    (auto simp: UpdateCounters_def elim: finite_subset [rotated])

lemma finite_counters_step:
  assumes "counting_step s s'" and "finite (dom (cg_counters s))"
  shows "finite (dom (cg_counters s'))"
  using assms
proof cases
  case (targets_taken ts gone)
  have "dom (fst (UpdateCounters ts (cg_counters s))) \<subseteq> set ts"
    by (auto simp: UpdateCounters_def keep_counters_spec split: if_splits)
  then show ?thesis using targets_taken assms(2) by (simp add: with_targets_def finite_subset)
next
  case (routed rwc)
  then show ?thesis using assms(2) by (simp add: route_traffic_def split: option.split)
qed auto

lemma finite_counters: "counting_run s s' \<Longrightarrow> finite (dom (cg_counters s)) \<Longrightarrow> finite (dom (cg_counters s'))"
  by (induction rule: counting_run.induct) (auto intro: finite_counters_step)

lemma targets_delivered:
  assumes "counting_run counting_start s" and "cg_scheduler s = SendingTargets ts" and "\<not> ring_blocked s"
  shows "\<exists>s'. counting_run s s' \<and> cg_scheduler s' = InSelect"
proof -
  have "set (pool_needs (cg_pool s)) \<inter> cg_reporting s = {}" using assms(2,3) by (auto simp: ring_blocked_def)
  then obtain cs where r: "counting_run s (s\<lparr>cg_pool := PoolSelect, cg_counters := cs\<rparr>)" using pool_free by blast
  then have "finite (dom cs)"
    using finite_counters [OF counting_run_trans [OF r assms(1)]] by (simp add: counting_start_def)
  then obtain gone where "distinct gone" "set gone = snd (UpdateCounters ts cs)" using stopped_counters by blast
  then have "counting_step (s\<lparr>cg_pool := PoolSelect, cg_counters := cs\<rparr>)
      (s\<lparr>cg_scheduler := InSelect, cg_pool := Stopping_counters gone, cg_counters := with_targets ts cs\<rparr>)"
    using targets_taken [of "s\<lparr>cg_pool := PoolSelect, cg_counters := cs\<rparr>" ts gone] assms(2) by simp
  from counting_next [OF r this] show ?thesis by (intro exI conjI) (assumption, simp)
qed

text \<open>The ring can close as soon as one backend is known.\<close>

lemma ring_reachable: "\<exists>s. counting_run counting_start s \<and> ring_blocked s"
proof -
  let ?rwc = "\<lparr>CountRead = 1, CountWrite = 0, rwc_Target = t\<rparr>"
  let ?cs = "with_targets [t] Map.empty" and ?c = "target_counter t"
  have cs: "?cs t = Some ?c" by (simp add: with_targets_def UpdateCounters_def)
  have gone: "snd (UpdateCounters [t] Map.empty) = {}" by (simp add: UpdateCounters_def)
  have tick: "\<exists>c'. counter_tick ?c = Ok c'"
    by (simp add: counter_tick_def target_counter_def NewBandwidthCounter_def Let_def)
  define s1 where "s1 = counting_start\<lparr>cg_scheduler := SendingTargets [t]\<rparr>"
  define s2 where "s2 = counting_start\<lparr>cg_pool := Stopping_counters [], cg_counters := ?cs\<rparr>"
  define s3 where "s3 = counting_start\<lparr>cg_counters := ?cs\<rparr>"
  define s4 where "s4 = s3\<lparr>cg_scheduler := SendingTargets [t]\<rparr>"
  define s5 where "s5 = s4\<lparr>cg_pool := Routing ?rwc\<rparr>"
  have 1: "counting_step counting_start s1" unfolding s1_def by (rule discovered) (simp add: counting_start_def)
  have 2: "counting_step s1 s2"
    using targets_taken [of s1 "[t]" "[]"] gone by (simp add: s1_def s2_def counting_start_def)
  have 3: "counting_step s2 s3" using updated [of s2] by (simp add: s2_def s3_def counting_start_def)
  have 4: "counting_step s3 s4" unfolding s4_def by (rule discovered) (simp add: s3_def counting_start_def)
  have 5: "counting_step s4 s5"
    using traffic [of s4 ?rwc] cs by (simp add: s4_def s5_def s3_def counting_start_def)
  obtain c' where "counter_tick ?c = Ok c'" using tick by blast
  with ticked [of s5 t ?c c'] cs have 6: "counting_step s5 (s5\<lparr>cg_counters := ?cs(t \<mapsto> c'), cg_reporting := {t}\<rparr>)"
    by (simp add: s5_def s4_def s3_def counting_start_def)
  have "counting_run counting_start (s5\<lparr>cg_counters := ?cs(t \<mapsto> c'), cg_reporting := {t}\<rparr>)"
    by (intro counting_next [OF counting_next [OF counting_next [OF counting_next [OF counting_next
        [OF counting_next [OF counting_none 1] 2] 3] 4] 5] 6])
  moreover have "ring_blocked (s5\<lparr>cg_counters := ?cs(t \<mapsto> c'), cg_reporting := {t}\<rparr>)"
    by (simp add: ring_blocked_def pool_needs_def s5_def s4_def)
  ultimately show ?thesis by blast
qed

end
