(* ===== verification/Stopping_Properties.thy ===== *)
theory Stopping_Properties
  imports Stopping Counting Manager_Properties
begin

text \<open>
  The properties of goroutines that wait for each other: how a TCP and a UDP server are stopped, and
  the ring of the scheduler, the pool of counters and the counters.
\<close>

section \<open>Stopping a server\<close>


definition new_handler :: Handler where
  "new_handler = sto_objs (snd (NewHandler ''a'' empty_store)) ! 0"


text \<open>C8: The UDP server stops its statistics handler first. So each time it is stopped while no packet
  is under way, there is a course of events in which the process panics (the scheduler passes on
  traffic), one in which the stop never ends because the scheduler waits for the handler, and one in
  which it never ends because the packet loop waits for the scheduler and holds the mutex.\<close>

theorem udp_stop_order_fails:
  assumes "stopping_run re (started udp_branch Reading bal cfg h) s"
    and "sp_todo s = None" and "sp_sends s = []" and "sp_loop s = Reading"
  shows "(\<exists>s'. stopping_run re s s' \<and> crashed s') \<and>
    (\<exists>s'. stopping_run re s s' \<and> (\<forall>s''. stopping_run re s' s'' \<longrightarrow> sp_todo s'' = Some [StopScheduler, LockSessions])) \<and>
    (\<exists>s'. stopping_run re s s' \<and> (\<forall>s''. stopping_run re s' s'' \<longrightarrow> sp_todo s'' = Some [LockSessions]))"
proof -
  have "stopping_inv s \<and> sp_branch s = udp_branch"
    using stopping_run_inv [OF assms(1) started_inv] by (simp add: started_def udp_branch_def)
  then have q: "quiet s" using assms(2-4) by (simp add: quiet_def)
  obtain p where p: "stopping_run re s p" "push_stuck p" using udp_push_stuck [OF q] by blast
  obtain l where l: "stopping_run re s l" "mutex_stuck l" using udp_mutex_stuck [OF q] by blast
  have "\<forall>s''. stopping_run re p s'' \<longrightarrow> sp_todo s'' = Some [StopScheduler, LockSessions]"
    using stuck_run(2) [OF _ p(2)] by (auto simp: push_stuck_def)
  moreover have "\<forall>s''. stopping_run re l s'' \<longrightarrow> sp_todo s'' = Some [LockSessions]"
    using stuck_run(1) [OF _ l(2)] by (auto simp: mutex_stuck_def)
  ultimately show ?thesis using p(1) l(1) udp_crash [OF q] by blast
qed

theorem udp_stop_order_fails_witness:
  "\<exists>s. stopping_run (\<lambda>_. None) (started udp_branch Reading sample_balancer sample_healthcheck new_handler) s \<and> crashed s"
proof -
  let ?s = "started udp_branch Reading sample_balancer sample_healthcheck new_handler"
  have "sp_todo ?s = None" "sp_sends ?s = []" "sp_loop ?s = Reading" by (simp_all add: started_def)
  from udp_stop_order_fails [OF stopping_run.run_start this] show ?thesis by blast
qed

section \<open>Binding again\<close>

text \<open>The surroundings while the address is still bound, or taken by somebody else.\<close>

definition bound_menv :: menv where
  "bound_menv = sample_menv\<lparr>me_world := sample_world\<lparr>w_listen := (\<lambda>_ _. False)\<rparr>\<rparr>"


section \<open>The ring of counters\<close>



end
