(* ===== verification/Spec2Isabelle.thy ===== *)
theory Spec2Isabelle
  imports Balance_Properties Scheduler_Properties Healthcheck_Properties Access_Properties
    Tcp_Properties Udp_Properties Discovery_Properties Manager_Properties
    Metrics_Properties Input_Properties Api_Properties Acme_Properties
    Serving_Properties Proxy_Properties Cli_Properties Stopping_Properties
begin

text \<open>
  A model of gobetween, a layer 4 load balancer written in Go, and the theorems that make its parts
  correct. Paths are relative to src/src of the repository, except src/main.go.

  THE PROGRAM. A process reads a configuration (cmd, utils/codec) and starts a server for each of
  its entries (manager). A server listens on TCP, TLS or UDP. It owns a scheduler, a goroutine with
  the map of backends. The scheduler hears from a discovery which backends exist, from health check
  workers which of them are alive, and from bandwidth counters what they transfer, and it answers
  the server's request for a backend through a balancer. The server's connection handlers and UDP
  sessions report to it when they open and close connections. Statistics handlers collect what the
  server and the scheduler report; the REST API and the Prometheus gauges show it. A SIGHUP reloads
  the configuration, starting, replacing and stopping only the servers that differ.

  CONVENTIONS (Go_Prelude, Go_Std, Go_Net). A Go call ends in an outcome: Ok, Err (a returned error)
  or Panic (a panic, a nil dereference, an index out of range or log.Fatal). int is the type goint,
  an unbounded integer, as nothing here comes near its bounds; counters that can wrap around are
  words of their width. A string is the list of its bytes. Slices that may be nil and pointers are
  options. A map is a HOL map, or an association list where the code iterates over it, in which case
  the order of iteration is an argument and the theorems quantify over it. A goroutine is a step
  function or an inductive step relation over the events of its select; unbuffered channels are
  steps of both sides. What libraries and the network answer is data or a function argument. The
  parts of Go's library that the program computes with are defined: ParseDuration, Atoi, Itoa,
  TrimSpace, Split, quoting, FNV hashing, JoinHostPort, ParseIP, ParseCIDR, Contains.

  WHICH THEORY MODELS WHAT.

  Core and Config: targets, backends, contexts (core) and the records of the configuration
  (config/config.go). Samples holds the concrete values of the witnesses.

  Balance: the six balancers, the SNI and max_connections middlewares, and the stack that New builds
  (balance, balance/middleware). Balance_Base characterises each loop by a closed description.
  Balance_Contract states what the scheduler relies on as the locales balancer and
  available_balancer, and interprets them for every base balancer, for the limited one and for the
  whole stack; Balance_Properties holds the theorems on fairness, weights and loads, and on the
  elections that the middlewares allow.

  Healthcheck, Exec_Timeout, Counters: workers, worker sets, the ping, probe and exec checks,
  running a command with a timeout (healthcheck, utils/exec.go) and bandwidth counters
  (stats/counters). The theorems say what a worker reports, when an exec check is healthy and over,
  and what the totals and rates of a counter are after any run.

  Scheduler: every branch of the goroutine in server/scheduler/scheduler.go. Scheduler_Correct has
  the closed form of a discovery update, the invariant of the map and the accounting of connections
  over whole runs. Connection_Users states, as the locale connection_user, what a client of the
  scheduler promises (it releases only what it registered), proves that the promise survives any
  interleaving, and interprets it for TCP handlers and UDP sessions.

  Discovery, Fetch, Backend_Parser: the goroutine with its fail policy (discovery/discovery.go), the
  fetch functions of its eight kinds, and the parser of backend lines (utils/parsers).
  Backend_Source is the interface between them and the scheduler: each reported backend is live and
  starts with zero counters, discharged for all eight kinds. Serving runs a discovery and a
  scheduler side by side, as Scheduler.Start does; Serving_Properties composes the accounting over
  discovery, scheduler and handlers, and shows exactly when a stop comes through and when the two
  block each other for ever.

  Access, Source_Pool: access rules (server/modules/access) and the pool of IPv6 source addresses
  (utils/sources.go), against the bits of addresses.

  Tcp_Server, Tcp_Accept, Proxy, Proxy_Timed: the TCP server (server/tcp). Tcp_Accept is the way in:
  the accept loop, wrap with its sniffing, and the goroutine with the map of clients; Tcp_Server is
  that goroutine and the handler of one connection, from the access check over election, dial and
  PROXY header to the end of the proxying; Proxy is the copy loop and the statistics collector,
  Proxy_Timed both of them with the read deadline that an idle timeout renews. The theorems follow
  each connection through its places, balance its registrations on every path and count its bytes.
  Tls_Util models utils/tls/tls.go, Wire the SNI sniffing with its replay and PROXY protocol
  headers; Data_Path puts sniffing, header and copy loop together: what the backend receives is what
  the client sent.

  Udp_Session, Udp_Server: a session's worker with its idle timer, and the server's map of sessions,
  the election for a new one, the single-packet mode with its pool, cleanup and stop (server/udp).
  Udp_Delivery adds listening and the loop that reads the packets, and follows each datagram: what a
  session hands to its socket is a prefix of what its own client sent, in order, less what was
  dropped.

  Stats, Servers: the statistics handler and the store of handlers (stats); making, starting and
  stopping a server, and the ACME service's claiming of hosts (server, service). Acme_Hosts has the
  rest of the service, its host policy, its challenge server and the registry of services, and
  follows the claimed hosts through the runs of the manager.

  Stopping, Counting: goroutines that wait for each other. Stopping has the stop branch of a server,
  the scheduler with its pending sends, the statistics handler whose stop closes channels, and the
  packet loop of a UDP server with its mutex; the TCP server's order of stopping is shown to be
  safe, the UDP server's not. Counting has the ring of the scheduler, the pool of counters and the
  counters, and shows exactly when it is closed for ever.

  Prepare, Expand, Manager: prepareConfig with its validation and defaults, expandBinds, and the
  operations of manager/manager.go: create, delete, reload with its plan and rollback,
  initialisation. A configuration is copied by value in Go but its discovery, health check and SNI
  records hang behind pointers that copies share; so they live in a heap of records, and the effects
  of that aliasing are part of the model. Prepare_Correct shows that an accepted configuration is
  complete, Manager_Correct the invariant of the manager and the effect of a plan; Manager_Invariant
  states, as the locale manager_invariant, what an invariant of its operations has to keep, gives it
  in every reachable state, and interprets it for the names and statistics and, in Acme_Hosts, for
  the claimed hosts; Server_Heap separates the records of a list of servers, and Reload_Unchanged
  uses it to show that reloading an unchanged text touches no server.

  Metrics: the gauge vectors with their labels and every report (metrics/metrics.go), and the calls
  the scheduler makes.

  Loader, Cli: the loaders, the substitution of environment variables, the logger's configuration
  and the pid file (cmd/loader.go, utils/env.go, utils/codec, logging, utils/pidfile); the commands,
  the GOBETWEEN variable and the process they lead to (cmd, src/main.go). Api: the endpoints with
  their authentication and status codes, starting up and reloading on SIGHUP (api, src/main.go).
  Api_Start is the building of the application: its middlewares, groups and routes as the calls on
  gin, and what a router that keeps gin's documented contract serves for them. Cli_Properties
  follows a process from its arguments through any number of signals.

  WHAT THE THEOREMS SHOW. The theory of each component closes with lemmas on its operations; the
  theories named ..._Properties hold the theorems about the program, each with a concrete input on
  which its hypotheses hold. Across components: the counter of open connections of a backend is the
  number of handlers and sessions that have registered and not released, whatever the discovery
  reports and however the goroutines interleave; an election yields a live, discovered backend below
  its limit; a prepared configuration never makes a server panic; a successful reload leaves exactly
  the next configuration's servers, and an unchanged one none but the old; the statistics and gauges
  shown are those of running servers and tracked backends; every route of the API but one is behind
  the configured credentials; no two running servers claim the same ACME host; a process that runs
  can always reload from where it came. Several theorems state what goes wrong, at a concrete input
  or under exact conditions: an iphash1 client that elects a nil backend, a counter that wraps
  around, a session whose expired timer blocks it, a probe string whose escapes make a reload lose
  its server, a stop that panics or never comes through, a ring of goroutines that wait for each
  other, connections that are lost at a stop, a server whose own addresses compete for its ACME
  hosts.

  BOUNDS AND TERMINATION. There is no fuel: loops over data are structural or have a measure (text
  that gets shorter), and goroutines, which need not end, are runs of steps. The theorems that count
  connections bound a run's length by 2 to the 64, the range of the counter; the other word-valued
  results hold modulo their width, as the code computes.

  NOT MODELLED. Reading TOML and JSON, gin's handling of CORS and HTTP, cobra's flag parsing, the
  levels and outputs of logrus, the profiler's endpoint, Prometheus' registry and its rounding to
  float64. Parsing a ClientHello (utils/tls/sni/extract.go hands crypto/tls a connection that reads
  from a buffer, which is modelled), TLS itself, loading certificates and issuing them over ACME,
  gin's routing, and building PROXY headers (go-proxyproto) are parameters, as are regular
  expressions, with the exception of the default pattern of backend lines. The clients of Docker,
  Consul and LXD are represented by their answers, and a disk by whether it can be written. Time is
  a sequence of events, with explicit values only where a deadline or timeout is the point. A
  handler goroutine that outlives the stop of its server, and the statistics that are still under
  way then, end with the run.
\<close>

end
